(* ===== verification/Prelude.thy ===== *)
theory Prelude
  imports Complex_Main "HOL-Library.AList" "HOL-Library.List_Lexorder" "HOL-Library.Char_ord"
    "HOL-Library.Product_Lexorder" "HOL-Library.Sublist" "HOL-Library.Monad_Syntax"
begin

text \<open>
  The Python values every component uses. A \<open>str\<close> is a \<open>string\<close> holding its UTF-8 bytes;
  case mapping and white space are those of the ASCII range, which is what the modelled
  code applies them to (names are transliterated to ASCII before they are compared, and
  evidence values are ASCII keywords). A \<open>dict\<close> is an association list in insertion order:
  \<open>map_of\<close> reads it, \<open>AList.update\<close> assigns a key in place or appends it and
  \<open>AList.delete\<close> removes it, as Python's \<open>dict\<close> does. A JSON column is a value of type
  \<open>json\<close>.
\<close>

named_theorems model_simps \<open>unfolding equations the component proofs share\<close>

section \<open>Text\<close>

definition is_space :: "char \<Rightarrow> bool" where
  "is_space c = (let n = (of_char c :: nat) in n = 32 \<or> 9 \<le> n \<and> n \<le> 13 \<or> 28 \<le> n \<and> n \<le> 31)"

definition is_upper :: "char \<Rightarrow> bool" where
  "is_upper c = (let n = (of_char c :: nat) in 65 \<le> n \<and> n \<le> 90)"

definition is_lower :: "char \<Rightarrow> bool" where
  "is_lower c = (let n = (of_char c :: nat) in 97 \<le> n \<and> n \<le> 122)"

definition is_digit :: "char \<Rightarrow> bool" where
  "is_digit c = (let n = (of_char c :: nat) in 48 \<le> n \<and> n \<le> 57)"

definition digit_value :: "char \<Rightarrow> int" where
  "digit_value c = of_char c - 48"

definition lower_char :: "char \<Rightarrow> char" where
  "lower_char c = (if is_upper c then char_of (of_char c + (32 :: nat)) else c)"

definition upper_char :: "char \<Rightarrow> char" where
  "upper_char c = (if is_lower c then char_of (of_char c - (32 :: nat)) else c)"

definition str_lower :: "string \<Rightarrow> string" where
  "str_lower = map lower_char"

definition str_upper :: "string \<Rightarrow> string" where
  "str_upper = map upper_char"

definition str_strip :: "string \<Rightarrow> string" where
  "str_strip s = rev (dropWhile is_space (rev (dropWhile is_space s)))"

text \<open>\<open>s.split()\<close>: the maximal runs of characters that are not white space.\<close>

fun split_from :: "string \<Rightarrow> string \<Rightarrow> string list" where
  "split_from acc [] = (if acc = [] then [] else [rev acc])"
| "split_from acc (c # cs) =
     (if is_space c then (if acc = [] then [] else [rev acc]) @ split_from [] cs
      else split_from (c # acc) cs)"

definition str_split :: "string \<Rightarrow> string list" where
  "str_split s = split_from [] s"

text \<open>\<open>s.split(sep)\<close> for a one-character separator: never the empty list.\<close>

fun split_on :: "char \<Rightarrow> string \<Rightarrow> string list" where
  "split_on sep [] = [[]]"
| "split_on sep (c # cs) =
     (if c = sep then [] # split_on sep cs
      else (case split_on sep cs of [] \<Rightarrow> [[c]] | w # ws \<Rightarrow> (c # w) # ws))"

definition str_join :: "string \<Rightarrow> string list \<Rightarrow> string" where
  "str_join sep xs = (case xs of [] \<Rightarrow> [] | y # ys \<Rightarrow> y @ concat (map (\<lambda>w. sep @ w) ys))"

definition str_in :: "string \<Rightarrow> string \<Rightarrow> bool" where
  \<comment> \<open>the substring test \<open>s in t\<close>\<close>
  "str_in s t = list_ex (prefix s) (suffixes t)"

text \<open>\<open>int(s)\<close> of a \<open>str\<close>: surrounding white space, a sign, digits with single
  underscores between them; None is the \<open>ValueError\<close>.\<close>

fun digits_from :: "int \<Rightarrow> string \<Rightarrow> int option" where
  "digits_from n [] = Some n"
| "digits_from n [c] = (if is_digit c then Some (10 * n + digit_value c) else None)"
| "digits_from n (c # d # cs) =
     (if is_digit c then digits_from (10 * n + digit_value c) (d # cs)
      else if c = CHR ''_'' \<and> is_digit d then digits_from n (d # cs)
      else None)"

definition unsigned_int :: "string \<Rightarrow> int option" where
  "unsigned_int s = (case s of [] \<Rightarrow> None | c # _ \<Rightarrow> if is_digit c then digits_from 0 s else None)"

definition py_int :: "string \<Rightarrow> int option" where
  "py_int s = (case str_strip s of
       [] \<Rightarrow> None
     | c # cs \<Rightarrow> if c = CHR ''-'' then map_option uminus (unsigned_int cs)
               else if c = CHR ''+'' then unsigned_int cs
               else unsigned_int (c # cs))"

text \<open>\<open>str(n)\<close> of an integer.\<close>

fun nat_digits :: "nat \<Rightarrow> string" where
  "nat_digits n = (if n < 10 then [char_of (48 + n)] else nat_digits (n div 10) @ [char_of (48 + n mod 10)])"

declare nat_digits.simps [simp del]

definition str_of_int :: "int \<Rightarrow> string" where
  "str_of_int n = (if n < 0 then CHR ''-'' # nat_digits (nat (- n)) else nat_digits (nat n))"

section \<open>Truth values of optional text\<close>

definition truthy :: "string option \<Rightarrow> bool" where
  "truthy x = (case x of None \<Rightarrow> False | Some s \<Rightarrow> s \<noteq> [])"

definition text_or :: "string option \<Rightarrow> string \<Rightarrow> string" where
  \<comment> \<open>\<open>x or s\<close>\<close>
  "text_or x s = (case x of None \<Rightarrow> s | Some t \<Rightarrow> if t = [] then s else t)"

definition opt_or :: "string option \<Rightarrow> string option \<Rightarrow> string option" where
  \<comment> \<open>\<open>x or y\<close>\<close>
  "opt_or x y = (if truthy x then x else y)"

section \<open>JSON columns\<close>

datatype json = JNull | JBool bool | JInt int | JFloat rat | JText string | JList "json list"
  | JDict "(string \<times> json) list"

definition jget :: "(string \<times> json) list \<Rightarrow> string \<Rightarrow> json" where
  \<comment> \<open>\<open>d.get(k)\<close>: \<open>None\<close> when the key is absent\<close>
  "jget d k = (case map_of d k of None \<Rightarrow> JNull | Some v \<Rightarrow> v)"

fun jtruthy :: "json \<Rightarrow> bool" where
  "jtruthy JNull = False"
| "jtruthy (JBool b) = b"
| "jtruthy (JInt n) = (n \<noteq> 0)"
| "jtruthy (JFloat x) = (x \<noteq> 0)"
| "jtruthy (JText s) = (s \<noteq> [])"
| "jtruthy (JList xs) = (xs \<noteq> [])"
| "jtruthy (JDict d) = (d \<noteq> [])"

section \<open>Handlers\<close>

text \<open>The outcome of an HTTP handler: an error status or an answer. 500 is an exception nothing catches.\<close>

datatype 'a reply = Refused nat | Served 'a

section \<open>Shared facts\<close>

lemma split_from_nonempty: "w \<in> set (split_from acc s) \<Longrightarrow> w \<noteq> []"
  by (induction acc s rule: split_from.induct) (auto split: if_splits)

lemma split_from_chars:
  "w \<in> set (split_from acc s) \<Longrightarrow> c \<in> set w \<Longrightarrow> c \<in> set acc \<or> c \<in> set s \<and> \<not> is_space c"
  by (induction acc s rule: split_from.induct) (auto split: if_splits)

lemma split_on_not_Nil [simp]: "split_on sep s \<noteq> []"
  by (induction s) (auto split: list.splits)

lemma truthy_simps [simp]: "\<not> truthy None" "truthy (Some s) = (s \<noteq> [])"
  by (simp_all add: truthy_def)

lemma text_or_simps [simp]: "text_or None s = s" "text_or (Some []) s = s"
  "text_or (Some (c # t)) s = c # t"
  by (simp_all add: text_or_def)

lemma list_filter_nonempty_iff: "filter P xs \<noteq> [] \<longleftrightarrow> (\<exists>x \<in> set xs. P x)"
  by (induction xs) auto

text \<open>The source's idiom for the best of several findings: keep the current one unless the next
  has a strictly smaller index.\<close>

definition better :: "('t \<Rightarrow> nat) \<Rightarrow> 't \<Rightarrow> ('t \<times> 'a) option \<Rightarrow> bool" where
  "better rank t best = (case best of None \<Rightarrow> True | Some (u, _) \<Rightarrow> rank t < rank u)"

definition keep_best :: "('t \<Rightarrow> nat) \<Rightarrow> ('x \<Rightarrow> ('t \<times> 'a) option) \<Rightarrow> 'x \<Rightarrow> ('t \<times> 'a) option
    \<Rightarrow> ('t \<times> 'a) option" where
  "keep_best rank g x best = (case g x of
       None \<Rightarrow> best
     | Some (t, a) \<Rightarrow> if better rank t best then Some (t, a) else best)"

lemma keep_best_cases: "keep_best rank g y b = b \<or> keep_best rank g y b = g y"
  by (auto simp: keep_best_def split: option.splits)

lemma keep_best_improves:
  "b = Some (t, a) \<or> g y = Some (t, a) \<Longrightarrow>
   \<exists>u v. keep_best rank g y b = Some (u, v) \<and> rank u \<le> rank t"
  by (cases b; cases "g y") (auto simp: keep_best_def better_def not_less intro: less_imp_le)

lemma fold_keep_best_start:
  "b = Some (t, a) \<Longrightarrow> \<exists>u v. fold (keep_best rank g) xs b = Some (u, v) \<and> rank u \<le> rank t"
proof (induction xs arbitrary: b t a)
  case (Cons y ys)
  obtain u v where uv: "keep_best rank g y b = Some (u, v)" "rank u \<le> rank t"
    using keep_best_improves [of b t a g y rank] Cons.prems by blast
  show ?case using Cons.IH [OF uv(1)] uv(2) by fastforce
qed simp

lemma fold_keep_best_minimal:
  "x \<in> set xs \<Longrightarrow> g x = Some (t, a) \<Longrightarrow>
   \<exists>u v. fold (keep_best rank g) xs b = Some (u, v) \<and> rank u \<le> rank t"
proof (induction xs arbitrary: b)
  case (Cons y ys)
  show ?case
  proof (cases "x = y")
    case True
    obtain u v where uv: "keep_best rank g y b = Some (u, v)" "rank u \<le> rank t"
      using keep_best_improves [of b t a g y rank] Cons.prems True by blast
    show ?thesis using fold_keep_best_start [OF uv(1), of rank g ys] uv(2) by fastforce
  next
    case False
    then show ?thesis using Cons by simp
  qed
qed simp

lemma fold_keep_best_source:
  "fold (keep_best rank g) xs b = b \<or> (\<exists>x \<in> set xs. fold (keep_best rank g) xs b = g x)"
proof (induction xs arbitrary: b)
  case (Cons y ys)
  show ?case using Cons.IH [of "keep_best rank g y b"] keep_best_cases [of rank g y b] by force
qed simp

lemma fold_keep_best_SomeD:
  "fold (keep_best rank g) xs None = Some y \<Longrightarrow> \<exists>x \<in> set xs. g x = Some y"
  using fold_keep_best_source [of rank g xs None] by auto

lemma map_of_rev_in_set: "map_of (rev ps) k = Some v \<Longrightarrow> (k, v) \<in> set ps"
  by (drule map_of_SomeD) simp

lemma update_sub: "set (AList.update k v al) \<subseteq> set al \<union> {(k, v)}"
  by (induction al) auto

lemma delete_sub: "set (AList.delete k xs) \<subseteq> set xs"
  by (auto simp: AList.delete_eq)

section \<open>Updating the first row\<close>

text \<open>\<open>query(...).first()\<close> followed by assignments to the row.\<close>

fun update_first :: "('a \<Rightarrow> bool) \<Rightarrow> ('a \<Rightarrow> 'a) \<Rightarrow> 'a list \<Rightarrow> 'a list" where
  "update_first P f [] = []"
| "update_first P f (x # xs) = (if P x then f x # xs else x # update_first P f xs)"

lemma update_first_map: "(\<And>x. key (f x) = key x) \<Longrightarrow> map key (update_first P f xs) = map key xs"
  by (induction xs) simp_all

lemma update_first_ex: "(\<And>x. P (f x) = P x) \<Longrightarrow> list_ex P (update_first P f xs) = list_ex P xs"
  by (induction xs) simp_all

lemma update_first_idem: "(\<And>x. P (f x) = P x) \<Longrightarrow> (\<And>x. f (f x) = f x) \<Longrightarrow>
    update_first P f (update_first P f xs) = update_first P f xs"
  by (induction xs) simp_all

lemma update_first_append: "\<not> list_ex P xs \<Longrightarrow> P y \<Longrightarrow> update_first P f (xs @ [y]) = xs @ [f y]"
  by (induction xs) simp_all

lemma update_first_other: "(\<And>x. P (f x) = P x) \<Longrightarrow>
    filter (\<lambda>x. \<not> P x) (update_first P f xs) = filter (\<lambda>x. \<not> P x) xs"
  by (induction xs) simp_all

lemma update_first_set: "set (update_first P f xs) \<subseteq> set xs \<union> f ` set xs"
  by (induction xs) auto

lemma update_first_sorted_wrt:
  "sorted_wrt R xs \<Longrightarrow> (\<And>x y. R x y \<Longrightarrow> R (f x) y) \<Longrightarrow> (\<And>x y. R x y \<Longrightarrow> R x (f y)) \<Longrightarrow> sorted_wrt R (update_first P f xs)"
proof (induction xs)
  case (Cons x xs)
  then show ?case using update_first_set [of P f xs] by (auto; blast)
qed simp

lemma update_first_hit: "list_ex P xs \<Longrightarrow> (\<And>x. P x \<Longrightarrow> Q (f x)) \<Longrightarrow> \<exists>y \<in> set (update_first P f xs). Q y"
  by (induction xs) auto

lemma update_first_keeps: "x \<in> set xs \<Longrightarrow> Q x \<Longrightarrow> Q (f x) \<Longrightarrow> \<exists>y \<in> set (update_first P f xs). Q y"
  by (induction xs) auto

end
