(* ===== verification/Names.thy ===== *)
theory Names
  imports Prelude
begin

text \<open>
  \<open>app/screening/names.py\<close>: person-name normalisation and blocking keys. The two
  third-party routines it calls, \<open>anyascii.anyascii\<close> (transliteration) and
  \<open>jellyfish.metaphone\<close> (phonetic code), are the fields of the parameter \<open>textlib\<close>. A
  Python set of keys is a set.
\<close>

record textlib =
  anyascii :: "string \<Rightarrow> string"
  metaphone :: "string \<Rightarrow> string"

definition NORMALIZER_VERSION :: string where
  "NORMALIZER_VERSION = ''n2''"

definition PARTICLES :: "string list" where
  "PARTICLES =
    [''al'', ''el'', ''bin'', ''ibn'', ''bint'', ''ben'', ''binti'', ''van'', ''von'',
     ''der'', ''den'', ''de'', ''del'', ''della'', ''di'', ''da'', ''dos'', ''das'', ''du'',
     ''la'', ''le'', ''mac'', ''st'']"

text \<open>\<open>_CAMEL\<close>: a blank between a lower-case and an upper-case letter.\<close>

fun camel_sub :: "string \<Rightarrow> string" where
  "camel_sub (a # b # cs) =
     (if is_lower a \<and> is_upper b then a # CHR '' '' # camel_sub (b # cs)
      else a # camel_sub (b # cs))"
| "camel_sub cs = cs"

definition is_alnum :: "char \<Rightarrow> bool" where
  "is_alnum c = (is_lower c \<or> is_digit c)"

text \<open>\<open>_NON_ALNUM.sub(" ", s)\<close>: each maximal run of other characters becomes one blank.\<close>

fun non_alnum_sub :: "string \<Rightarrow> string" where
  "non_alnum_sub [] = []"
| "non_alnum_sub (c # cs) =
     (if is_alnum c then c # non_alnum_sub cs
      else if cs \<noteq> [] \<and> \<not> is_alnum (hd cs) then non_alnum_sub cs
      else CHR '' '' # non_alnum_sub cs)"

definition tokens :: "textlib \<Rightarrow> string option \<Rightarrow> string list" where
  "tokens L name = (case name of
       None \<Rightarrow> []
     | Some n \<Rightarrow>
         if n = [] \<or> str_strip n = [] then []
         else let ascii_name = camel_sub (anyascii L n);
                  parts = str_split (non_alnum_sub (str_lower ascii_name))
              in filter (\<lambda>p. p \<notin> set PARTICLES) parts)"

text \<open>\<open>s.replace(old, new)\<close> for the two-character and the one-character patterns.\<close>

fun replace2 :: "char \<Rightarrow> char \<Rightarrow> char \<Rightarrow> string \<Rightarrow> string" where
  "replace2 a b r (x # y # cs) =
     (if x = a \<and> y = b then r # replace2 a b r cs else x # replace2 a b r (y # cs))"
| "replace2 a b r cs = cs"

definition replace1 :: "char \<Rightarrow> char \<Rightarrow> string \<Rightarrow> string" where
  "replace1 a r = map (\<lambda>c. if c = a then r else c)"

definition is_vowel :: "char \<Rightarrow> bool" where
  "is_vowel c = (c \<in> set ''aeiou'')"

definition skeleton :: "string \<Rightarrow> string" where
  "skeleton token =
    (let t = replace2 CHR ''p'' CHR ''h'' CHR ''f''
               (replace2 CHR ''k'' CHR ''h'' CHR ''h''
                 (replace2 CHR ''k'' CHR ''s'' CHR ''x'' token));
         t = replace1 CHR ''c'' CHR ''k'' (replace1 CHR ''q'' CHR ''k''
               (replace1 CHR ''j'' CHR ''i'' (replace1 CHR ''y'' CHR ''i'' t)));
         t = remdups_adj t;
         consonants = filter (\<lambda>c. \<not> is_vowel c) t;
         key = (case t of [] \<Rightarrow> consonants
                | c # _ \<Rightarrow> if is_vowel c then c # consonants else consonants)
     in if key = [] then t else key)"

definition NICKNAMES :: "(string \<times> string) list" where
  "NICKNAMES =
    [(''bill'', ''william''), (''will'', ''william''), (''billy'', ''william''),
     (''bob'', ''robert''), (''rob'', ''robert''), (''bobby'', ''robert''),
     (''sasha'', ''aleksandr''), (''alex'', ''aleksandr''), (''alexander'', ''aleksandr''),
     (''kate'', ''katherine''), (''katie'', ''katherine''), (''kathy'', ''katherine''),
     (''catherine'', ''katherine''), (''dick'', ''richard''), (''rick'', ''richard''),
     (''rich'', ''richard''), (''peggy'', ''margaret''), (''maggie'', ''margaret''),
     (''meg'', ''margaret''), (''paco'', ''francisco''), (''pancho'', ''francisco''),
     (''liz'', ''elizabeth''), (''beth'', ''elizabeth''), (''betty'', ''elizabeth''),
     (''beppe'', ''giuseppe''), (''pino'', ''giuseppe''), (''hans'', ''johannes''),
     (''jan'', ''johannes''), (''johann'', ''johannes''), (''jim'', ''james''),
     (''jimmy'', ''james''), (''mike'', ''michael''), (''mick'', ''michael''),
     (''tom'', ''thomas''), (''tommy'', ''thomas''), (''dave'', ''david''),
     (''davy'', ''david''), (''joe'', ''joseph''), (''jose'', ''joseph''),
     (''pepe'', ''joseph''), (''misha'', ''mikhail''), (''volodya'', ''vladimir''),
     (''dima'', ''dmitri''), (''kolya'', ''nikolai''), (''vanya'', ''ivan''),
     (''petya'', ''pyotr''), (''seryozha'', ''sergei'')]"

definition canonical_given :: "string \<Rightarrow> string" where
  "canonical_given token = (case map_of NICKNAMES token of None \<Rightarrow> token | Some c \<Rightarrow> c)"

definition own_keys :: "textlib \<Rightarrow> string \<Rightarrow> string set" where
  "own_keys L token = {''mp:'' @ metaphone L token, ''sk:'' @ skeleton token}"

definition token_keys :: "textlib \<Rightarrow> string \<Rightarrow> string set" where
  "token_keys L token =
    (if length token < 2 then {}
     else let keys = own_keys L token; canonical = canonical_given token
          in if canonical \<noteq> token then keys \<union> own_keys L canonical else keys)"

definition name_keys :: "textlib \<Rightarrow> string option \<Rightarrow> string set" where
  "name_keys L name = (\<Union>tok \<in> set (tokens L name). token_keys L tok)"

section \<open>What normalisation guarantees\<close>

lemma non_alnum_sub_chars: "c \<in> set (non_alnum_sub s) \<Longrightarrow> is_alnum c \<or> c = CHR '' ''"
  by (induction s) (auto split: if_splits)

lemma space_blank [simp]: "is_space CHR '' ''"
  by (simp add: is_space_def)

lemma token_shape:
  assumes "t \<in> set (tokens L name)"
  shows "t \<noteq> []" and "\<forall>c \<in> set t. is_alnum c" and "t \<notin> set PARTICLES"
proof -
  obtain n where n: "t \<in> set (split_from [] (non_alnum_sub n))" and p: "t \<notin> set PARTICLES"
    using assms by (auto simp: tokens_def str_split_def Let_def split: option.splits if_splits)
  show "t \<noteq> []" using n by (rule split_from_nonempty)
  show "t \<notin> set PARTICLES" by (rule p)
  show "\<forall>c \<in> set t. is_alnum c"
    using split_from_chars [OF n] non_alnum_sub_chars space_blank by fastforce
qed

lemma token_keys_empty_iff [simp]: "token_keys L t = {} \<longleftrightarrow> length t < 2"
  by (simp add: token_keys_def own_keys_def Let_def)

lemma nickname_targets:
  "list_all (\<lambda>(k, c). map_of NICKNAMES c = None \<and> 2 \<le> length c) NICKNAMES"
  by code_simp

lemma canonical_given_cases:
  "map_of NICKNAMES (canonical_given t) = None"
  "2 \<le> length t \<Longrightarrow> 2 \<le> length (canonical_given t)"
  using nickname_targets map_of_SomeD [of NICKNAMES t]
  by (auto simp: canonical_given_def list_all_iff split: option.splits)

lemma canonical_idem [simp]: "canonical_given (canonical_given t) = canonical_given t"
  using canonical_given_cases(1) [of t] by (simp add: canonical_given_def [of "canonical_given t"])

lemma canonical_keys_subset: "2 \<le> length t \<Longrightarrow> token_keys L (canonical_given t) \<subseteq> token_keys L t"
  by (auto simp: token_keys_def Let_def)

lemma name_keys_mono: "set (tokens L m) \<subseteq> set (tokens L n) \<Longrightarrow> name_keys L m \<subseteq> name_keys L n"
  by (auto simp: name_keys_def)

text \<open>A concrete third-party library, for the examples: both functions leave text unchanged.\<close>

definition plain_lib :: textlib where
  "plain_lib = \<lparr>anyascii = (\<lambda>s. s), metaphone = (\<lambda>s. s)\<rparr>"

end
