(* ===== verification/Countries.thy ===== *)
theory Countries
  imports Names
begin

text \<open>
  \<open>app/lists/countries.py\<close>: country names and codes mapped to ISO 3166-1 alpha-2. The tables
  are the source's, entry by entry and in its order; \<open>ISO2\<close> is written in two parts.
  \<open>anyascii\<close> is the parameter of \<open>Names\<close>.
\<close>

definition ISO2_A_I :: "(string \<times> string) list" where
  "ISO2_A_I =
    [(''AD'', ''Andorra''), (''AE'', ''United Arab Emirates''), (''AF'', ''Afghanistan''),
     (''AG'', ''Antigua and Barbuda''), (''AI'', ''Anguilla''), (''AL'', ''Albania''),
     (''AM'', ''Armenia''), (''AO'', ''Angola''), (''AQ'', ''Antarctica''),
     (''AR'', ''Argentina''), (''AS'', ''American Samoa''), (''AT'', ''Austria''),
     (''AU'', ''Australia''), (''AW'', ''Aruba''), (''AX'', ''Aland Islands''),
     (''AZ'', ''Azerbaijan''), (''BA'', ''Bosnia and Herzegovina''), (''BB'', ''Barbados''),
     (''BD'', ''Bangladesh''), (''BE'', ''Belgium''), (''BF'', ''Burkina Faso''),
     (''BG'', ''Bulgaria''), (''BH'', ''Bahrain''), (''BI'', ''Burundi''),
     (''BJ'', ''Benin''), (''BL'', ''Saint Barthelemy''), (''BM'', ''Bermuda''),
     (''BN'', ''Brunei Darussalam''), (''BO'', ''Bolivia''),
     (''BQ'', ''Bonaire, Sint Eustatius and Saba''), (''BR'', ''Brazil''),
     (''BS'', ''Bahamas''), (''BT'', ''Bhutan''), (''BV'', ''Bouvet Island''),
     (''BW'', ''Botswana''), (''BY'', ''Belarus''), (''BZ'', ''Belize''),
     (''CA'', ''Canada''), (''CC'', ''Cocos (Keeling) Islands''),
     (''CD'', ''Democratic Republic of the Congo''), (''CF'', ''Central African Republic''),
     (''CG'', ''Congo''), (''CH'', ''Switzerland''), (''CI'', ''Cote d'Ivoire''),
     (''CK'', ''Cook Islands''), (''CL'', ''Chile''), (''CM'', ''Cameroon''),
     (''CN'', ''China''), (''CO'', ''Colombia''), (''CR'', ''Costa Rica''),
     (''CU'', ''Cuba''), (''CV'', ''Cabo Verde''), (''CW'', ''Curacao''),
     (''CX'', ''Christmas Island''), (''CY'', ''Cyprus''), (''CZ'', ''Czechia''),
     (''DE'', ''Germany''), (''DJ'', ''Djibouti''), (''DK'', ''Denmark''),
     (''DM'', ''Dominica''), (''DO'', ''Dominican Republic''), (''DZ'', ''Algeria''),
     (''EC'', ''Ecuador''), (''EE'', ''Estonia''), (''EG'', ''Egypt''),
     (''EH'', ''Western Sahara''), (''ER'', ''Eritrea''), (''ES'', ''Spain''),
     (''ET'', ''Ethiopia''), (''FI'', ''Finland''), (''FJ'', ''Fiji''),
     (''FK'', ''Falkland Islands''), (''FM'', ''Micronesia''), (''FO'', ''Faroe Islands''),
     (''FR'', ''France''), (''GA'', ''Gabon''), (''GB'', ''United Kingdom''),
     (''GD'', ''Grenada''), (''GE'', ''Georgia''), (''GF'', ''French Guiana''),
     (''GG'', ''Guernsey''), (''GH'', ''Ghana''), (''GI'', ''Gibraltar''),
     (''GL'', ''Greenland''), (''GM'', ''Gambia''), (''GN'', ''Guinea''),
     (''GP'', ''Guadeloupe''), (''GQ'', ''Equatorial Guinea''), (''GR'', ''Greece''),
     (''GS'', ''South Georgia and the South Sandwich Islands''), (''GT'', ''Guatemala''),
     (''GU'', ''Guam''), (''GW'', ''Guinea-Bissau''), (''GY'', ''Guyana''),
     (''HK'', ''Hong Kong''), (''HM'', ''Heard Island and McDonald Islands''),
     (''HN'', ''Honduras''), (''HR'', ''Croatia''), (''HT'', ''Haiti''),
     (''HU'', ''Hungary''), (''ID'', ''Indonesia''), (''IE'', ''Ireland''),
     (''IL'', ''Israel''), (''IM'', ''Isle of Man''), (''IN'', ''India''),
     (''IO'', ''British Indian Ocean Territory''), (''IQ'', ''Iraq''), (''IR'', ''Iran''),
     (''IS'', ''Iceland''), (''IT'', ''Italy'')]"

definition ISO2_J_Z :: "(string \<times> string) list" where
  "ISO2_J_Z =
    [(''JE'', ''Jersey''), (''JM'', ''Jamaica''), (''JO'', ''Jordan''), (''JP'', ''Japan''),
     (''KE'', ''Kenya''), (''KG'', ''Kyrgyzstan''), (''KH'', ''Cambodia''),
     (''KI'', ''Kiribati''), (''KM'', ''Comoros''), (''KN'', ''Saint Kitts and Nevis''),
     (''KP'', ''North Korea''), (''KR'', ''South Korea''), (''KW'', ''Kuwait''),
     (''KY'', ''Cayman Islands''), (''KZ'', ''Kazakhstan''), (''LA'', ''Laos''),
     (''LB'', ''Lebanon''), (''LC'', ''Saint Lucia''), (''LI'', ''Liechtenstein''),
     (''LK'', ''Sri Lanka''), (''LR'', ''Liberia''), (''LS'', ''Lesotho''),
     (''LT'', ''Lithuania''), (''LU'', ''Luxembourg''), (''LV'', ''Latvia''),
     (''LY'', ''Libya''), (''MA'', ''Morocco''), (''MC'', ''Monaco''),
     (''MD'', ''Moldova''), (''ME'', ''Montenegro''), (''MF'', ''Saint Martin''),
     (''MG'', ''Madagascar''), (''MH'', ''Marshall Islands''),
     (''MK'', ''North Macedonia''), (''ML'', ''Mali''), (''MM'', ''Myanmar''),
     (''MN'', ''Mongolia''), (''MO'', ''Macao''), (''MP'', ''Northern Mariana Islands''),
     (''MQ'', ''Martinique''), (''MR'', ''Mauritania''), (''MS'', ''Montserrat''),
     (''MT'', ''Malta''), (''MU'', ''Mauritius''), (''MV'', ''Maldives''),
     (''MW'', ''Malawi''), (''MX'', ''Mexico''), (''MY'', ''Malaysia''),
     (''MZ'', ''Mozambique''), (''NA'', ''Namibia''), (''NC'', ''New Caledonia''),
     (''NE'', ''Niger''), (''NF'', ''Norfolk Island''), (''NG'', ''Nigeria''),
     (''NI'', ''Nicaragua''), (''NL'', ''Netherlands''), (''NO'', ''Norway''),
     (''NP'', ''Nepal''), (''NR'', ''Nauru''), (''NU'', ''Niue''),
     (''NZ'', ''New Zealand''), (''OM'', ''Oman''), (''PA'', ''Panama''),
     (''PE'', ''Peru''), (''PF'', ''French Polynesia''), (''PG'', ''Papua New Guinea''),
     (''PH'', ''Philippines''), (''PK'', ''Pakistan''), (''PL'', ''Poland''),
     (''PM'', ''Saint Pierre and Miquelon''), (''PN'', ''Pitcairn''),
     (''PR'', ''Puerto Rico''), (''PS'', ''Palestine''), (''PT'', ''Portugal''),
     (''PW'', ''Palau''), (''PY'', ''Paraguay''), (''QA'', ''Qatar''),
     (''RE'', ''Reunion''), (''RO'', ''Romania''), (''RS'', ''Serbia''),
     (''RU'', ''Russia''), (''RW'', ''Rwanda''), (''SA'', ''Saudi Arabia''),
     (''SB'', ''Solomon Islands''), (''SC'', ''Seychelles''), (''SD'', ''Sudan''),
     (''SE'', ''Sweden''), (''SG'', ''Singapore''), (''SH'', ''Saint Helena''),
     (''SI'', ''Slovenia''), (''SJ'', ''Svalbard and Jan Mayen''), (''SK'', ''Slovakia''),
     (''SL'', ''Sierra Leone''), (''SM'', ''San Marino''), (''SN'', ''Senegal''),
     (''SO'', ''Somalia''), (''SR'', ''Suriname''), (''SS'', ''South Sudan''),
     (''ST'', ''Sao Tome and Principe''), (''SV'', ''El Salvador''),
     (''SX'', ''Sint Maarten''), (''SY'', ''Syria''), (''SZ'', ''Eswatini''),
     (''TC'', ''Turks and Caicos Islands''), (''TD'', ''Chad''),
     (''TF'', ''French Southern Territories''), (''TG'', ''Togo''), (''TH'', ''Thailand''),
     (''TJ'', ''Tajikistan''), (''TK'', ''Tokelau''), (''TL'', ''Timor-Leste''),
     (''TM'', ''Turkmenistan''), (''TN'', ''Tunisia''), (''TO'', ''Tonga''),
     (''TR'', ''Turkey''), (''TT'', ''Trinidad and Tobago''), (''TV'', ''Tuvalu''),
     (''TW'', ''Taiwan''), (''TZ'', ''Tanzania''), (''UA'', ''Ukraine''),
     (''UG'', ''Uganda''), (''UM'', ''United States Minor Outlying Islands''),
     (''US'', ''United States''), (''UY'', ''Uruguay''), (''UZ'', ''Uzbekistan''),
     (''VA'', ''Holy See''), (''VC'', ''Saint Vincent and the Grenadines''),
     (''VE'', ''Venezuela''), (''VG'', ''British Virgin Islands''),
     (''VI'', ''US Virgin Islands''), (''VN'', ''Vietnam''), (''VU'', ''Vanuatu''),
     (''WF'', ''Wallis and Futuna''), (''WS'', ''Samoa''), (''XK'', ''Kosovo''),
     (''YE'', ''Yemen''), (''YT'', ''Mayotte''), (''ZA'', ''South Africa''),
     (''ZM'', ''Zambia''), (''ZW'', ''Zimbabwe''), (''AN'', ''Netherlands Antilles''),
     (''YU'', ''Yugoslavia''), (''SU'', ''Soviet Union''),
     (''CS'', ''Serbia and Montenegro'')]"

definition ISO2 :: "(string \<times> string) list" where
  "ISO2 = ISO2_A_I @ ISO2_J_Z"

definition ALIASES :: "(string \<times> string) list" where
  "ALIASES =
    [(''russian federation'', ''RU''), (''iran islamic republic of'', ''IR''),
     (''islamic republic of iran'', ''IR''), (''syrian arab republic'', ''SY''),
     (''korea north'', ''KP''), (''dprk'', ''KP''),
     (''democratic people s republic of korea'', ''KP''),
     (''korea democratic people s republic of'', ''KP''), (''korea south'', ''KR''),
     (''republic of korea'', ''KR''), (''korea republic of'', ''KR''), (''burma'', ''MM''),
     (''palestinian'', ''PS''), (''possibly palestinian'', ''PS''),
     (''palestinian territories'', ''PS''), (''occupied palestinian territory'', ''PS''),
     (''congo democratic republic of the'', ''CD''),
     (''congo democratic republic'', ''CD''), (''democratic republic of congo'', ''CD''),
     (''drc'', ''CD''), (''congo republic of the'', ''CG''),
     (''republic of the congo'', ''CG''), (''bosnia and herzegowina'', ''BA''),
     (''bosnia herzegovina'', ''BA''),
     (''united kingdom of great britain and northern ireland'', ''GB''),
     (''great britain'', ''GB''), (''uk'', ''GB''), (''england'', ''GB''),
     (''united states of america'', ''US''), (''usa'', ''US''),
     (''north macedonia the republic of'', ''MK''), (''macedonia'', ''MK''),
     (''the former yugoslav republic of macedonia'', ''MK''), (''gambia the'', ''GM''),
     (''the gambia'', ''GM''), (''guinea bissau'', ''GW''),
     (''tanzania united republic of'', ''TZ''), (''united republic of tanzania'', ''TZ''),
     (''moldova republic of'', ''MD''), (''republic of moldova'', ''MD''),
     (''viet nam'', ''VN''), (''lao people s democratic republic'', ''LA''),
     (''cote d ivoire'', ''CI''), (''ivory coast'', ''CI''), (''turkiye'', ''TR''),
     (''czech republic'', ''CZ''), (''swaziland'', ''SZ''), (''cape verde'', ''CV''),
     (''brunei'', ''BN''), (''vatican'', ''VA''), (''macau'', ''MO''),
     (''venezuela bolivarian republic of'', ''VE''),
     (''bolivia plurinational state of'', ''BO''),
     (''micronesia federated states of'', ''FM''), (''timor leste'', ''TL''),
     (''east timor'', ''TL''), (''ussr'', ''SU''), (''soviet union'', ''SU''),
     (''former soviet union'', ''SU''), (''federal republic of yugoslavia'', ''YU''),
     (''serbia and montenegro'', ''CS''),
     (''congo democratic republic of was zaire'', ''CD''),
     (''congo people s republic of'', ''CG''), (''palestinian territory occupied'', ''PS''),
     (''virgin islands british'', ''VG''), (''state of palestine'', ''PS''),
     (''region gaza'', ''PS''), (''russian'', ''RU''), (''republic of ireland'', ''IE''),
     (''britain'', ''GB''), (''british'', ''GB''), (''german'', ''DE''),
     (''moldovan'', ''MD'')]"

text \<open>\<open>re.sub(r"[^a-z]+", " ", s)\<close>: each maximal run of other characters becomes one blank.\<close>

fun non_alpha_sub :: "string \<Rightarrow> string" where
  "non_alpha_sub [] = []"
| "non_alpha_sub (c # cs) =
     (if is_lower c then c # non_alpha_sub cs
      else if cs \<noteq> [] \<and> \<not> is_lower (hd cs) then non_alpha_sub cs
      else CHR '' '' # non_alpha_sub cs)"

definition BY_NAME :: "(string \<times> string) list" where
  \<comment> \<open>a later entry replaces an earlier one with the same key: read from the end\<close>
  "BY_NAME = rev (map (\<lambda>(k, v). (str_strip (non_alpha_sub (str_lower v)), k)) ISO2)"

definition country_key :: "textlib \<Rightarrow> string \<Rightarrow> string" where
  "country_key L value = str_strip (non_alpha_sub (str_lower (anyascii L value)))"

definition rstrip_dots :: "string \<Rightarrow> string" where
  "rstrip_dots s = rev (dropWhile (\<lambda>c. c = CHR ''.'') (rev s))"

definition to_iso2 :: "textlib \<Rightarrow> string option \<Rightarrow> string option" where
  "to_iso2 L value = (case value of
       None \<Rightarrow> None
     | Some v \<Rightarrow>
         if v = [] then None
         else let raw = rstrip_dots (str_strip v)
              in if length raw = 2 \<and> map_of ISO2 (str_upper raw) \<noteq> None then Some (str_upper raw)
                 else let key = country_key L raw
                      in opt_or (map_of BY_NAME key) (map_of ALIASES key))"

section \<open>Every result is a code of the table, and codes are fixed points\<close>

lemma ISO2_codes: "list_all (\<lambda>(k, v). length k = 2 \<and> list_all is_upper k) ISO2"
  by code_simp

text \<open>The codes the aliases name, in the order of \<open>ISO2\<close>: one pass over each table.\<close>

lemma alias_targets_sorted: "subseq [''BA'', ''BN'', ''BO'', ''CD'', ''CG'', ''CI'', ''CV'',
      ''CZ'', ''DE'', ''FM'', ''GB'', ''GM'', ''GW'', ''IE'', ''IR'', ''KP'', ''KR'', ''LA'',
      ''MD'', ''MK'', ''MM'', ''MO'', ''PS'', ''RU'', ''SY'', ''SZ'', ''TL'', ''TR'', ''TZ'',
      ''US'', ''VA'', ''VE'', ''VG'', ''VN'', ''YU'', ''SU'', ''CS''] (map fst ISO2)"
  by code_simp

lemma alias_targets: "list_all (\<lambda>v. List.member [''BA'', ''BN'', ''BO'', ''CD'',
      ''CG'', ''CI'', ''CV'', ''CZ'', ''DE'', ''FM'', ''GB'', ''GM'', ''GW'', ''IE'', ''IR'',
      ''KP'', ''KR'', ''LA'', ''MD'', ''MK'', ''MM'', ''MO'', ''PS'', ''RU'', ''SY'', ''SZ'',
      ''TL'', ''TR'', ''TZ'', ''US'', ''VA'', ''VE'', ''VG'', ''VN'', ''YU'', ''SU'', ''CS''] v)
      (map snd ALIASES)"
  by code_simp

lemma subseq_member:
  assumes "subseq xs ys" and "list_all (\<lambda>v. List.member xs v) zs" and "z \<in> set zs"
  shows "z \<in> set ys"
  using list_emb_set [OF assms(1), of z] assms(2,3) by (auto simp: list_all_iff)

lemma ALIASES_codes: "(k, v) \<in> set ALIASES \<Longrightarrow> v \<in> set (map fst ISO2)"
  by (rule subseq_member [OF alias_targets_sorted alias_targets]) force

lemma in_codes_iff: "map_of ISO2 c \<noteq> None \<longleftrightarrow> c \<in> set (map fst ISO2)"
  by (simp add: map_of_eq_None_iff)

lemma upper_str [simp]: "list_all is_upper s \<Longrightarrow> str_upper s = s"
  by (induction s) (auto simp: str_upper_def upper_char_def is_upper_def is_lower_def Let_def)

lemma dropWhile_rejected: "list_all P s \<Longrightarrow> (\<And>c. P c \<Longrightarrow> \<not> Q c) \<Longrightarrow> dropWhile Q s = s"
  by (cases s) auto

lemma strip_upper: "list_all is_upper s \<Longrightarrow> str_strip s = s"
proof -
  assume up: "list_all is_upper s"
  have "is_upper c \<Longrightarrow> \<not> is_space c" for c by (auto simp: is_upper_def is_space_def Let_def)
  then show ?thesis
    using up dropWhile_rejected [of is_upper s is_space] dropWhile_rejected [of is_upper "rev s" is_space]
    by (simp add: str_strip_def)
qed

lemma rstrip_dots_upper: "list_all is_upper s \<Longrightarrow> rstrip_dots s = s"
proof -
  assume up: "list_all is_upper s"
  have "is_upper c \<Longrightarrow> c \<noteq> CHR ''.''" for c by (auto simp: is_upper_def Let_def)
  then show ?thesis using up dropWhile_rejected [of is_upper "rev s" "\<lambda>c. c = CHR ''.''"]
    by (simp add: rstrip_dots_def)
qed

lemma to_iso2_code: "map_of ISO2 c \<noteq> None \<Longrightarrow> to_iso2 L (Some c) = Some c"
proof -
  assume c: "map_of ISO2 c \<noteq> None"
  then obtain v where "(c, v) \<in> set ISO2" by (auto dest: map_of_SomeD)
  then have up: "length c = 2" "list_all is_upper c" using ISO2_codes by (auto simp: list_all_iff)
  then have "c \<noteq> []" by auto
  with up c show ?thesis by (simp add: to_iso2_def strip_upper rstrip_dots_upper)
qed

lemma BY_NAME_codes: "map_of BY_NAME k = Some c \<Longrightarrow> map_of ISO2 c \<noteq> None"
  unfolding in_codes_iff by (force simp: BY_NAME_def dest!: map_of_SomeD)

lemma to_iso2_result: "to_iso2 L v = Some c \<Longrightarrow> map_of ISO2 c \<noteq> None"
proof -
  assume "to_iso2 L v = Some c"
  then consider "map_of ISO2 c \<noteq> None" | k where "map_of BY_NAME k = Some c"
    | k where "map_of ALIASES k = Some c"
    by (auto simp: to_iso2_def Let_def opt_or_def split: option.splits if_splits)
  then show ?thesis
  proof cases
    case 3
    then have "(k, c) \<in> set ALIASES" by (rule map_of_SomeD)
    then show ?thesis unfolding in_codes_iff by (rule ALIASES_codes)
  qed (auto dest: BY_NAME_codes)
qed

section \<open>Normalised countries\<close>

text \<open>A country normalised once stays what it is: every result is a code of the ISO table,
  two capital letters long, and normalising it again returns it.\<close>

theorem country_codes_stable:
  assumes "to_iso2 L v = Some c"
  shows "map_of ISO2 c \<noteq> None \<and> length c = 2 \<and> list_all is_upper c \<and> to_iso2 L (Some c) = Some c"
proof -
  have c: "map_of ISO2 c \<noteq> None" using assms by (rule to_iso2_result)
  then obtain n where "(c, n) \<in> set ISO2" by (auto dest: map_of_SomeD)
  then show ?thesis using c ISO2_codes to_iso2_code [OF c] by (auto simp: list_all_iff)
qed

lemma sample_country: "to_iso2 plain_lib (Some '' ae. '') = Some ''AE''"
proof -
  have "rstrip_dots (str_strip '' ae. '') = ''ae''" by code_simp
  moreover have "str_upper ''ae'' = ''AE''" by code_simp
  moreover have "map_of ISO2 ''AE'' = Some ''United Arab Emirates''"
    by (simp add: ISO2_def ISO2_A_I_def)
  ultimately show ?thesis by (simp add: to_iso2_def)
qed

lemma country_codes_stable_witness: "to_iso2 plain_lib (Some ''AE'') = Some ''AE''"
  using country_codes_stable [OF sample_country] by simp

end
