(* ===== verification/Binary64.thy ===== *)
theory Binary64
  imports Complex_Main "HOL-Library.Log_Nat"
begin

text \<open>
  Python's \<open>float\<close> as the code uses it: IEEE 754 binary64 with round to nearest, ties to even.
  A finite float is the rational number it denotes and \<open>fl\<close> rounds a rational to 53 significant
  bits. The exponent is unbounded: every value of the modelled code lies between 2 to the -60
  and 2 to the 60, far from overflow and from the subnormals. \<open>dec m k\<close> is the float of the
  literal \<open>m / 10^k\<close>, \<open>py_round\<close> is \<open>round(x, n)\<close> (correctly rounded, as CPython's is) and
  \<open>py_sum\<close> is the compensated \<open>sum\<close> of a list of floats of CPython 3.12, the version the project
  deploys. The main fact, \<open>py_round_sum_dec\<close>, is that rounding to six places recovers the exact
  decimal sum of decimals with six places, and \<open>dec_le_iff\<close> that comparing such floats compares
  the decimals.
\<close>

definition ilog2 :: "rat \<Rightarrow> int" where
  "ilog2 x = (case quotient_of x of (n, d) \<Rightarrow>
     let k = bitlen n - bitlen d in if 2 powi k \<le> x then k else k - 1)"

definition round_half_even :: "rat \<Rightarrow> int" where
  "round_half_even x = (let f = \<lfloor>x\<rfloor>; r = x - of_int f in
     if r < 1/2 then f else if 1/2 < r then f + 1 else if even f then f else f + 1)"

definition fl :: "rat \<Rightarrow> rat" where
  "fl x = (if x = 0 then 0
     else let e = ilog2 \<bar>x\<bar> - 52 in of_int (round_half_even (x / 2 powi e)) * 2 powi e)"

lemma int_bounds_powi:
  assumes "0 < n"
  shows "(2::rat) powi (bitlen n - 1) \<le> of_int n" and "of_int n < (2::rat) powi bitlen n"
proof -
  have b: "2 ^ nat (bitlen n - 1) \<le> n" "n < 2 ^ nat (bitlen n)"
    using bitlen_bounds [OF assms] by auto
  have pos: "1 \<le> bitlen n"
    using assms bitlen_nonneg [of n] bitlen_eq_zero_iff [of n] by linarith
  have "(2::rat) powi (bitlen n - 1) = of_int (2 ^ nat (bitlen n - 1))"
    using pos by (simp add: power_int_def)
  also have "\<dots> \<le> of_int n" using b(1) by (simp only: of_int_le_iff)
  finally show "(2::rat) powi (bitlen n - 1) \<le> of_int n" .
  have "of_int n < (of_int (2 ^ nat (bitlen n)) :: rat)" using b(2) by (simp only: of_int_less_iff)
  also have "\<dots> = 2 powi bitlen n" using pos by (simp add: power_int_def)
  finally show "of_int n < (2::rat) powi bitlen n" .
qed

lemma powi2_pos [simp]: "0 < (2::rat) powi k"
  by (simp add: zero_less_power_int)

lemma powi2_mono: "i \<le> j \<Longrightarrow> (2::rat) powi i \<le> 2 powi j"
  by (simp add: power_int_increasing)

lemma powi2_less_D: "(2::rat) powi i < 2 powi j \<Longrightarrow> i < j"
  using powi2_mono [of j i] by (meson not_le)

lemma ilog2_bounds:
  assumes "0 < x"
  shows "2 powi ilog2 x \<le> x" and "x < 2 powi (ilog2 x + 1)"
proof -
  obtain n d where nd: "quotient_of x = (n, d)" by (cases "quotient_of x")
  have d: "0 < d" using quotient_of_denom_pos [OF nd] .
  have x: "x = of_int n / of_int d" using quotient_of_div [OF nd] .
  have n: "0 < n" using assms d unfolding x by (simp add: zero_less_divide_iff)
  let ?k = "bitlen n - bitlen d"
  have up: "x < 2 powi (?k + 1)"
  proof -
    have "x * of_int d = of_int n" using d by (simp add: x)
    also have "of_int n < (2::rat) powi bitlen n" using int_bounds_powi(2) [OF n] .
    also have "(2::rat) powi bitlen n = 2 powi (?k + 1) * 2 powi (bitlen d - 1)"
      by (simp flip: power_int_add)
    also have "\<dots> \<le> 2 powi (?k + 1) * of_int d"
      using int_bounds_powi(1) [OF d] by (intro mult_left_mono) auto
    finally show ?thesis using d by (simp add: mult_less_cancel_right)
  qed
  have lo: "2 powi (?k - 1) \<le> x"
  proof -
    have "2 powi (?k - 1) * of_int d \<le> (2::rat) powi (?k - 1) * 2 powi bitlen d"
      using int_bounds_powi(2) [OF d] by (intro mult_left_mono) auto
    also have "\<dots> = 2 powi (bitlen n - 1)" by (simp flip: power_int_add)
    also have "\<dots> \<le> of_int n" using int_bounds_powi(1) [OF n] .
    also have "of_int n = x * of_int d" using d by (simp add: x)
    finally show ?thesis using d by (simp add: mult_le_cancel_right)
  qed
  show "2 powi ilog2 x \<le> x" using lo by (auto simp: ilog2_def nd Let_def)
  show "x < 2 powi (ilog2 x + 1)" using up by (auto simp: ilog2_def nd Let_def)
qed

lemma ilog2_unique:
  assumes "2 powi k \<le> x" and "x < 2 powi (k + 1)"
  shows "ilog2 x = k"
proof -
  have x: "0 < x" using assms(1) powi2_pos [of k] by linarith
  have "k < ilog2 x + 1"
    using assms(1) ilog2_bounds(2) [OF x] by (intro powi2_less_D) linarith
  moreover have "ilog2 x < k + 1"
    using assms(2) ilog2_bounds(1) [OF x] by (intro powi2_less_D) linarith
  ultimately show ?thesis by linarith
qed

lemma ilog2_mono: "0 < x \<Longrightarrow> x \<le> y \<Longrightarrow> ilog2 x \<le> ilog2 y"
  using powi2_less_D [of "ilog2 x" "ilog2 y + 1"] ilog2_bounds(1) [of x] ilog2_bounds(2) [of y]
  by linarith

lemma round_half_even_int [simp]: "round_half_even (of_int n) = n"
  by (simp add: round_half_even_def Let_def)

lemma round_half_even_mono:
  assumes "x \<le> y"
  shows "round_half_even x \<le> round_half_even y"
proof -
  have *: "\<lfloor>z\<rfloor> \<le> round_half_even z \<and> round_half_even z \<le> \<lfloor>z\<rfloor> + 1" for z
    by (simp add: round_half_even_def Let_def)
  have "\<lfloor>x\<rfloor> \<le> \<lfloor>y\<rfloor>" using assms by (rule floor_mono)
  then consider "\<lfloor>x\<rfloor> + 1 \<le> \<lfloor>y\<rfloor>" | "\<lfloor>x\<rfloor> = \<lfloor>y\<rfloor>" by linarith
  then show ?thesis
  proof cases
    case 1 then show ?thesis using * [of x] * [of y] by linarith
  next
    case 2
    then show ?thesis using assms unfolding round_half_even_def Let_def 2 by auto
  qed
qed

lemma round_half_even_err: "\<bar>of_int (round_half_even x) - x\<bar> \<le> 1/2"
proof -
  have "of_int \<lfloor>x\<rfloor> \<le> x" "x < of_int \<lfloor>x\<rfloor> + 1" by linarith+
  then show ?thesis unfolding round_half_even_def Let_def by (auto split: if_splits)
qed

lemma round_half_even_minus: "round_half_even (- x) = - round_half_even x"
proof (cases "x = of_int \<lfloor>x\<rfloor>")
  case True
  then show ?thesis using round_half_even_int [of "- \<lfloor>x\<rfloor>"] round_half_even_int [of "\<lfloor>x\<rfloor>"] by simp
next
  case False
  have "of_int \<lfloor>x\<rfloor> \<le> x" "x < of_int \<lfloor>x\<rfloor> + 1" by linarith+
  with False have "of_int \<lfloor>x\<rfloor> < x" by linarith
  with \<open>x < of_int \<lfloor>x\<rfloor> + 1\<close> have "\<lfloor>- x\<rfloor> = - \<lfloor>x\<rfloor> - 1" by (intro floor_unique) auto
  then show ?thesis unfolding round_half_even_def Let_def by auto
qed

lemma fl_zero [simp]: "fl 0 = 0" by (simp add: fl_def)

lemma fl_minus: "fl (- x) = - fl x"
  by (simp add: fl_def Let_def round_half_even_minus flip: minus_divide_left)

lemma scaled_bounds:
  assumes "0 < x"
  shows "of_int (2 ^ 52) \<le> x / 2 powi (ilog2 x - 52)" and "x / 2 powi (ilog2 x - 52) < of_int (2 ^ 53)"
proof -
  have "2 powi (ilog2 x) = (2::rat) powi (ilog2 x - 52) * of_int (2 ^ 52)"
    using power_int_add [of "2::rat" "ilog2 x - 52" 52] by simp
  then show "of_int (2 ^ 52) \<le> x / 2 powi (ilog2 x - 52)"
    using ilog2_bounds(1) [OF assms] powi2_pos [of "ilog2 x - 52"] by (simp add: field_simps)
  have "2 powi (ilog2 x + 1) = (2::rat) powi (ilog2 x - 52) * of_int (2 ^ 53)"
    using power_int_add [of "2::rat" "ilog2 x - 52" 53] by (simp add: add.commute)
  then show "x / 2 powi (ilog2 x - 52) < of_int (2 ^ 53)"
    using ilog2_bounds(2) [OF assms] powi2_pos [of "ilog2 x - 52"] by (simp add: field_simps)
qed

lemma fl_pos_bounds:
  assumes "0 < x"
  shows "2 powi ilog2 x \<le> fl x" and "fl x \<le> 2 powi (ilog2 x + 1)"
proof -
  let ?e = "ilog2 x - 52"
  let ?m = "round_half_even (x / 2 powi ?e)"
  have fl: "fl x = of_int ?m * 2 powi ?e" using assms by (simp add: fl_def Let_def)
  have "2 ^ 52 \<le> ?m"
    using round_half_even_mono [OF scaled_bounds(1) [OF assms]] by (simp only: round_half_even_int)
  then have "(of_int (2 ^ 52) :: rat) \<le> of_int ?m" by (simp only: of_int_le_iff)
  then have "of_int (2 ^ 52) * 2 powi ?e \<le> (of_int ?m :: rat) * 2 powi ?e"
    by (intro mult_right_mono) auto
  moreover have "2 powi (ilog2 x) = of_int (2 ^ 52) * (2::rat) powi ?e"
    using power_int_add [of "2::rat" ?e 52] by simp
  ultimately show "2 powi ilog2 x \<le> fl x" using fl by linarith
  have "?m \<le> 2 ^ 53"
    using round_half_even_mono [OF less_imp_le [OF scaled_bounds(2) [OF assms]]]
    by (simp only: round_half_even_int)
  then have "of_int ?m \<le> (of_int (2 ^ 53) :: rat)" by (simp only: of_int_le_iff)
  then have "(of_int ?m :: rat) * 2 powi ?e \<le> of_int (2 ^ 53) * 2 powi ?e"
    by (intro mult_right_mono) auto
  moreover have "2 powi (ilog2 x + 1) = of_int (2 ^ 53) * (2::rat) powi ?e"
    using power_int_add [of "2::rat" ?e 53] by (simp add: add.commute)
  ultimately show "fl x \<le> 2 powi (ilog2 x + 1)" using fl by linarith
qed

lemma fl_mono_pos:
  assumes "0 < x" and "x \<le> y"
  shows "fl x \<le> fl y"
proof (cases "ilog2 x = ilog2 y")
  case True
  have "x / 2 powi (ilog2 y - 52) \<le> y / 2 powi (ilog2 y - 52)"
    using assms(2) by (intro divide_right_mono) auto
  then show ?thesis
    using assms True round_half_even_mono
    by (auto simp: fl_def Let_def mult_right_mono)
next
  case False
  with ilog2_mono [OF assms] have "ilog2 x + 1 \<le> ilog2 y" by simp
  then have "(2::rat) powi (ilog2 x + 1) \<le> 2 powi ilog2 y" by (rule powi2_mono)
  then show ?thesis
    using fl_pos_bounds [of x] fl_pos_bounds [of y] assms by linarith
qed

lemma fl_nonneg: "0 \<le> x \<Longrightarrow> 0 \<le> fl x"
  using fl_pos_bounds(1) [of x] order_trans [OF less_imp_le [OF powi2_pos]]
  by (cases "x = 0") auto

lemma fl_mono: "x \<le> y \<Longrightarrow> fl x \<le> fl y"
proof -
  assume le: "x \<le> y"
  consider "0 < x" | "x \<le> 0" "0 \<le> y" | "y < 0" using le by linarith
  then show ?thesis
  proof cases
    case 1 then show ?thesis using le fl_mono_pos by blast
  next
    case 2
    then show ?thesis using fl_nonneg [of y] fl_nonneg [of "- x"] by (simp add: fl_minus)
  next
    case 3
    then show ?thesis using le fl_mono_pos [of "- y" "- x"] by (simp add: fl_minus)
  qed
qed

lemma fl_err: "\<bar>fl x - x\<bar> \<le> \<bar>x\<bar> / 2 ^ 53"
proof (cases "x = 0")
  case False
  let ?p = "2 powi (ilog2 \<bar>x\<bar> - 52) :: rat"
  let ?m = "of_int (round_half_even (x / ?p)) :: rat"
  have fl: "fl x = ?m * ?p" using False by (simp add: fl_def Let_def)
  have "\<bar>?m - x / ?p\<bar> * ?p \<le> 1/2 * ?p"
    using round_half_even_err by (intro mult_right_mono) auto
  moreover have "\<bar>?m - x / ?p\<bar> * ?p = \<bar>fl x - x\<bar>"
  proof -
    have "fl x - x = (?m - x / ?p) * ?p" by (simp add: fl left_diff_distrib)
    then show ?thesis by (simp add: abs_mult)
  qed
  moreover have "of_int (2 ^ 52) * ?p \<le> \<bar>x\<bar>"
    using scaled_bounds(1) [of "\<bar>x\<bar>"] False powi2_pos [of "ilog2 \<bar>x\<bar> - 52"] by (simp add: field_simps)
  ultimately show ?thesis by (simp add: field_simps)
qed simp

lemma fl_dyadic:
  assumes "\<bar>m\<bar> < 2 ^ 53"
  shows "fl (of_int m * 2 powi e) = of_int m * 2 powi e"
proof (cases "m = 0")
  case False
  let ?x = "of_int m * 2 powi e :: rat"
  let ?k = "ilog2 \<bar>?x\<bar>"
  have ax: "\<bar>?x\<bar> = of_int \<bar>m\<bar> * 2 powi e" by (simp add: abs_mult)
  have x: "0 < \<bar>?x\<bar>" using False by simp
  have "(of_int \<bar>m\<bar> :: rat) < of_int (2 ^ 53)" using assms by (simp only: of_int_less_iff)
  then have "\<bar>?x\<bar> < of_int (2 ^ 53) * 2 powi e" unfolding ax by (intro mult_strict_right_mono) auto
  also have "\<dots> = 2 powi (e + 53)" using power_int_add [of "2::rat" e 53] by simp
  finally have "?k < e + 53" using ilog2_bounds(1) [OF x] by (intro powi2_less_D) linarith
  then have "0 \<le> e - (?k - 52)" by simp
  then obtain j where j: "e - (?k - 52) = int j" using nonneg_int_cases by blast
  have "2 powi e = (2::rat) powi (?k - 52) * 2 powi (e - (?k - 52))"
    by (simp flip: power_int_add)
  then have "?x / 2 powi (?k - 52) = of_int (m * 2 ^ j)"
    unfolding j by (simp add: field_simps)
  then have "round_half_even (?x / 2 powi (?k - 52)) = m * 2 ^ j" by (simp only: round_half_even_int)
  moreover have "of_int (m * 2 ^ j) * 2 powi (?k - 52) = ?x"
    unfolding \<open>?x / 2 powi (?k - 52) = of_int (m * 2 ^ j)\<close> [symmetric] by simp
  moreover have "?x \<noteq> 0" using False by simp
  ultimately show ?thesis by (simp only: fl_def Let_def if_False)
qed simp

lemma fl_int [simp]: "\<bar>m\<bar> < 2 ^ 53 \<Longrightarrow> fl (of_int m) = of_int m"
  using fl_dyadic [of m 0] by simp

lemma fl_one [simp]: "fl 1 = 1"
  using fl_int [of 1] by simp

lemma fl_numeral [simp]: "numeral w < (2 ^ 53 :: int) \<Longrightarrow> fl (numeral w) = numeral w"
  using fl_int [of "numeral w"] by simp

lemma fl_fl [simp]: "fl (fl x) = fl x"
proof (cases "x = 0")
  case False
  let ?e = "ilog2 \<bar>x\<bar> - 52"
  let ?m = "round_half_even (\<bar>x\<bar> / 2 powi ?e)"
  have x: "0 < \<bar>x\<bar>" using False by simp
  have fa: "fl \<bar>x\<bar> = of_int ?m * 2 powi ?e" using False by (simp add: fl_def Let_def)
  have "?m \<le> 2 ^ 53"
    using round_half_even_mono [OF less_imp_le [OF scaled_bounds(2) [OF x]]]
    by (simp only: round_half_even_int)
  moreover have "0 \<le> ?m"
    using round_half_even_mono [of "of_int 0" "\<bar>x\<bar> / 2 powi ?e"] by (simp only: round_half_even_int) simp
  ultimately consider "\<bar>?m\<bar> < 2 ^ 53" | "?m = 2 ^ 53" by linarith
  then have "fl (fl \<bar>x\<bar>) = fl \<bar>x\<bar>"
  proof cases
    case 1 then show ?thesis unfolding fa by (rule fl_dyadic)
  next
    case 2
    have "of_int (2 ^ 53) * 2 powi ?e = (of_int 1 :: rat) * 2 powi (?e + 53)"
      using power_int_add [of "2::rat" ?e 53] by simp
    then show ?thesis unfolding fa 2 using fl_dyadic [of 1 "?e + 53"] by simp
  qed
  then show ?thesis by (cases "0 \<le> x") (auto simp: fl_minus abs_if)
qed simp


definition fadd :: "rat \<Rightarrow> rat \<Rightarrow> rat" where "fadd x y = fl (x + y)"
definition fsub :: "rat \<Rightarrow> rat \<Rightarrow> rat" where "fsub x y = fl (x - y)"
definition fmul :: "rat \<Rightarrow> rat \<Rightarrow> rat" where "fmul x y = fl (x * y)"
definition fdiv :: "rat \<Rightarrow> rat \<Rightarrow> rat" where "fdiv x y = fl (x / y)"

definition dec :: "int \<Rightarrow> nat \<Rightarrow> rat" where
  "dec m k = fl (of_int m / 10 ^ k)"

definition py_round :: "rat \<Rightarrow> nat \<Rightarrow> rat" where
  "py_round x n = fl (of_int (round_half_even (x * 10 ^ n)) / 10 ^ n)"

fun neumaier :: "rat \<Rightarrow> rat \<Rightarrow> rat list \<Rightarrow> rat" where
  "neumaier f c [] = (if c \<noteq> 0 then fadd f c else f)"
| "neumaier f c (x # xs) = (let t = fadd f x in
     neumaier t
       (fadd c (if \<bar>x\<bar> \<le> \<bar>f\<bar> then fadd (fsub f t) x else fadd (fsub x t) f)) xs)"

fun py_sum :: "rat list \<Rightarrow> rat" where
  "py_sum [] = 0"
| "py_sum (x # xs) = neumaier x 0 xs"

lemma round_half_even_near: "\<bar>x - of_int k\<bar> < 1/2 \<Longrightarrow> round_half_even x = k"
proof -
  assume near: "\<bar>x - of_int k\<bar> < 1/2"
  have "of_int (round_half_even x) < (of_int (k + 1) :: rat)"
    "of_int k < (of_int (round_half_even x + 1) :: rat)"
    using near round_half_even_err [of x] unfolding of_int_add of_int_1 by linarith+
  then show ?thesis unfolding of_int_less_iff by linarith
qed

lemma fl_err_small: "\<bar>y\<bar> \<le> 2 ^ 12 \<Longrightarrow> \<bar>fl y - y\<bar> \<le> 1 / 2 ^ 41"
  using fl_err [of y] by (simp add: field_simps)

lemma neumaier_step:
  fixes f x c :: rat
  assumes x: "\<bar>x\<bar> \<le> 1" and f: "\<bar>f\<bar> \<le> 1000" and c: "\<bar>c\<bar> \<le> 1000"
  defines "t \<equiv> fadd f x"
  defines "k \<equiv> (if \<bar>x\<bar> \<le> \<bar>f\<bar> then fadd (fsub f t) x else fadd (fsub x t) f)"
  shows "\<bar>t\<bar> \<le> \<bar>f\<bar> + 2" and "\<bar>fadd c k\<bar> \<le> \<bar>c\<bar> + 1"
    and "\<bar>t + fadd c k - (f + x + c)\<bar> \<le> 3 / 2 ^ 41"
proof -
  let ?u = "1 / 2 ^ 41 :: rat"
  have u: "?u \<le> 1 / 100" by simp
  have t: "\<bar>t - (f + x)\<bar> \<le> ?u"
    unfolding t_def fadd_def by (rule fl_err_small) (use x f in \<open>simp add: abs_if split: if_splits\<close>)
  show tb: "\<bar>t\<bar> \<le> \<bar>f\<bar> + 2" using t x u by (simp add: abs_if split: if_splits)
  have k: "\<bar>k - (f + x - t)\<bar> \<le> 2 * ?u"
  proof (cases "\<bar>x\<bar> \<le> \<bar>f\<bar>")
    case True
    have a: "\<bar>fsub f t - (f - t)\<bar> \<le> ?u"
      unfolding fsub_def by (rule fl_err_small) (use t u x in \<open>simp add: abs_if split: if_splits\<close>)
    have "\<bar>fadd (fsub f t) x - (fsub f t + x)\<bar> \<le> ?u"
      unfolding fadd_def by (rule fl_err_small) (use a t u x in \<open>simp add: abs_if split: if_splits\<close>)
    with a True show ?thesis by (simp add: k_def abs_if split: if_splits)
  next
    case False
    have a: "\<bar>fsub x t - (x - t)\<bar> \<le> ?u"
      unfolding fsub_def by (rule fl_err_small) (use t u f in \<open>simp add: abs_if split: if_splits\<close>)
    have "\<bar>fadd (fsub x t) f - (fsub x t + f)\<bar> \<le> ?u"
      unfolding fadd_def by (rule fl_err_small) (use a t u in \<open>simp add: abs_if split: if_splits\<close>)
    with a False show ?thesis by (simp add: k_def abs_if split: if_splits)
  qed
  have d: "\<bar>fadd c k - (c + k)\<bar> \<le> ?u"
    unfolding fadd_def by (rule fl_err_small) (use k t u c in \<open>simp add: abs_if split: if_splits\<close>)
  show "\<bar>fadd c k\<bar> \<le> \<bar>c\<bar> + 1" using d k t u by (simp add: abs_if split: if_splits)
  show "\<bar>t + fadd c k - (f + x + c)\<bar> \<le> 3 / 2 ^ 41"
    using d k by (simp add: abs_if split: if_splits)
qed

lemma neumaier_err:
  "\<bar>f\<bar> + 2 * of_nat (length xs) \<le> 1000 \<Longrightarrow> \<bar>c\<bar> + of_nat (length xs) \<le> 1000 \<Longrightarrow>
   (\<forall>x \<in> set xs. \<bar>x\<bar> \<le> 1) \<Longrightarrow>
   \<bar>neumaier f c xs - (f + c + sum_list xs)\<bar> \<le> (3 * of_nat (length xs) + 1) / 2 ^ 41"
proof (induction xs arbitrary: f c)
  case Nil
  then have "\<bar>f + c\<bar> \<le> 2 ^ 12" by simp
  then show ?case using fl_err_small [of "f + c"] by (auto simp: fadd_def)
next
  case (Cons x xs)
  let ?t = "fadd f x"
  let ?c = "fadd c (if \<bar>x\<bar> \<le> \<bar>f\<bar> then fadd (fsub f ?t) x else fadd (fsub x ?t) f)"
  have "\<bar>x\<bar> \<le> 1" "\<bar>f\<bar> \<le> 1000" "\<bar>c\<bar> \<le> 1000" using Cons.prems by auto
  note step = neumaier_step [OF this]
  have "\<bar>neumaier ?t ?c xs - (?t + ?c + sum_list xs)\<bar> \<le> (3 * of_nat (length xs) + 1) / 2 ^ 41"
    by (rule Cons.IH) (use Cons.prems step in auto)
  moreover have "neumaier f c (x # xs) = neumaier ?t ?c xs" by (simp add: Let_def)
  moreover have "(3 * of_nat (length (x # xs)) + 1) / 2 ^ 41
      = (3 * of_nat (length xs) + 1) / 2 ^ 41 + (3 / 2 ^ 41 :: rat)" by (simp add: field_simps)
  ultimately show ?case using step(3) by (simp only: sum_list.Cons) linarith
qed


lemma py_sum_err:
  assumes "length xs \<le> 400" and "\<forall>x \<in> set xs. \<bar>x\<bar> \<le> 1"
  shows "\<bar>py_sum xs - sum_list xs\<bar> \<le> (3 * of_nat (length xs) + 1) / 2 ^ 41"
proof (cases xs)
  case (Cons x ys)
  have "of_nat (length ys) \<le> (400 :: rat)"
    using assms(1) of_nat_le_iff [of "length ys" 400, where 'a = rat] by (simp add: Cons)
  then have "\<bar>neumaier x 0 ys - (x + 0 + sum_list ys)\<bar> \<le> (3 * of_nat (length ys) + 1) / 2 ^ 41"
    using assms by (intro neumaier_err) (auto simp: Cons)
  then show ?thesis by (simp add: Cons field_simps)
qed simp

lemma dec_err: "\<bar>k\<bar> \<le> 10 ^ 6 \<Longrightarrow> \<bar>dec k 6 - of_int k / 10 ^ 6\<bar> \<le> 1 / 2 ^ 53"
proof -
  assume k: "\<bar>k\<bar> \<le> 10 ^ 6"
  then have "\<bar>of_int k :: rat\<bar> \<le> 10 ^ 6" by (simp flip: of_int_abs)
  then show ?thesis using fl_err [of "of_int k / 10 ^ 6"] by (simp add: dec_def field_simps)
qed

lemma dec_abs_le_1: "\<bar>k\<bar> \<le> 10 ^ 6 \<Longrightarrow> \<bar>dec k 6\<bar> \<le> 1"
proof -
  assume k: "\<bar>k\<bar> \<le> 10 ^ 6"
  then have r: "of_int k \<le> (10 ^ 6 :: rat)" "- (10 ^ 6) \<le> (of_int k :: rat)"
    by (simp_all add: abs_le_iff)
  have "fl (of_int k / 10 ^ 6) \<le> fl 1" using r by (intro fl_mono) simp
  moreover have "fl (- 1) \<le> fl (of_int k / 10 ^ 6)" using r by (intro fl_mono) simp
  ultimately show ?thesis by (simp add: dec_def fl_minus abs_le_iff)
qed

lemma sum_dec_err:
  "\<forall>k \<in> set ks. \<bar>k\<bar> \<le> 10 ^ 6 \<Longrightarrow>
   \<bar>sum_list (map (\<lambda>k. dec k 6) ks) - of_int (sum_list ks) / 10 ^ 6\<bar> \<le> of_nat (length ks) / 2 ^ 53"
proof (induction ks)
  case (Cons k ks)
  have "\<bar>dec k 6 - of_int k / 10 ^ 6\<bar> \<le> 1 / 2 ^ 53" using Cons.prems by (intro dec_err) simp
  moreover have "\<bar>sum_list (map (\<lambda>k. dec k 6) ks) - of_int (sum_list ks) / 10 ^ 6\<bar>
      \<le> of_nat (length ks) / 2 ^ 53" using Cons by simp
  moreover have "of_nat (length (k # ks)) / 2 ^ 53 = of_nat (length ks) / 2 ^ 53 + (1 / 2 ^ 53 :: rat)"
    by (simp add: field_simps)
  moreover have "of_int (sum_list (k # ks)) / 10 ^ 6
      = of_int k / 10 ^ 6 + (of_int (sum_list ks) / 10 ^ 6 :: rat)" by (simp add: field_simps)
  ultimately show ?case unfolding list.map sum_list.Cons by linarith
qed simp

lemma py_round_sum_dec:
  assumes len: "length ks \<le> 400" and small: "\<forall>k \<in> set ks. \<bar>k\<bar> \<le> 10 ^ 6"
  shows "py_round (py_sum (map (\<lambda>k. dec k 6) ks)) 6 = dec (sum_list ks) 6"
proof -
  let ?s = "py_sum (map (\<lambda>k. dec k 6) ks)"
  have n: "of_nat (length ks) \<le> (400 :: rat)"
    using len of_nat_le_iff [of "length ks" 400, where 'a = rat] by simp
  have "\<bar>?s - sum_list (map (\<lambda>k. dec k 6) ks)\<bar> \<le> (3 * of_nat (length ks) + 1) / 2 ^ 41"
    using py_sum_err [of "map (\<lambda>k. dec k 6) ks"] len small dec_abs_le_1 by auto
  also have "\<dots> \<le> 1201 / 2 ^ 41" using n by (simp add: divide_right_mono)
  finally have a: "\<bar>?s - sum_list (map (\<lambda>k. dec k 6) ks)\<bar> \<le> 1201 / 2 ^ 41" .
  have b: "\<bar>sum_list (map (\<lambda>k. dec k 6) ks) - of_int (sum_list ks) / 10 ^ 6\<bar> \<le> 400 / 2 ^ 53"
    by (rule order_trans [OF sum_dec_err [OF small]]) (use n in \<open>simp add: divide_right_mono\<close>)
  have "\<bar>?s - of_int (sum_list ks) / 10 ^ 6\<bar> \<le> 1201 / 2 ^ 41 + 400 / 2 ^ 53"
    using a b by linarith
  then have "\<bar>?s - of_int (sum_list ks) / 10 ^ 6\<bar> * 10 ^ 6 \<le> (1201 / 2 ^ 41 + 400 / 2 ^ 53) * 10 ^ 6"
    by (intro mult_right_mono) auto
  also have "\<dots> < 1 / 2" by simp
  also have "\<bar>?s - of_int (sum_list ks) / 10 ^ 6\<bar> * 10 ^ 6 = \<bar>?s * 10 ^ 6 - of_int (sum_list ks)\<bar>"
    by (simp add: abs_if field_simps)
  finally have "round_half_even (?s * 10 ^ 6) = sum_list ks" by (rule round_half_even_near)
  then show ?thesis by (simp add: py_round_def dec_def)
qed

lemma dec_less:
  assumes "i < j" and "\<bar>i\<bar> \<le> 10 ^ 9" and "\<bar>j\<bar> \<le> 10 ^ 9"
  shows "dec i 6 < dec j 6"
proof -
  have e: "\<bar>dec k 6 - of_int k / 10 ^ 6\<bar> \<le> 1000 / 2 ^ 53" if "\<bar>k\<bar> \<le> 10 ^ 9" for k
  proof -
    from that have "\<bar>of_int k :: rat\<bar> \<le> 10 ^ 9" by (simp flip: of_int_abs)
    then show ?thesis using fl_err [of "of_int k / 10 ^ 6"] by (simp add: dec_def field_simps)
  qed
  have "of_int (i + 1) \<le> (of_int j :: rat)" unfolding of_int_le_iff using assms(1) by simp
  then have "of_int i / 10 ^ 6 + 1 / 10 ^ 6 \<le> (of_int j / 10 ^ 6 :: rat)" by (simp add: field_simps)
  moreover have "2 * (1000 / 2 ^ 53) < (1 / 10 ^ 6 :: rat)" by simp
  ultimately show ?thesis using e [OF assms(2)] e [OF assms(3)] by linarith
qed

lemma dec_le_iff: "\<bar>i\<bar> \<le> 10 ^ 9 \<Longrightarrow> \<bar>j\<bar> \<le> 10 ^ 9 \<Longrightarrow> dec i 6 \<le> dec j 6 \<longleftrightarrow> i \<le> j"
  using dec_less [of i j] dec_less [of j i] by (cases i j rule: linorder_cases) auto

locale rounding =
  fixes rnd :: "rat \<Rightarrow> rat"
  assumes mono: "x \<le> y \<Longrightarrow> rnd x \<le> rnd y"
    and idem: "rnd (rnd x) = rnd x"
    and zero: "rnd 0 = 0"
begin

lemma nonneg: "0 \<le> x \<Longrightarrow> 0 \<le> rnd x"
  using mono [of 0 x] by (simp add: zero)

lemma add_ge: "rnd a = a \<Longrightarrow> 0 \<le> d \<Longrightarrow> a \<le> rnd (a + d)"
  using mono [of a "a + d"] by simp

lemma sub_le: "rnd a = a \<Longrightarrow> 0 \<le> d \<Longrightarrow> rnd (a - d) \<le> a"
  using mono [of "a - d" a] by simp

lemma between: "rnd a = a \<Longrightarrow> rnd b = b \<Longrightarrow> a \<le> x \<Longrightarrow> x \<le> b \<Longrightarrow> a \<le> rnd x \<and> rnd x \<le> b"
  using mono [of a x] mono [of x b] by simp

end

interpretation b64: rounding fl
  by unfold_locales (auto intro: fl_mono)

end
