(* ===== verification/Matching.thy ===== *)
theory Matching
  imports Countries Binary64 "HOL-Library.Multiset"
begin

text \<open>
  \<open>app/screening/scoring.py\<close>: named scoring terms, the comparison of a subject with one
  watchlist record, and the versioned rule. The strings of \<open>TERM_CATALOG\<close> are the
  constructors of \<open>term_name\<close>. A rule's \<open>weights\<close> is a partial function: looking up a term it
  does not list is the \<open>KeyError\<close> of the source, the value None of \<open>score_pair\<close>.
\<close>

section \<open>Terms and rules\<close>

datatype term_name =
    name_exact_normalized | name_token_reordered | name_translit_equivalent
  | name_initials_compatible | name_partial_overlap
  | dob_full_match | dob_year_match | dob_within_range | dob_conflict | dob_partial_conflict
  | id_number_match | id_number_conflict
  | nationality_match | nationality_conflict | pob_match | common_name_penalty

definition TERM_CATALOG :: "term_name list" where
  "TERM_CATALOG =
    [name_exact_normalized, name_token_reordered, name_translit_equivalent,
     name_initials_compatible, name_partial_overlap, dob_full_match, dob_year_match,
     dob_within_range, dob_conflict, dob_partial_conflict, id_number_match,
     id_number_conflict, nationality_match, nationality_conflict, pob_match,
     common_name_penalty]"

definition NAME_TERMS :: "term_name list" where
  "NAME_TERMS = take 5 TERM_CATALOG"

definition CORROBORATING :: "term_name set" where
  "CORROBORATING = {dob_full_match, dob_year_match, dob_within_range, id_number_match}"

record thresholds =
  clear_below :: rat
  match_at :: rat

record rule =
  version :: int
  weights :: "term_name \<Rightarrow> rat option"
  rule_thresholds :: thresholds
  common_name_threshold :: int

fun default_weight :: "term_name \<Rightarrow> rat" where
  "default_weight name_exact_normalized = dec 50 2"
| "default_weight name_token_reordered = dec 45 2"
| "default_weight name_translit_equivalent = dec 40 2"
| "default_weight name_initials_compatible = dec 35 2"
| "default_weight name_partial_overlap = dec 20 2"
| "default_weight dob_full_match = dec 30 2"
| "default_weight dob_year_match = dec 15 2"
| "default_weight dob_within_range = dec 10 2"
| "default_weight dob_conflict = dec (-35) 2"
| "default_weight dob_partial_conflict = dec (-15) 2"
| "default_weight id_number_match = dec 60 2"
| "default_weight id_number_conflict = dec (-30) 2"
| "default_weight nationality_match = dec 10 2"
| "default_weight nationality_conflict = dec (-10) 2"
| "default_weight pob_match = dec 5 2"
| "default_weight common_name_penalty = dec (-15) 2"

definition DEFAULT_RULE :: rule where
  "DEFAULT_RULE =
    \<lparr>version = 1, weights = (\<lambda>t. Some (default_weight t)),
     rule_thresholds = \<lparr>clear_below = dec 35 2, match_at = dec 90 2\<rparr>, common_name_threshold = 10\<rparr>"

section \<open>Names\<close>

datatype tok_kind = Full | Initial

definition tok_match :: "textlib \<Rightarrow> string \<Rightarrow> string \<Rightarrow> tok_kind option" where
  "tok_match L a b =
    (if length a = 1 \<or> length b = 1
     then let (lng, shrt) = (if length a = 1 then (b, a) else (a, b))
          in if prefix shrt lng then Some Initial else None
     else if a = b \<or> canonical_given a = canonical_given b then Some Full
     else if token_keys L a \<inter> token_keys L b \<noteq> {} then Some Full else None)"

text \<open>The inner loop over the unused record tokens: the first full match, or else the first
  initial.\<close>

fun best_token :: "textlib \<Rightarrow> string \<Rightarrow> string list \<Rightarrow> (string \<times> tok_kind) option
    \<Rightarrow> (string \<times> tok_kind) option" where
  "best_token L st [] best = best"
| "best_token L st (rt # rts) best =
     (case tok_match L st rt of
        Some Full \<Rightarrow> Some (rt, Full)
      | Some Initial \<Rightarrow> best_token L st rts (if best = None then Some (rt, Initial) else best)
      | None \<Rightarrow> best_token L st rts best)"

fun match_tokens :: "textlib \<Rightarrow> string list \<Rightarrow> string list \<Rightarrow> nat \<Rightarrow> bool
    \<Rightarrow> string list \<times> nat \<times> bool" where
  "match_tokens L [] unused matched initials = (unused, matched, initials)"
| "match_tokens L (st # sts) unused matched initials =
     (case best_token L st unused None of
        Some (rt, kind) \<Rightarrow>
          match_tokens L sts (remove1 rt unused) (Suc matched) (initials \<or> kind = Initial)
      | None \<Rightarrow> match_tokens L sts unused matched initials)"

definition compare_tokens :: "textlib \<Rightarrow> string list \<Rightarrow> string list \<Rightarrow> term_name option" where
  "compare_tokens L subject_tokens record_tokens =
    (if subject_tokens = [] \<or> record_tokens = [] then None
     else if subject_tokens = record_tokens then Some name_exact_normalized
     else if sort subject_tokens = sort record_tokens then Some name_token_reordered
     else case match_tokens L subject_tokens record_tokens 0 False of
       (unused, matched, initials) \<Rightarrow>
         if matched = length subject_tokens \<and> 2 \<le> length subject_tokens \<and> length unused \<le> 1
         then Some (if initials then name_initials_compatible else name_translit_equivalent)
         else if 0 < matched then Some name_partial_overlap else None)"

definition name_rank :: "term_name \<Rightarrow> nat" where
  \<comment> \<open>\<open>NAME_TERMS.index\<close>\<close>
  "name_rank t = length (takeWhile (\<lambda>u. u \<noteq> t) NAME_TERMS)"

definition compare_names ::
    "textlib \<Rightarrow> string \<Rightarrow> string list \<Rightarrow> (term_name \<times> string) option" where
  "compare_names L subject_name record_names =
     fold (keep_best name_rank (\<lambda>variant.
         map_option (\<lambda>t. (t, variant))
           (compare_tokens L (tokens L (Some subject_name)) (tokens L (Some variant)))))
       record_names None"

section \<open>Dates of birth, documents, nationality, place of birth\<close>

text \<open>The three shapes of a listed date of birth; the flag is \<open>"circa"\<close>.\<close>

datatype dob =
    DobDate string bool
  | DobRange int int bool
  | DobYear int "int option" bool

definition all_digits :: "string \<Rightarrow> bool" where
  "all_digits s = list_all is_digit s"

definition digits_int :: "string \<Rightarrow> int" where
  "digits_int s = foldl (\<lambda>n c. 10 * n + digit_value c) 0 s"

definition parse_dob :: "string option \<Rightarrow> (int \<times> int option \<times> int option) option" where
  "parse_dob value = (case value of
       None \<Rightarrow> None
     | Some v \<Rightarrow>
         let s = str_strip v
         in if length s = 4 \<and> all_digits s then Some (digits_int s, None, None)
            else if length s = 7 \<and> all_digits (take 4 s @ drop 5 s) \<and> s ! 4 = CHR ''-''
              then Some (digits_int (take 4 s), Some (digits_int (drop 5 s)), None)
            else if length s = 10 \<and> all_digits (take 4 s @ take 2 (drop 5 s) @ drop 8 s)
                 \<and> s ! 4 = CHR ''-'' \<and> s ! 7 = CHR ''-''
              then Some (digits_int (take 4 s), Some (digits_int (take 2 (drop 5 s))),
                         Some (digits_int (drop 8 s)))
            else None)"

fun dob_match :: "int \<Rightarrow> int option \<Rightarrow> int option \<Rightarrow> dob \<Rightarrow> term_name option" where
  "dob_match y m d (DobDate s circa) =
     (case parse_dob (Some s) of
        None \<Rightarrow> None
      | Some (ry, rm, rd) \<Rightarrow>
          if (ry, rm, rd) = (y, m, d) then Some dob_full_match
          else if d = None \<and> ry = y \<and> (m = None \<or> rm = m) then Some dob_year_match
          else None)"
| "dob_match y m d (DobRange from_year to_year circa) =
     (if from_year \<le> y \<and> y \<le> to_year then Some dob_within_range else None)"
| "dob_match y m d (DobYear year month circa) =
     (if circa then (if \<bar>year - y\<bar> \<le> 2 then Some dob_within_range else None)
      else if year = y \<and> (month = None \<or> m = None \<or> month = m) then Some dob_year_match
      else None)"

definition dob_rank :: "term_name \<Rightarrow> nat" where
  "dob_rank t = length (takeWhile (\<lambda>u. u \<noteq> t) [dob_full_match, dob_year_match, dob_within_range])"

definition dob_best :: "int \<Rightarrow> int option \<Rightarrow> int option \<Rightarrow> dob list \<Rightarrow> (term_name \<times> unit) option" where
  "dob_best y m d dobs =
     fold (keep_best dob_rank (\<lambda>x. map_option (\<lambda>t. (t, ())) (dob_match y m d x))) dobs None"

fun full_date :: "dob \<Rightarrow> bool" where
  "full_date (DobDate s circa) =
     (case parse_dob (Some s) of Some (_, _, Some _) \<Rightarrow> True | _ \<Rightarrow> False)"
| "full_date _ = False"

definition dob_term :: "string option \<Rightarrow> dob list \<Rightarrow> term_name option" where
  "dob_term subject_dob record_dobs =
    (case parse_dob subject_dob of
       None \<Rightarrow> None
     | Some (y, m, d) \<Rightarrow>
         if record_dobs = [] then None
         else case dob_best y m d record_dobs of
             Some (t, _) \<Rightarrow> Some t
           | None \<Rightarrow> if d \<noteq> None \<and> list_ex full_date record_dobs
                     then Some dob_conflict else Some dob_partial_conflict)"

record document =
  doc_type :: "string option"
  doc_number :: "string option"
  doc_country :: "string option"

definition is_ascii_alnum :: "char \<Rightarrow> bool" where
  "is_ascii_alnum c = (is_lower c \<or> is_upper c \<or> is_digit c)"

definition norm_doc :: "string option \<Rightarrow> string" where
  "norm_doc number = str_upper (filter is_ascii_alnum (text_or number ''''))"

definition same_type :: "document \<Rightarrow> document \<Rightarrow> bool" where
  "same_type sd rd = (text_or (doc_type sd) '''' = text_or (doc_type rd) '''')"

definition doc_matches :: "document \<Rightarrow> document \<Rightarrow> bool" where
  "doc_matches sd rd = (same_type sd rd \<and> norm_doc (doc_number sd) = norm_doc (doc_number rd))"

definition doc_conflicts :: "document \<Rightarrow> document \<Rightarrow> bool" where
  "doc_conflicts sd rd =
     (same_type sd rd \<and> norm_doc (doc_number sd) \<noteq> norm_doc (doc_number rd)
      \<and> truthy (doc_country sd) \<and> doc_country sd = doc_country rd)"

definition id_terms :: "document list \<Rightarrow> document list \<Rightarrow> term_name list" where
  "id_terms subject_docs record_docs =
    (if list_ex (\<lambda>sd. list_ex (doc_matches sd) record_docs) subject_docs then [id_number_match]
     else if list_ex (\<lambda>sd. list_ex (doc_conflicts sd) record_docs) subject_docs
       then [id_number_conflict]
     else [])"

definition country :: "textlib \<Rightarrow> string option \<Rightarrow> string option" where
  "country L value = (case value of
       None \<Rightarrow> None
     | Some v \<Rightarrow> if v = [] then None
               else opt_or (to_iso2 L value) (Some (str_lower (str_strip v))))"

definition nationality_term :: "textlib \<Rightarrow> string option \<Rightarrow> string list \<Rightarrow> term_name option" where
  "nationality_term L subject_nat record_nats =
    (let s = country L subject_nat;
         rs = map (\<lambda>n. country L (Some n)) (filter (\<lambda>n. n \<noteq> []) record_nats)
     in if \<not> truthy s \<or> rs = [] then None
        else Some (if s \<in> set rs then nationality_match else nationality_conflict))"

definition pob_term :: "textlib \<Rightarrow> string option \<Rightarrow> string list \<Rightarrow> term_name option" where
  "pob_term L subject_pob record_pobs =
    (let want = set (tokens L subject_pob)
     in if want = {} then None
        else if list_ex (\<lambda>pob. want \<subseteq> set (tokens L (Some pob))) record_pobs then Some pob_match
        else None)"

section \<open>Scoring one pair\<close>

record subject =
  subj_name :: "string option"
  original_script_name :: "string option"
  aliases :: "string list"
  subj_dob :: "string option"
  nationality :: "string option"
  pob :: "string option"
  subj_documents :: "document list"

record watch_record =
  rec_id :: string
  rec_names :: "string list"
  rec_dobs :: "dob list"
  rec_pobs :: "string list"
  rec_nationalities :: "string list"
  rec_documents :: "document list"

datatype field_value =
    VText "string option" | VDobs "dob list" | VDocs "document list" | VTexts "string list"
  | VCount int

record scored_term =
  t_name :: term_name
  t_weight :: rat
  subject_field :: string
  record_field :: string
  subject_value :: field_value
  record_value :: field_value

definition mk_term :: "rule \<Rightarrow> term_name \<Rightarrow> string \<Rightarrow> string \<Rightarrow> field_value \<Rightarrow> field_value
    \<Rightarrow> scored_term option" where
  "mk_term rule name sfield rfield svalue rvalue =
     map_option (\<lambda>w. \<lparr>t_name = name, t_weight = w, subject_field = sfield, record_field = rfield,
       subject_value = svalue, record_value = rvalue\<rparr>) (weights rule name)"

definition best_name :: "textlib \<Rightarrow> subject \<Rightarrow> watch_record \<Rightarrow> (term_name \<times> string \<times> string) option" where
  "best_name L subject record =
     fold (keep_best name_rank (\<lambda>name.
         if name = [] then None
         else map_option (\<lambda>(t, record_name). (t, record_name, name))
           (compare_names L name (rec_names record))))
       (text_or (subj_name subject) '''' # aliases subject) None"

definition name_terms :: "rule \<Rightarrow> (term_name \<times> string \<times> string) option \<Rightarrow> scored_term list option" where
  "name_terms rule best = (case best of
       None \<Rightarrow> Some []
     | Some (t, record_name, subject_name) \<Rightarrow>
         map_option (\<lambda>x. [x]) (mk_term rule t ''name'' ''names''
           (VText (Some subject_name)) (VText (Some record_name))))"

definition optional_term :: "rule \<Rightarrow> term_name option \<Rightarrow> string \<Rightarrow> string \<Rightarrow> field_value \<Rightarrow> field_value
    \<Rightarrow> scored_term list option" where
  "optional_term rule t sfield rfield svalue rvalue = (case t of
       None \<Rightarrow> Some []
     | Some name \<Rightarrow> map_option (\<lambda>x. [x]) (mk_term rule name sfield rfield svalue rvalue))"

definition replay_dob_term :: "rule \<Rightarrow> term_name option \<Rightarrow> term_name option" where
  "replay_dob_term rule t =
     (if t = Some dob_partial_conflict \<and> weights rule dob_partial_conflict = None
      then Some dob_conflict else t)"

definition base_terms :: "textlib \<Rightarrow> subject \<Rightarrow> watch_record \<Rightarrow> rule \<Rightarrow> scored_term list option" where
  "base_terms L subject record rule = do {
     names \<leftarrow> name_terms rule (best_name L subject record);
     dobs \<leftarrow> optional_term rule
       (replay_dob_term rule (dob_term (subj_dob subject) (rec_dobs record)))
       ''dob'' ''dobs'' (VText (subj_dob subject)) (VDobs (rec_dobs record));
     ids \<leftarrow> optional_term rule
       (case id_terms (subj_documents subject) (rec_documents record) of [] \<Rightarrow> None | t # _ \<Rightarrow> Some t)
       ''documents'' ''documents'' (VDocs (subj_documents subject)) (VDocs (rec_documents record));
     nats \<leftarrow> optional_term rule
       (nationality_term L (nationality subject) (rec_nationalities record))
       ''nationality'' ''nationalities'' (VText (nationality subject))
       (VTexts (rec_nationalities record));
     pobs \<leftarrow> optional_term rule (pob_term L (pob subject) (rec_pobs record))
       ''pob'' ''pobs'' (VText (pob subject)) (VTexts (rec_pobs record));
     Some (names @ dobs @ ids @ nats @ pobs)
   }"

definition corroborated :: "scored_term list \<Rightarrow> bool" where
  "corroborated terms = list_ex (\<lambda>t. t_name t \<in> CORROBORATING) terms"

definition penalty_terms :: "rule \<Rightarrow> (term_name \<times> string \<times> string) option \<Rightarrow> int option
    \<Rightarrow> scored_term list \<Rightarrow> scored_term list option" where
  "penalty_terms rule best name_frequency terms = (case (best, name_frequency) of
       (Some (_, _, subject_name), Some freq) \<Rightarrow>
         if common_name_threshold rule \<le> freq \<and> \<not> corroborated terms
         then map_option (\<lambda>x. [x]) (mk_term rule common_name_penalty ''name'' ''names''
                (VText (Some subject_name)) (VCount freq))
         else Some []
     | _ \<Rightarrow> Some [])"

definition score_pair :: "textlib \<Rightarrow> subject \<Rightarrow> watch_record \<Rightarrow> rule \<Rightarrow> int option
    \<Rightarrow> (rat \<times> scored_term list) option" where
  "score_pair L subject record rule name_frequency = do {
     base \<leftarrow> base_terms L subject record rule;
     penalty \<leftarrow> penalty_terms rule (best_name L subject record) name_frequency base;
     let terms = base @ penalty;
     Some (py_round (py_sum (map t_weight terms)) 6, terms)
   }"

section \<open>Which terms a comparison can yield\<close>

lemma compare_tokens_range: "compare_tokens L s r = Some t \<Longrightarrow> t \<in> set NAME_TERMS"
  by (auto simp: compare_tokens_def NAME_TERMS_def TERM_CATALOG_def Let_def split: if_splits prod.splits)

lemma compare_names_range:
  "compare_names L s rs = Some (t, v) \<Longrightarrow>
   v \<in> set rs \<and> compare_tokens L (tokens L (Some s)) (tokens L (Some v)) = Some t"
  by (auto simp: compare_names_def dest!: fold_keep_best_SomeD)

lemma dob_match_range: "dob_match y m d x = Some t \<Longrightarrow> t \<in> {dob_full_match, dob_year_match, dob_within_range}"
  by (cases x) (auto split: option.splits if_splits)

lemma dob_best_range:
  "dob_best y m d xs = Some (t, u) \<Longrightarrow> \<exists>x \<in> set xs. dob_match y m d x = Some t"
  by (auto simp: dob_best_def dest!: fold_keep_best_SomeD)

definition DOB_TERMS :: "term_name list" where
  "DOB_TERMS = [dob_full_match, dob_year_match, dob_within_range, dob_conflict, dob_partial_conflict]"

lemma dob_term_range: "dob_term sd rds = Some t \<Longrightarrow> t \<in> set DOB_TERMS"
  by (fastforce simp: dob_term_def DOB_TERMS_def dest!: dob_best_range dob_match_range
      split: option.splits if_splits prod.splits)

lemma best_name_range:
  assumes "best_name L s r = Some (t, rn, sn)"
  shows "sn \<noteq> []" and "rn \<in> set (rec_names r)" and "subj_name s = Some sn \<or> sn \<in> set (aliases s)"
    and "compare_tokens L (tokens L (Some sn)) (tokens L (Some rn)) = Some t"
  using fold_keep_best_SomeD [OF assms [unfolded best_name_def]]
  by (auto simp: text_or_def dest!: compare_names_range split: if_splits option.splits)

section \<open>The terms by name: what a comparison emits, without the compared values\<close>

definition opt_list :: "'a option \<Rightarrow> 'a list" where
  "opt_list x = (case x of None \<Rightarrow> [] | Some a \<Rightarrow> [a])"

definition found_terms :: "textlib \<Rightarrow> subject \<Rightarrow> watch_record \<Rightarrow> rule \<Rightarrow> term_name list" where
  "found_terms L s r rule =
     opt_list (map_option fst (best_name L s r))
     @ opt_list (replay_dob_term rule (dob_term (subj_dob s) (rec_dobs r)))
     @ id_terms (subj_documents s) (rec_documents r)
     @ opt_list (nationality_term L (nationality s) (rec_nationalities r))
     @ opt_list (pob_term L (pob s) (rec_pobs r))"

definition penalised :: "textlib \<Rightarrow> subject \<Rightarrow> watch_record \<Rightarrow> rule \<Rightarrow> int option \<Rightarrow> bool" where
  "penalised L s r rule freq =
     (best_name L s r \<noteq> None \<and> freq \<noteq> None \<and> common_name_threshold rule \<le> the freq
      \<and> \<not> list_ex (\<lambda>t. t \<in> CORROBORATING) (found_terms L s r rule))"

definition expected_terms ::
    "textlib \<Rightarrow> subject \<Rightarrow> watch_record \<Rightarrow> rule \<Rightarrow> int option \<Rightarrow> term_name list" where
  "expected_terms L s r rule freq =
     found_terms L s r rule @ (if penalised L s r rule freq then [common_name_penalty] else [])"

definition priced :: "rule \<Rightarrow> scored_term list \<Rightarrow> bool" where
  "priced rule ts = list_all (\<lambda>t. weights rule (t_name t) = Some (t_weight t)) ts"

lemma mk_term_iff:
  "mk_term rule n sf rf sv rv = Some x \<longleftrightarrow>
     (\<exists>w. weights rule n = Some w \<and> x = \<lparr>t_name = n, t_weight = w, subject_field = sf,
        record_field = rf, subject_value = sv, record_value = rv\<rparr>)"
  by (auto simp: mk_term_def)

lemma name_terms_names:
  "name_terms rule b = Some ts \<Longrightarrow> map t_name ts = opt_list (map_option fst b) \<and> priced rule ts"
  by (auto simp: name_terms_def opt_list_def priced_def mk_term_iff split: option.splits)

lemma optional_term_names:
  "optional_term rule t sf rf sv rv = Some ts \<Longrightarrow> map t_name ts = opt_list t \<and> priced rule ts"
  by (auto simp: optional_term_def opt_list_def priced_def mk_term_iff split: option.splits)

lemma id_terms_opt:
  "opt_list (case id_terms sd rd of [] \<Rightarrow> None | t # _ \<Rightarrow> Some t) = id_terms sd rd"
  by (simp add: id_terms_def opt_list_def)

lemma base_terms_names:
  "base_terms L s r rule = Some ts \<Longrightarrow> map t_name ts = found_terms L s r rule \<and> priced rule ts"
  by (auto simp: base_terms_def found_terms_def priced_def id_terms_opt
      split: bind_splits dest!: name_terms_names optional_term_names)

lemma corroborated_names: "corroborated ts = list_ex (\<lambda>t. t \<in> CORROBORATING) (map t_name ts)"
  by (auto simp: corroborated_def list_ex_iff)

lemma penalty_terms_names:
  assumes "base_terms L s r rule = Some ts"
    and "penalty_terms rule (best_name L s r) freq ts = Some ps"
  shows "map t_name ps = (if penalised L s r rule freq then [common_name_penalty] else []) \<and> priced rule ps"
  using assms base_terms_names [OF assms(1)]
  by (auto simp: penalty_terms_def penalised_def priced_def corroborated_names mk_term_iff
      split: option.splits prod.splits if_splits)

lemma score_pair_names:
  assumes "score_pair L s r rule freq = Some (sc, ts)"
  shows "map t_name ts = expected_terms L s r rule freq" and "priced rule ts"
    and "sc = py_round (py_sum (map t_weight ts)) 6"
proof -
  obtain bs ps where bs: "base_terms L s r rule = Some bs"
    and ps: "penalty_terms rule (best_name L s r) freq bs = Some ps"
    and ts: "ts = bs @ ps" and sc: "sc = py_round (py_sum (map t_weight ts)) 6"
    using assms by (auto simp: score_pair_def Let_def split: bind_splits)
  show "map t_name ts = expected_terms L s r rule freq" "priced rule ts"
    using base_terms_names [OF bs] penalty_terms_names [OF bs ps]
    by (auto simp: ts expected_terms_def priced_def)
  show "sc = py_round (py_sum (map t_weight ts)) 6" by (rule sc)
qed

lemma name_terms_defined:
  "name_terms rule b \<noteq> None \<longleftrightarrow> list_all (\<lambda>t. weights rule t \<noteq> None) (opt_list (map_option fst b))"
  by (auto simp: name_terms_def opt_list_def mk_term_def split: option.splits)

lemma optional_term_defined:
  "optional_term rule t sf rf sv rv \<noteq> None \<longleftrightarrow> list_all (\<lambda>t. weights rule t \<noteq> None) (opt_list t)"
  by (auto simp: optional_term_def opt_list_def mk_term_def split: option.splits)

lemma bind_defined: "Option.bind x f \<noteq> None \<longleftrightarrow> x \<noteq> None \<and> f (the x) \<noteq> None"
  by (cases x) auto

lemma base_terms_defined:
  "base_terms L s r rule \<noteq> None \<longleftrightarrow>
     list_all (\<lambda>t. weights rule t \<noteq> None) (found_terms L s r rule)"
  unfolding base_terms_def found_terms_def bind_defined name_terms_defined optional_term_defined
    list_all_append id_terms_opt by blast

lemma penalty_terms_defined:
  assumes "base_terms L s r rule = Some bs"
  shows "penalty_terms rule (best_name L s r) freq bs \<noteq> None \<longleftrightarrow>
    (penalised L s r rule freq \<longrightarrow> weights rule common_name_penalty \<noteq> None)"
  using base_terms_names [OF assms]
  by (auto simp: penalty_terms_def penalised_def corroborated_names mk_term_def
      split: option.splits prod.splits if_splits)

lemma score_pair_defined:
  "score_pair L s r rule freq \<noteq> None \<longleftrightarrow>
     list_all (\<lambda>t. weights rule t \<noteq> None) (expected_terms L s r rule freq)"
proof (cases "base_terms L s r rule")
  case None
  then show ?thesis using base_terms_defined [of L s r rule]
    by (simp add: score_pair_def expected_terms_def)
next
  case (Some bs)
  then show ?thesis
    using base_terms_defined [of L s r rule] penalty_terms_defined [OF Some, of freq]
    by (auto simp: score_pair_def expected_terms_def Let_def bind_defined)
qed

section \<open>Exact scores\<close>

text \<open>A rule whose weights are decimals with at most six places, \<open>u t\<close> millionths for the term \<open>t\<close>.\<close>

definition decimal_rule :: "rule \<Rightarrow> (term_name \<Rightarrow> int) \<Rightarrow> bool" where
  "decimal_rule rule u =
     list_all (\<lambda>t. \<bar>u t\<bar> \<le> 10 ^ 6 \<and> weights rule t \<in> {None, Some (dec (u t) 6)}) TERM_CATALOG"

definition total_units :: "(term_name \<Rightarrow> int) \<Rightarrow> term_name list \<Rightarrow> int" where
  "total_units u ts = sum_list (map u ts)"

lemma in_catalog [simp]: "t \<in> set TERM_CATALOG"
  by (cases t) (simp_all add: TERM_CATALOG_def)

lemma decimal_ruleD:
  "decimal_rule rule u \<Longrightarrow> \<bar>u t\<bar> \<le> 10 ^ 6 \<and> weights rule t \<in> {None, Some (dec (u t) 6)}"
  using in_catalog [of t] by (simp add: decimal_rule_def list_all_iff)

lemma expected_terms_length: "length (expected_terms L s r rule freq) \<le> 6"
  by (simp add: expected_terms_def found_terms_def opt_list_def id_terms_def split: option.splits)

lemma decimal_weight: "decimal_rule rule u \<Longrightarrow> weights rule t = Some w \<Longrightarrow> w = dec (u t) 6"
  using decimal_ruleD [of rule u t] by simp

lemma priced_weights:
  assumes "decimal_rule rule u" and "priced rule ts"
  shows "map t_weight ts = map (\<lambda>k. dec k 6) (map u (map t_name ts))"
  using assms(2) by (induction ts) (auto simp: priced_def decimal_weight [OF assms(1)])

lemma score_pair_exact:
  assumes "decimal_rule rule u" and "score_pair L s r rule freq = Some (sc, ts)"
  shows "sc = dec (total_units u (expected_terms L s r rule freq)) 6"
proof -
  note n = score_pair_names [OF assms(2)]
  have "length (map u (map t_name ts)) \<le> 400"
    using expected_terms_length [of L s r rule freq] by (simp flip: n(1))
  moreover have "\<forall>k \<in> set (map u (map t_name ts)). \<bar>k\<bar> \<le> 10 ^ 6"
    using decimal_ruleD [OF assms(1)] by simp
  ultimately show ?thesis
    using py_round_sum_dec n(3) priced_weights [OF assms(1) n(2)]
    by (simp add: total_units_def flip: n(1) del: map_map)
qed

lemma total_units_bound:
  assumes "\<And>t. \<bar>u t\<bar> \<le> 10 ^ 6"
  shows "\<bar>total_units u ts\<bar> \<le> 10 ^ 6 * int (length ts)"
proof (induction ts)
  case (Cons t ts)
  then show ?case using assms [of t] by (simp add: total_units_def)
qed (simp add: total_units_def)

lemma expected_units_bound:
  assumes "decimal_rule rule u"
  shows "\<bar>total_units u (expected_terms L s r rule freq)\<bar> \<le> 10 ^ 9"
  using total_units_bound [of u "expected_terms L s r rule freq"] decimal_ruleD [OF assms]
    expected_terms_length [of L s r rule freq] by force

section \<open>The default rule\<close>

fun default_units :: "term_name \<Rightarrow> int" where
  "default_units name_exact_normalized = 500000"
| "default_units name_token_reordered = 450000"
| "default_units name_translit_equivalent = 400000"
| "default_units name_initials_compatible = 350000"
| "default_units name_partial_overlap = 200000"
| "default_units dob_full_match = 300000"
| "default_units dob_year_match = 150000"
| "default_units dob_within_range = 100000"
| "default_units dob_conflict = -350000"
| "default_units dob_partial_conflict = -150000"
| "default_units id_number_match = 600000"
| "default_units id_number_conflict = -300000"
| "default_units nationality_match = 100000"
| "default_units nationality_conflict = -100000"
| "default_units pob_match = 50000"
| "default_units common_name_penalty = -150000"

lemma dec_scale: "dec m 2 = dec (m * 10000) 6"
  by (simp add: dec_def)

lemma decimal_default: "decimal_rule DEFAULT_RULE default_units"
  by (simp add: decimal_rule_def TERM_CATALOG_def DEFAULT_RULE_def dec_scale)

text \<open>Every combination of terms a comparison can emit.\<close>

definition choices :: "'a list \<Rightarrow> 'a list list" where
  "choices xs = [] # map (\<lambda>x. [x]) xs"

definition PROFILES :: "term_name list list" where
  "PROFILES =
    [n @ d @ i @ a @ p. n \<leftarrow> choices NAME_TERMS, d \<leftarrow> choices DOB_TERMS,
       i \<leftarrow> choices [id_number_match, id_number_conflict],
       a \<leftarrow> choices [nationality_match, nationality_conflict], p \<leftarrow> choices [pob_match]]"

lemma opt_list_choices: "(\<And>t. x = Some t \<Longrightarrow> t \<in> set xs) \<Longrightarrow> opt_list x \<in> set (choices xs)"
  by (cases x) (auto simp: opt_list_def choices_def)

lemma found_terms_profile: "found_terms L s r rule \<in> set PROFILES"
proof -
  have "opt_list (map_option fst (best_name L s r)) \<in> set (choices NAME_TERMS)"
    by (rule opt_list_choices) (auto dest: best_name_range compare_tokens_range)
  moreover have "opt_list (replay_dob_term rule (dob_term (subj_dob s) (rec_dobs r))) \<in> set (choices DOB_TERMS)"
  proof (rule opt_list_choices)
    fix t assume "replay_dob_term rule (dob_term (subj_dob s) (rec_dobs r)) = Some t"
    then have "t = dob_conflict \<or> dob_term (subj_dob s) (rec_dobs r) = Some t"
      by (auto simp: replay_dob_term_def split: if_splits)
    then show "t \<in> set DOB_TERMS" by (auto dest: dob_term_range) (simp add: DOB_TERMS_def)
  qed
  moreover have "id_terms (subj_documents s) (rec_documents r) \<in> set (choices [id_number_match, id_number_conflict])"
    by (simp add: id_terms_def choices_def)
  moreover have "opt_list (nationality_term L (nationality s) (rec_nationalities r))
      \<in> set (choices [nationality_match, nationality_conflict])"
    by (rule opt_list_choices) (auto simp: nationality_term_def Let_def split: if_splits)
  moreover have "opt_list (pob_term L (pob s) (rec_pobs r)) \<in> set (choices [pob_match])"
    by (rule opt_list_choices) (auto simp: pob_term_def Let_def split: if_splits)
  ultimately show ?thesis unfolding found_terms_def PROFILES_def by fastforce
qed

section \<open>What a name term means\<close>

lemma best_token_spec:
  "best_token L st rts b = Some (rt, kind) \<Longrightarrow>
     (rt \<in> set rts \<and> tok_match L st rt = Some kind) \<or> b = Some (rt, kind)"
  by (induction L st rts b rule: best_token.induct)
    (auto split: option.splits tok_kind.splits if_splits)

lemma match_tokens_mono: "match_tokens L sts unused m i = (u, n, j) \<Longrightarrow> n \<le> m + length sts \<and> (i \<longrightarrow> j)"
  by (induction L sts unused m i rule: match_tokens.induct) (fastforce split: option.splits prod.splits)+

lemma match_tokens_all:
  assumes "match_tokens L sts unused m i = (u, m + length sts, j)"
  shows "\<exists>ys. mset unused = mset ys + mset u \<and>
    list_all2 (\<lambda>s y. tok_match L s y = Some Full \<or> j \<and> tok_match L s y = Some Initial) sts ys"
  using assms
proof (induction sts arbitrary: unused m i)
  case (Cons s sts)
  show ?case
  proof (cases "best_token L s unused None")
    case None
    then show ?thesis using Cons.prems match_tokens_mono [of L sts unused m i u] by fastforce
  next
    case (Some p)
    obtain rt kind where p: "p = (rt, kind)" by (cases p)
    have rt: "rt \<in> set unused" "tok_match L s rt = Some kind"
      using best_token_spec [of L s unused None rt kind] Some p by auto
    have step: "match_tokens L sts (remove1 rt unused) (Suc m) (i \<or> kind = Initial) = (u, Suc m + length sts, j)"
      using Cons.prems Some p by simp
    then obtain ys where ys: "mset (remove1 rt unused) = mset ys + mset u"
      "list_all2 (\<lambda>s y. tok_match L s y = Some Full \<or> j \<and> tok_match L s y = Some Initial) sts ys"
      using Cons.IH by blast
    have "mset unused = mset (rt # ys) + mset u"
      using ys(1) rt(1) by (metis add_mset_add_single insert_DiffM mset.simps(2) mset_remove1 set_mset_mset union_mset_add_mset_left)
    moreover have "kind = Full \<or> j" using match_tokens_mono [OF step] by (cases kind) auto
    ultimately show ?thesis using ys(2) rt(2) by (intro exI [of _ "rt # ys"]) (cases kind; auto)
  qed
qed simp

lemma variant_all_tokens:
  assumes "compare_tokens L sts rts = Some t" and "t \<in> {name_translit_equivalent, name_initials_compatible}"
  shows "\<exists>ys u. mset rts = mset ys + mset u \<and> length u \<le> 1 \<and> 2 \<le> length sts \<and>
    list_all2 (\<lambda>s y. tok_match L s y = Some Full
      \<or> t = name_initials_compatible \<and> tok_match L s y = Some Initial) sts ys"
proof -
  obtain u n j where m: "match_tokens L sts rts 0 False = (u, n, j)" by (cases "match_tokens L sts rts 0 False") auto
  then have n: "n = length sts" "2 \<le> length sts" "length u \<le> 1" and j: "t = name_initials_compatible \<longleftrightarrow> j"
    using assms by (auto simp: compare_tokens_def split: if_splits)
  show ?thesis using match_tokens_all [of L sts rts 0 False u j] m n j by auto
qed

lemma compare_names_best:
  assumes "v \<in> set rs" and "compare_tokens L (tokens L (Some s)) (tokens L (Some v)) = Some t"
  shows "\<exists>u w. compare_names L s rs = Some (u, w) \<and> name_rank u \<le> name_rank t"
  unfolding compare_names_def by (rule fold_keep_best_minimal [OF assms(1)]) (simp add: assms(2))

section \<open>Properties of a comparison\<close>

text \<open>The name term reported for a record is the best over its name variants: it is the
  term of one of them, and no variant has a term that comes earlier in the catalogue.\<close>

theorem best_variant_reported:
  assumes "compare_names L s rs = Some (t, v)"
  shows "v \<in> set rs \<and> compare_tokens L (tokens L (Some s)) (tokens L (Some v)) = Some t \<and>
    (\<forall>w \<in> set rs. \<forall>u. compare_tokens L (tokens L (Some s)) (tokens L (Some w)) = Some u
       \<longrightarrow> name_rank t \<le> name_rank u)"
  using compare_names_range [OF assms] compare_names_best [of _ rs L s] assms by fastforce

lemma sample_variants:
  "compare_names plain_lib ''Ivan Petrov'' [''PETROV, Ivan'', ''Ivan Petrov'']
     = Some (name_exact_normalized, ''Ivan Petrov'')"
  "compare_names plain_lib ''Ivan Petrov'' [''Ivan Petrov'']
     = Some (name_exact_normalized, ''Ivan Petrov'')"
  "compare_tokens plain_lib (tokens plain_lib (Some ''Bill Gates''))
     (tokens plain_lib (Some ''Gates William Henry'')) = Some name_translit_equivalent"
  "tokens plain_lib (Some ''Bill Gates'') = [''bill'', ''gates'']"
  "compare_tokens plain_lib (tokens plain_lib (Some ''Ivan Petrov''))
     (tokens plain_lib (Some ''PETROV, Ivan'')) = Some name_token_reordered"
  by code_simp+

lemma best_variant_reported_witness:
  "''Ivan Petrov'' \<in> set [''PETROV, Ivan'', ''Ivan Petrov''] \<and>
   name_rank name_exact_normalized \<le> name_rank name_token_reordered"
  using best_variant_reported [OF sample_variants(1)] sample_variants(5) by auto

text \<open>A spelling-variant or initials term means the whole subject name was found: its tokens
  are matched one to one with different tokens of the listed name, fully (or by initials, for the
  initials term), the subject has at least two tokens and the listed name at most one more.\<close>

theorem variant_matches_every_token:
  assumes "compare_tokens L sts rts = Some t"
    and "t = name_translit_equivalent \<or> t = name_initials_compatible"
  shows "\<exists>ys u. mset rts = mset ys + mset u \<and> length u \<le> 1 \<and> 2 \<le> length sts \<and>
    list_all2 (\<lambda>s y. tok_match L s y = Some Full
      \<or> t = name_initials_compatible \<and> tok_match L s y = Some Initial) sts ys"
  using variant_all_tokens [OF assms(1)] assms(2) by auto

lemma variant_matches_every_token_witness:
  "\<exists>ys u. mset (tokens plain_lib (Some ''Gates William Henry'')) = mset ys + mset u \<and> length u \<le> 1 \<and>
    list_all2 (\<lambda>s y. tok_match plain_lib s y = Some Full) [''bill'', ''gates''] ys"
  using variant_matches_every_token [OF sample_variants(3)] by (auto simp: sample_variants(4))

text \<open>C5. Scoring refines its specification by term names: a pair is scored exactly when the rule
  has a weight for every term it finds, the terms are the expected ones in order, each carrying
  the rule's weight, and the score is their rounded sum.\<close>

theorem score_pair_refines:
  "(score_pair L s w rule freq = None \<longleftrightarrow> (\<exists>t \<in> set (expected_terms L s w rule freq). weights rule t = None)) \<and>
   (\<forall>sc ts. score_pair L s w rule freq = Some (sc, ts) \<longrightarrow>
      map t_name ts = expected_terms L s w rule freq \<and> sc = py_round (py_sum (map t_weight ts)) 6 \<and>
      map (\<lambda>t. Some (t_weight t)) ts = map (weights rule) (expected_terms L s w rule freq))"
proof (intro conjI allI impI)
  show "score_pair L s w rule freq = None \<longleftrightarrow> (\<exists>t \<in> set (expected_terms L s w rule freq). weights rule t = None)"
    using score_pair_defined [of L s w rule freq] by (auto simp: list_all_iff)
next
  fix sc ts assume sp: "score_pair L s w rule freq = Some (sc, ts)"
  note n = score_pair_names [OF sp]
  show "map t_name ts = expected_terms L s w rule freq" and "sc = py_round (py_sum (map t_weight ts)) 6"
    by (rule n)+
  show "map (\<lambda>t. Some (t_weight t)) ts = map (weights rule) (expected_terms L s w rule freq)"
    using n(2) by (simp add: priced_def list_all_iff flip: n(1))
qed

end
