(* ===== verification/Dispose.thy ===== *)
theory Dispose
  imports Matching
begin

text \<open>
  \<open>app/screening/dispose.py\<close>: bands, the run's disposition and the pure function \<open>decide\<close> of
  the frozen bundle. \<open>decide\<close> is None when a rule lacks a weight it needs (the \<open>KeyError\<close>).
\<close>

datatype disposition = CLEAR | REVIEW | MATCH

fun severity :: "disposition \<Rightarrow> nat" where
  "severity CLEAR = 0"
| "severity REVIEW = 1"
| "severity MATCH = 2"

text \<open>Dispositions are ordered by severity.\<close>

instantiation disposition :: linorder
begin

definition less_eq_disposition :: "disposition \<Rightarrow> disposition \<Rightarrow> bool" where
  "less_eq_disposition a b = (severity a \<le> severity b)"

definition less_disposition :: "disposition \<Rightarrow> disposition \<Rightarrow> bool" where
  "less_disposition a b = (severity a < severity b)"

instance
proof
  fix a b :: disposition
  show "a \<le> b \<Longrightarrow> b \<le> a \<Longrightarrow> a = b"
    by (cases a; cases b) (simp_all add: less_eq_disposition_def)
qed (auto simp: less_eq_disposition_def less_disposition_def)

end

datatype reason = score_at_or_above_match | between_thresholds | conflict_floor
  | score_below_clear | rollup_most_severe | auto_clear_blocked_by_coverage
  | auto_clear_allowed | no_candidates

definition FULL_NAME :: "term_name list" where
  "FULL_NAME = [name_exact_normalized, name_token_reordered, name_translit_equivalent]"

definition CONFLICTS :: "term_name list" where
  "CONFLICTS = [dob_conflict, dob_partial_conflict, id_number_conflict]"

definition band_with_reason :: "rat \<Rightarrow> term_name list \<Rightarrow> thresholds \<Rightarrow> disposition \<times> reason" where
  "band_with_reason score names th =
    (if match_at th \<le> score then (MATCH, score_at_or_above_match)
     else if clear_below th \<le> score then (REVIEW, between_thresholds)
     else if list_ex (\<lambda>t. t \<in> set (take 4 NAME_TERMS)) names \<and> list_ex (\<lambda>t. t \<in> set CONFLICTS) names
       then (REVIEW, conflict_floor)
     else (CLEAR, score_below_clear))"

definition most_severe :: "disposition list \<Rightarrow> disposition" where
  \<comment> \<open>\<open>max(..., key=severity, default="CLEAR")\<close>: the first of the most severe\<close>
  "most_severe bands = (case bands of [] \<Rightarrow> CLEAR
     | b # bs \<Rightarrow> fold (\<lambda>x best. if severity best < severity x then x else best) bs b)"

definition run_reason ::
    "disposition list \<Rightarrow> (string \<times> string) list \<Rightarrow> disposition \<times> bool \<times> reason" where
  "run_reason bands source_status =
    (let d = most_severe bands
     in if d \<noteq> CLEAR then (d, False, rollup_most_severe)
        else if list_ex (\<lambda>(_, status). status = ''unavailable'') source_status
          then (REVIEW, False, auto_clear_blocked_by_coverage)
        else (CLEAR, True, if bands \<noteq> [] then auto_clear_allowed else no_candidates))"

text \<open>A stored term: the scored term without the subject's value.\<close>

record public_term =
  p_name :: term_name
  p_weight :: rat
  p_subject_field :: string
  p_record_field :: string
  p_record_value :: field_value

definition public_terms :: "scored_term list \<Rightarrow> public_term list" where
  "public_terms = map (\<lambda>t. \<lparr>p_name = t_name t, p_weight = t_weight t,
     p_subject_field = subject_field t, p_record_field = record_field t,
     p_record_value = record_value t\<rparr>)"

record bundle_candidate =
  candidate_id :: string
  record_of :: watch_record

record frozen_bundle =
  b_subject :: subject
  b_candidates :: "bundle_candidate list"
  b_rule :: rule
  normalizer_version :: string
  source_status :: "(string \<times> string) list"

record candidate_result =
  r_candidate_id :: string
  r_record_id :: string
  r_score :: rat
  r_band :: disposition
  r_terms :: "public_term list"

record decision_result =
  d_disposition :: disposition
  d_auto_closed :: bool
  d_top_score :: "rat option"
  d_candidates :: "candidate_result list"

fun option_map :: "('a \<Rightarrow> 'b option) \<Rightarrow> 'a list \<Rightarrow> 'b list option" where
  "option_map f [] = Some []"
| "option_map f (x # xs) = do { y \<leftarrow> f x; ys \<leftarrow> option_map f xs; Some (y # ys) }"

definition score_all :: "textlib \<Rightarrow> frozen_bundle \<Rightarrow> int option \<Rightarrow> (rat \<times> scored_term list) list option" where
  "score_all L b freq =
     option_map (\<lambda>c. score_pair L (b_subject b) (record_of c) (b_rule b) freq) (b_candidates b)"

definition full_name_match :: "scored_term list \<Rightarrow> bool" where
  "full_name_match terms = list_ex (\<lambda>t. t_name t \<in> set FULL_NAME) terms"

definition name_frequency :: "(rat \<times> scored_term list) list \<Rightarrow> int" where
  "name_frequency scored = int (length (filter (\<lambda>(s, terms). full_name_match terms) scored))"

definition score_bundle :: "textlib \<Rightarrow> frozen_bundle \<Rightarrow> (rat \<times> scored_term list) list option" where
  "score_bundle L b = do {
     scored \<leftarrow> score_all L b None;
     let frequency = name_frequency scored;
     if common_name_threshold (b_rule b) \<le> frequency then score_all L b (Some frequency)
     else Some scored
   }"

definition candidate_result_of ::
    "rule \<Rightarrow> bundle_candidate \<Rightarrow> rat \<times> scored_term list \<Rightarrow> candidate_result" where
  "candidate_result_of rule cand scored = (case scored of (score, terms) \<Rightarrow>
     \<lparr>r_candidate_id = candidate_id cand, r_record_id = rec_id (record_of cand), r_score = score,
      r_band = fst (band_with_reason score (map t_name terms) (rule_thresholds rule)),
      r_terms = public_terms terms\<rparr>)"

definition top_score :: "rat list \<Rightarrow> rat option" where
  "top_score scores = (case scores of [] \<Rightarrow> None
     | s # ss \<Rightarrow> Some (fold (\<lambda>x best. if best < x then x else best) ss s))"

definition decide :: "textlib \<Rightarrow> frozen_bundle \<Rightarrow> decision_result option" where
  "decide L b = do {
     scored \<leftarrow> score_bundle L b;
     let results = map2 (candidate_result_of (b_rule b)) (b_candidates b) scored;
     let (disposition, auto_closed, _) = run_reason (map r_band results) (source_status b);
     Some \<lparr>d_disposition = disposition, d_auto_closed = auto_closed,
           d_top_score = top_score (map r_score results), d_candidates = results\<rparr>
   }"


section \<open>Running every candidate\<close>

lemma option_map_nth:
  "option_map f xs = Some ys \<Longrightarrow> length ys = length xs \<and> (\<forall>i < length xs. f (xs ! i) = Some (ys ! i))"
proof (induction xs arbitrary: ys)
  case (Cons x xs)
  then show ?case by (auto split: bind_splits simp: nth_Cons split: nat.splits)
qed simp

lemma option_map_None: "option_map f xs = None \<longleftrightarrow> (\<exists>x \<in> set xs. f x = None)"
  by (induction xs) (auto split: bind_splits)

lemma score_bundle_pairs:
  assumes "score_bundle L b = Some scored"
  shows "\<exists>freq. score_all L b freq = Some scored"
  using assms by (auto simp: score_bundle_def Let_def split: bind_splits if_splits)

lemma fold_most_severe:
  "severity (fold (\<lambda>x best. if severity best < severity x then x else best) xs b)
     = fold max (map severity xs) (severity b)"
  by (induction xs arbitrary: b) (auto simp: max_def)

lemma severity_inj [simp]: "severity a = severity b \<longleftrightarrow> a = b"
  by (cases a; cases b) simp_all

lemma most_severe_severity: "severity (most_severe bs) = Max (insert 0 (severity ` set bs))"
proof (cases bs)
  case (Cons b xs)
  have "severity (most_severe bs) = Max (set (severity b # map severity xs))"
    by (simp only: Cons most_severe_def list.case fold_most_severe Max.set_eq_fold)
  also have "set (severity b # map severity xs) = severity ` set bs" by (simp add: Cons)
  finally show ?thesis using Cons by (simp add: Max_insert)
qed (simp add: most_severe_def)

lemma most_severe_ge: "b \<in> set bs \<Longrightarrow> severity b \<le> severity (most_severe bs)"
  unfolding most_severe_severity by (intro Max_ge) auto

lemma most_severe_mem: "bs \<noteq> [] \<Longrightarrow> most_severe bs \<in> set bs"
proof -
  have "fold (\<lambda>x best. if severity best < severity x then x else best) xs b \<in> set (b # xs)" for xs b
  proof (induction xs arbitrary: b)
    case (Cons y ys)
    show ?case using Cons.IH [of "if severity b < severity y then y else b"] by auto
  qed simp
  then show "bs \<noteq> [] \<Longrightarrow> ?thesis" by (cases bs) (simp_all only: most_severe_def list.case)
qed

lemma most_severe_CLEAR: "most_severe bs = CLEAR \<longleftrightarrow> (\<forall>b \<in> set bs. b = CLEAR)"
proof
  assume c: "most_severe bs = CLEAR"
  show "\<forall>b \<in> set bs. b = CLEAR"
  proof
    fix b assume "b \<in> set bs"
    then have "severity b \<le> severity CLEAR" using most_severe_ge [of b bs] c by simp
    then show "b = CLEAR" by (cases b) simp_all
  qed
next
  assume "\<forall>b \<in> set bs. b = CLEAR"
  then show "most_severe bs = CLEAR" using most_severe_mem [of bs] by (cases "bs = []") (auto simp: most_severe_def)
qed

lemma decide_parts:
  assumes "decide L b = Some r"
  obtains scored freq where "score_all L b freq = Some scored"
    and "d_candidates r = map2 (candidate_result_of (b_rule b)) (b_candidates b) scored"
    and "run_reason (map r_band (d_candidates r)) (source_status b)
           = (d_disposition r, d_auto_closed r, snd (snd (run_reason (map r_band (d_candidates r)) (source_status b))))"
    and "d_top_score r = top_score (map r_score (d_candidates r))"
proof -
  obtain scored where s: "score_bundle L b = Some scored"
    using assms by (auto simp: decide_def split: bind_splits)
  then obtain freq where f: "score_all L b freq = Some scored" using score_bundle_pairs by blast
  show thesis
    using assms s by (intro that [OF f]) (auto simp: decide_def Let_def split: prod.splits)
qed

lemma decide_defined:
  assumes "\<forall>t. weights (b_rule b) t \<noteq> None"
  shows "decide L b \<noteq> None"
proof -
  have "score_all L b freq \<noteq> None" for freq
    using assms score_pair_defined by (auto simp: score_all_def option_map_None list_all_iff)
  then have "score_bundle L b \<noteq> None"
    unfolding score_bundle_def bind_defined Let_def by simp
  then show ?thesis by (auto simp: decide_def bind_defined Let_def split: prod.splits)
qed

end
