(* ===== verification/Samples.thy ===== *)
theory Samples
  imports Dispose
begin

text \<open>
  A subject and two list entries on which the properties of the screening components are
  exercised: the first entry agrees in name, date of birth and passport, the second has the
  name and a conflicting date of birth. \<open>sample_decision\<close> is the decision on both.
\<close>

definition sample_passport :: "string \<Rightarrow> document" where
  "sample_passport n = \<lparr>doc_type = Some ''passport'', doc_number = Some n, doc_country = None\<rparr>"

definition sample_subject :: subject where
  "sample_subject = \<lparr>subj_name = Some ''Ivan Petrov'', original_script_name = None, aliases = [],
     subj_dob = Some ''1970-01-02'', nationality = None, pob = None,
     subj_documents = [sample_passport ''AB 12'']\<rparr>"

definition sample_record :: watch_record where
  "sample_record = \<lparr>rec_id = ''r1'', rec_names = [''PETROV, Ivan'', ''Ivan Petrov''],
     rec_dobs = [DobDate ''1970-01-02'' False], rec_pobs = [], rec_nationalities = [],
     rec_documents = [sample_passport ''ab12'']\<rparr>"

definition other_record :: watch_record where
  "other_record = \<lparr>rec_id = ''r2'', rec_names = [''Ivan Petrov''],
     rec_dobs = [DobDate ''1950-01-02'' False], rec_pobs = [], rec_nationalities = [],
     rec_documents = []\<rparr>"

definition sample_bundle :: "watch_record list \<Rightarrow> frozen_bundle" where
  "sample_bundle rs = \<lparr>b_subject = sample_subject,
     b_candidates = map (\<lambda>w. \<lparr>candidate_id = ''c-'' @ rec_id w, record_of = w\<rparr>) rs,
     b_rule = DEFAULT_RULE, normalizer_version = NORMALIZER_VERSION,
     source_status = [(''list:ofac_sdn'', ''complete'')]\<rparr>"

lemma sample_rec_ids: "rec_id sample_record = ''r1''" "rec_id other_record = ''r2''"
  by (simp_all only: sample_record_def other_record_def watch_record.simps)

lemma no_nationality_term [simp]: "nationality_term L None ns = None"
  by (simp add: nationality_term_def country_def Let_def)

lemma no_pob_term [simp]: "pob_term L None ns = None"
  by (simp add: pob_term_def tokens_def)

lemma sample_dobs:
  "dob_term (Some ''1970-01-02'') [DobDate ''1970-01-02'' False] = Some dob_full_match"
  "dob_term (Some ''1970-01-02'') [DobDate ''1950-01-02'' False] = Some dob_conflict"
  by code_simp+

lemma sample_ids: "id_terms [sample_passport ''AB 12''] [sample_passport ''ab12''] = [id_number_match]"
   "id_terms [sample_passport ''AB 12''] [] = []"
  by code_simp+

lemma sample_best_names:
  "best_name plain_lib sample_subject sample_record = Some (name_exact_normalized, ''Ivan Petrov'', ''Ivan Petrov'')"
  "best_name plain_lib sample_subject other_record = Some (name_exact_normalized, ''Ivan Petrov'', ''Ivan Petrov'')"
  by (simp_all add: best_name_def sample_subject_def sample_record_def other_record_def sample_variants
      keep_best_def better_def)

lemma default_rule_simps [simp]:
  "weights DEFAULT_RULE t = Some (default_weight t)"
  "common_name_threshold DEFAULT_RULE = 10"
  "replay_dob_term DEFAULT_RULE d = d"
  by (simp_all add: DEFAULT_RULE_def replay_dob_term_def)

lemma sample_found:
  "found_terms plain_lib sample_subject sample_record DEFAULT_RULE
     = [name_exact_normalized, dob_full_match, id_number_match]"
  "found_terms plain_lib sample_subject other_record DEFAULT_RULE
     = [name_exact_normalized, dob_conflict]"
  unfolding found_terms_def sample_best_names
  by (simp_all add: opt_list_def sample_subject_def sample_record_def other_record_def sample_dobs sample_ids)

lemma sample_expected:
  "expected_terms plain_lib sample_subject sample_record DEFAULT_RULE None
     = [name_exact_normalized, dob_full_match, id_number_match]"
  "expected_terms plain_lib sample_subject other_record DEFAULT_RULE None
     = [name_exact_normalized, dob_conflict]"
  by (simp_all add: expected_terms_def penalised_def sample_found)

lemma default_pair:
  "\<exists>ts. score_pair L s w DEFAULT_RULE freq
      = Some (dec (total_units default_units (expected_terms L s w DEFAULT_RULE freq)) 6, ts)
    \<and> map t_name ts = expected_terms L s w DEFAULT_RULE freq"
  using score_pair_defined [of L s w DEFAULT_RULE freq]
    score_pair_exact [OF decimal_default, of L s w freq]
    score_pair_names(1) [of L s w DEFAULT_RULE freq]
  by (auto simp: list_all_iff)

lemma sample_pairs:
  "\<exists>ts. score_pair plain_lib sample_subject sample_record DEFAULT_RULE None = Some (dec 1400000 6, ts)
     \<and> map t_name ts = [name_exact_normalized, dob_full_match, id_number_match]"
  "\<exists>ts. score_pair plain_lib sample_subject other_record DEFAULT_RULE None = Some (dec 150000 6, ts)
     \<and> map t_name ts = [name_exact_normalized, dob_conflict]"
  using default_pair [of plain_lib sample_subject sample_record None]
    default_pair [of plain_lib sample_subject other_record None]
  by (simp_all add: sample_expected total_units_def)

lemma sample_bands:
  "band_with_reason (dec 1400000 6) [name_exact_normalized, dob_full_match, id_number_match]
     (rule_thresholds DEFAULT_RULE) = (MATCH, score_at_or_above_match)"
  "band_with_reason (dec 150000 6) [name_exact_normalized, dob_conflict]
     (rule_thresholds DEFAULT_RULE) = (REVIEW, conflict_floor)"
  by code_simp+

text \<open>One candidate that matches on every field, and one whose date of birth conflicts.\<close>

lemma sample_decision:
  "\<exists>r c1 c2. decide plain_lib (sample_bundle [sample_record, other_record]) = Some r
     \<and> d_disposition r = MATCH \<and> \<not> d_auto_closed r \<and> d_candidates r = [c1, c2]
     \<and> r_band c1 = MATCH \<and> map p_name (r_terms c1) = [name_exact_normalized, dob_full_match, id_number_match]
     \<and> r_band c2 = REVIEW \<and> map p_name (r_terms c2) = [name_exact_normalized, dob_conflict]"
proof -
  obtain ts where ts: "score_pair plain_lib sample_subject sample_record DEFAULT_RULE None = Some (dec 1400000 6, ts)"
    "map t_name ts = [name_exact_normalized, dob_full_match, id_number_match]"
    using sample_pairs(1) by (elim exE conjE)
  obtain us where us: "score_pair plain_lib sample_subject other_record DEFAULT_RULE None = Some (dec 150000 6, us)"
    "map t_name us = [name_exact_normalized, dob_conflict]"
    using sample_pairs(2) by (elim exE conjE)
  let ?b = "sample_bundle [sample_record, other_record]"
  let ?sc = "[(dec 1400000 6, ts), (dec 150000 6, us)]"
  have parts: "b_rule ?b = DEFAULT_RULE" "b_subject ?b = sample_subject"
    "b_candidates ?b = [\<lparr>candidate_id = ''c-r1'', record_of = sample_record\<rparr>,
        \<lparr>candidate_id = ''c-r2'', record_of = other_record\<rparr>]"
    "source_status ?b = [(''list:ofac_sdn'', ''complete'')]"
    using sample_rec_ids by (simp_all add: sample_bundle_def)
  have all: "score_all plain_lib ?b None = Some ?sc"
    by (simp add: score_all_def parts ts us)
  have "\<not> common_name_threshold (b_rule ?b) \<le> name_frequency ?sc"
    using length_filter_le [of "\<lambda>(s, terms). full_name_match terms" ?sc]
    by (simp add: name_frequency_def parts)
  then have sb: "score_bundle plain_lib ?b = Some ?sc"
    by (simp only: score_bundle_def all Option.bind.simps Let_def if_False)
  let ?cs = "map2 (candidate_result_of DEFAULT_RULE) (b_candidates ?b) ?sc"
  have bands: "map r_band ?cs = [MATCH, REVIEW]"
    by (simp add: parts candidate_result_of_def ts us sample_bands)
  have rr: "run_reason (map r_band ?cs) (source_status ?b) = (MATCH, False, rollup_most_severe)"
    unfolding bands by (simp add: run_reason_def most_severe_def)
  have names: "map (\<lambda>c. map p_name (r_terms c)) ?cs
      = [[name_exact_normalized, dob_full_match, id_number_match], [name_exact_normalized, dob_conflict]]"
    by (simp add: parts candidate_result_of_def public_terms_def comp_def ts us)
  have "decide plain_lib ?b = Some \<lparr>d_disposition = MATCH, d_auto_closed = False,
      d_top_score = top_score (map r_score ?cs), d_candidates = ?cs\<rparr>"
    unfolding decide_def sb Option.bind.simps Let_def parts(1) rr by simp
  then show ?thesis using bands names by (auto simp: parts(3))
qed

lemma score_pair_refines_witness:
  "\<exists>ts. score_pair plain_lib sample_subject other_record DEFAULT_RULE None = Some (dec 150000 6, ts)
     \<and> dec 150000 6 = py_round (py_sum (map t_weight ts)) 6"
  using sample_pairs(2) score_pair_refines [of plain_lib sample_subject other_record DEFAULT_RULE None]
  by blast

lemma sample_match_candidate:
  obtains r c where "decide plain_lib (sample_bundle [sample_record, other_record]) = Some r"
    and "c \<in> set (d_candidates r)" and "r_band c = MATCH"
    and "map p_name (r_terms c) = [name_exact_normalized, dob_full_match, id_number_match]"
proof -
  from sample_decision obtain r c1 c2 where
    "decide plain_lib (sample_bundle [sample_record, other_record]) = Some r"
    "d_candidates r = [c1, c2]" "r_band c1 = MATCH"
    "map p_name (r_terms c1) = [name_exact_normalized, dob_full_match, id_number_match]"
    by (elim exE conjE)
  then show thesis by (intro that [of r c1]) simp_all
qed

lemma sample_conflict_candidate:
  obtains r c where "decide plain_lib (sample_bundle [sample_record, other_record]) = Some r"
    and "c \<in> set (d_candidates r)" and "map p_name (r_terms c) = [name_exact_normalized, dob_conflict]"
proof -
  from sample_decision obtain r c1 c2 where
    "decide plain_lib (sample_bundle [sample_record, other_record]) = Some r"
    "d_candidates r = [c1, c2]" "map p_name (r_terms c2) = [name_exact_normalized, dob_conflict]"
    by (elim exE conjE)
  then show thesis by (intro that [of r c2]) simp_all
qed

lemma sample_clear:
  "decide plain_lib (sample_bundle []) = Some \<lparr>d_disposition = CLEAR, d_auto_closed = True,
     d_top_score = None, d_candidates = []\<rparr>"
  by (simp add: decide_def score_bundle_def score_all_def sample_bundle_def name_frequency_def
      run_reason_def most_severe_def top_score_def)

section \<open>A common name\<close>

text \<open>Ten list entries with the subject's name and another nationality, and nothing else to
  compare: the common-name penalty applies to each.\<close>

definition common_subject :: subject where
  "common_subject = \<lparr>subj_name = Some ''Ivan Petrov'', original_script_name = None, aliases = [],
     subj_dob = None, nationality = Some ''AE'', pob = None, subj_documents = []\<rparr>"

definition common_record :: watch_record where
  "common_record = \<lparr>rec_id = ''r3'', rec_names = [''Ivan Petrov''], rec_dobs = [], rec_pobs = [],
     rec_nationalities = [''BH''], rec_documents = []\<rparr>"

definition common_bundle :: frozen_bundle where
  "common_bundle = \<lparr>b_subject = common_subject,
     b_candidates = replicate 10 \<lparr>candidate_id = ''c'', record_of = common_record\<rparr>,
     b_rule = DEFAULT_RULE, normalizer_version = NORMALIZER_VERSION, source_status = []\<rparr>"

lemma sample_codes: "map_of ISO2 ''AE'' \<noteq> None" "map_of ISO2 ''BH'' \<noteq> None"
  by (simp_all add: ISO2_def ISO2_A_I_def)

lemma sample_nationalities: "nationality_term L (Some ''AE'') [''BH''] = Some nationality_conflict"
  by (simp add: nationality_term_def country_def to_iso2_code [OF sample_codes(1)]
      to_iso2_code [OF sample_codes(2)] opt_or_def)

lemma common_found: "found_terms plain_lib common_subject common_record DEFAULT_RULE
    = [name_exact_normalized, nationality_conflict]"
  by (simp add: found_terms_def opt_list_def best_name_def common_subject_def common_record_def
      sample_variants sample_nationalities keep_best_def better_def dob_term_def parse_dob_def id_terms_def)

lemma common_best: "best_name plain_lib common_subject common_record \<noteq> None"
  by (simp add: best_name_def common_subject_def common_record_def sample_variants keep_best_def better_def)

lemma common_expected:
  "expected_terms plain_lib common_subject common_record DEFAULT_RULE None
    = [name_exact_normalized, nationality_conflict]"
  "expected_terms plain_lib common_subject common_record DEFAULT_RULE (Some 10)
    = [name_exact_normalized, nationality_conflict, common_name_penalty]"
  using common_best by (simp_all add: expected_terms_def penalised_def common_found CORROBORATING_def)

lemma option_map_replicate: "f x = Some y \<Longrightarrow> option_map f (replicate n x) = Some (replicate n y)"
  by (induction n) simp_all

lemma common_decision:
  obtains r c where "decide plain_lib common_bundle = Some r" and "c \<in> set (d_candidates r)"
    and "r_band c = CLEAR"
    and "map p_name (r_terms c) = [name_exact_normalized, nationality_conflict, common_name_penalty]"
proof -
  obtain ts where ts: "score_pair plain_lib common_subject common_record DEFAULT_RULE None = Some (dec 400000 6, ts)"
    "map t_name ts = [name_exact_normalized, nationality_conflict]"
    using default_pair [of plain_lib common_subject common_record None]
    by (auto simp: common_expected total_units_def)
  obtain us where us: "score_pair plain_lib common_subject common_record DEFAULT_RULE (Some 10) = Some (dec 250000 6, us)"
    "map t_name us = [name_exact_normalized, nationality_conflict, common_name_penalty]"
    using default_pair [of plain_lib common_subject common_record "Some 10"]
    by (auto simp: common_expected total_units_def)
  let ?c = "\<lparr>candidate_id = ''c'', record_of = common_record\<rparr>"
  have parts: "b_rule common_bundle = DEFAULT_RULE" "b_subject common_bundle = common_subject"
    "b_candidates common_bundle = replicate 10 ?c"
    by (simp_all only: common_bundle_def frozen_bundle.simps)
  have first: "score_all plain_lib common_bundle None = Some (replicate 10 (dec 400000 6, ts))"
    unfolding score_all_def parts by (rule option_map_replicate) (simp add: ts)
  have second: "score_all plain_lib common_bundle (Some 10) = Some (replicate 10 (dec 250000 6, us))"
    unfolding score_all_def parts by (rule option_map_replicate) (simp add: us)
  have "full_name_match ts"
    using ts(2) by (auto simp: full_name_match_def FULL_NAME_def list_ex_iff map_eq_Cons_conv)
  then have "name_frequency (replicate 10 (dec 400000 6, ts)) = 10"
    by (simp add: name_frequency_def)
  then have sb: "score_bundle plain_lib common_bundle = Some (replicate 10 (dec 250000 6, us))"
    by (simp add: score_bundle_def first second parts del: replicate.simps)
  obtain r where r: "decide plain_lib common_bundle = Some r"
    "d_candidates r = map2 (candidate_result_of DEFAULT_RULE) (replicate 10 ?c) (replicate 10 (dec 250000 6, us))"
    unfolding decide_def sb parts Option.bind.simps Let_def case_prod_beta by simp
  let ?x = "candidate_result_of DEFAULT_RULE ?c (dec 250000 6, us)"
  have mem: "?x \<in> set (d_candidates r)" by (simp add: r(2) zip_replicate)
  have band: "fst (band_with_reason (dec 250000 6) [name_exact_normalized, nationality_conflict, common_name_penalty]
     (rule_thresholds DEFAULT_RULE)) = CLEAR" by code_simp
  show thesis
    by (rule that [OF r(1) mem]) (simp_all add: candidate_result_of_def public_terms_def comp_def us(2) band)
qed

end
