(* ===== verification/Verdict.thy ===== *)
theory Verdict
  imports Samples
begin

text \<open>
  What \<open>decide\<close> guarantees. A candidate's result is that of \<open>score_pair\<close>; for a rule with decimal
  weights the float score and the float thresholds decide as exact integers would
  (\<open>exact_band\<close>, in millionths); the guards of auto-clear and of the conflict floor hold for every
  rule, and for the default rule the combinations of terms that reach MATCH, or that clear an
  exactly matching name, are found by checking every combination of terms (\<open>profiles_ok\<close>).
\<close>

lemma decide_candidates:
  assumes "decide L b = Some r"
  obtains freq where "length (d_candidates r) = length (b_candidates b)"
    and "\<And>i. i < length (b_candidates b) \<Longrightarrow>
       \<exists>sc ts. score_pair L (b_subject b) (record_of (b_candidates b ! i)) (b_rule b) freq = Some (sc, ts)
         \<and> d_candidates r ! i = candidate_result_of (b_rule b) (b_candidates b ! i) (sc, ts)"
proof -
  obtain scored freq where s: "score_all L b freq = Some scored"
    and c: "d_candidates r = map2 (candidate_result_of (b_rule b)) (b_candidates b) scored"
    using decide_parts [OF assms] by metis
  have n: "length scored = length (b_candidates b)"
    "\<forall>i < length (b_candidates b). score_pair L (b_subject b) (record_of (b_candidates b ! i)) (b_rule b) freq
       = Some (scored ! i)"
    using option_map_nth [OF s [unfolded score_all_def]] by auto
  show thesis
  proof (rule that)
    show "length (d_candidates r) = length (b_candidates b)" using n by (simp add: c)
  next
    fix i assume i: "i < length (b_candidates b)"
    then show "\<exists>sc ts. score_pair L (b_subject b) (record_of (b_candidates b ! i)) (b_rule b) freq = Some (sc, ts)
         \<and> d_candidates r ! i = candidate_result_of (b_rule b) (b_candidates b ! i) (sc, ts)"
      using n by (cases "scored ! i") (auto simp: c)
  qed
qed

lemma decide_nth:
  assumes "decide L b = Some r"
  shows "length (d_candidates r) = length (b_candidates b)"
    and "i < length (b_candidates b) \<Longrightarrow>
       \<exists>freq sc ts. score_pair L (b_subject b) (record_of (b_candidates b ! i)) (b_rule b) freq = Some (sc, ts)
         \<and> d_candidates r ! i = candidate_result_of (b_rule b) (b_candidates b ! i) (sc, ts)"
  by (rule decide_candidates [OF assms], blast)+

lemma decide_candidate:
  assumes "decide L b = Some r" and "c \<in> set (d_candidates r)"
  obtains cand freq sc ts where "cand \<in> set (b_candidates b)"
    and "score_pair L (b_subject b) (record_of cand) (b_rule b) freq = Some (sc, ts)"
    and "c = candidate_result_of (b_rule b) cand (sc, ts)"
proof -
  obtain i where i: "i < length (b_candidates b)" "c = d_candidates r ! i"
    using assms(2) decide_nth(1) [OF assms(1)] by (auto simp: in_set_conv_nth)
  show thesis using decide_nth(2) [OF assms(1) i(1)] i(2) that nth_mem [OF i(1)] by auto
qed

lemma decide_covers:
  assumes "decide L b = Some r" and "cand \<in> set (b_candidates b)"
  obtains freq sc ts where "score_pair L (b_subject b) (record_of cand) (b_rule b) freq = Some (sc, ts)"
    and "candidate_result_of (b_rule b) cand (sc, ts) \<in> set (d_candidates r)"
proof -
  obtain i where i: "i < length (b_candidates b)" "cand = b_candidates b ! i"
    using assms(2) by (auto simp: in_set_conv_nth)
  have "d_candidates r ! i \<in> set (d_candidates r)" using i(1) decide_nth(1) [OF assms(1)] by simp
  then show thesis using decide_nth(2) [OF assms(1) i(1)] i(2) that by auto
qed

lemma candidate_result_simps [simp]:
  "r_band (candidate_result_of rule cand (sc, ts)) = fst (band_with_reason sc (map t_name ts) (rule_thresholds rule))"
  "map p_name (r_terms (candidate_result_of rule cand (sc, ts))) = map t_name ts"
  "r_score (candidate_result_of rule cand (sc, ts)) = sc"
  "r_record_id (candidate_result_of rule cand (sc, ts)) = rec_id (record_of cand)"
  "r_candidate_id (candidate_result_of rule cand (sc, ts)) = candidate_id cand"
  by (simp_all add: candidate_result_of_def public_terms_def comp_def)

section \<open>Bands in exact arithmetic\<close>

definition floored :: "term_name list \<Rightarrow> bool" where
  \<comment> \<open>a full or initials name match together with a conflicting date of birth or document\<close>
  "floored names = (list_ex (\<lambda>t. t \<in> set (take 4 NAME_TERMS)) names \<and> list_ex (\<lambda>t. t \<in> set CONFLICTS) names)"

definition exact_band :: "int \<Rightarrow> int \<Rightarrow> int \<Rightarrow> term_name list \<Rightarrow> disposition" where
  "exact_band lo hi units names =
    (if hi \<le> units then MATCH else if lo \<le> units then REVIEW
     else if floored names then REVIEW else CLEAR)"

lemma band_exact:
  assumes rule: "decimal_rule rule u"
    and th: "rule_thresholds rule = \<lparr>clear_below = dec lo 6, match_at = dec hi 6\<rparr>"
    and bounds: "\<bar>lo\<bar> \<le> 10 ^ 9" "\<bar>hi\<bar> \<le> 10 ^ 9"
    and sp: "score_pair L s w rule freq = Some (sc, ts)"
  shows "fst (band_with_reason sc (map t_name ts) (rule_thresholds rule))
    = exact_band lo hi (total_units u (map t_name ts)) (map t_name ts)"
  using score_pair_exact [OF rule sp] expected_units_bound [OF rule, of L s w freq]
    dec_le_iff [OF bounds(1), of "total_units u (map t_name ts)"]
    dec_le_iff [OF bounds(2), of "total_units u (map t_name ts)"]
  by (simp add: band_with_reason_def exact_band_def floored_def th score_pair_names(1) [OF sp])

lemma default_band:
  assumes "score_pair L s w DEFAULT_RULE freq = Some (sc, ts)"
  shows "fst (band_with_reason sc (map t_name ts) (rule_thresholds DEFAULT_RULE))
    = exact_band 350000 900000 (total_units default_units (map t_name ts)) (map t_name ts)"
  by (rule band_exact [OF decimal_default _ _ _ assms]) (simp_all add: DEFAULT_RULE_def dec_scale)

section \<open>What the default rule can decide\<close>

text \<open>The facts about single combinations, checked for every combination of terms.\<close>

definition strong_match :: "term_name list \<Rightarrow> bool" where
  "strong_match ts = (id_number_match \<in> set ts \<or>
     (dob_full_match \<in> set ts \<and> nationality_match \<in> set ts \<and>
      (name_exact_normalized \<in> set ts \<or> name_token_reordered \<in> set ts \<and> pob_match \<in> set ts)))"

definition weak_clear :: "term_name list \<Rightarrow> bool" where
  "weak_clear ts = (common_name_penalty \<in> set ts \<and> nationality_conflict \<in> set ts)"

definition with_penalty :: "term_name list \<Rightarrow> term_name list list" where
  "with_penalty ts = (if list_ex (\<lambda>t. t \<in> CORROBORATING) ts then [ts] else [ts, ts @ [common_name_penalty]])"

definition profile_ok :: "term_name list \<Rightarrow> bool" where
  "profile_ok ts = (case exact_band 350000 900000 (total_units default_units ts) ts of
       MATCH \<Rightarrow> strong_match ts
     | REVIEW \<Rightarrow> True
     | CLEAR \<Rightarrow> name_exact_normalized \<in> set ts \<longrightarrow> weak_clear ts)"

lemma profiles_ok: "list_all (\<lambda>p. list_all profile_ok (with_penalty p)) PROFILES"
  by code_simp

lemma expected_profile_ok: "profile_ok (expected_terms L s w rule freq)"
  using profiles_ok found_terms_profile [of L s w rule]
  by (auto simp: list_all_iff expected_terms_def penalised_def with_penalty_def split: if_splits)


section \<open>Properties of a decision\<close>

lemma run_reason_cases:
  assumes "run_reason bands st = (d, a, why)"
  shows "a \<longleftrightarrow> (\<forall>b \<in> set bands. b = CLEAR) \<and> (\<forall>s \<in> set st. snd s \<noteq> ''unavailable'')"
    and "a \<longleftrightarrow> d = CLEAR"
    and "severity (most_severe bands) \<le> severity d"
    and "d \<noteq> most_severe bands \<Longrightarrow> d = REVIEW \<and> (\<exists>s \<in> set st. snd s = ''unavailable'')"
  using assms most_severe_CLEAR [of bands]
  by (auto simp: run_reason_def Let_def list_ex_iff case_prod_beta simp del: split_paired_Ex
      split: if_splits)

lemma decide_run_reason:
  assumes "decide L b = Some r"
  obtains why where "run_reason (map r_band (d_candidates r)) (source_status b)
    = (d_disposition r, d_auto_closed r, why)"
  using decide_parts [OF assms] by metis

lemma decide_CLEAR:
  assumes "decide L b = Some r"
  shows "d_disposition r = CLEAR \<longleftrightarrow> d_auto_closed r"
proof -
  obtain why where rr: "run_reason (map r_band (d_candidates r)) (source_status b)
    = (d_disposition r, d_auto_closed r, why)" using decide_run_reason [OF assms] .
  from run_reason_cases(2) [OF rr] show ?thesis by simp
qed

lemma decide_auto_closed:
  assumes "decide L b = Some r" and "d_auto_closed r"
  shows "\<forall>s \<in> set (source_status b). snd s \<noteq> ''unavailable''"
    and "\<forall>c \<in> set (d_candidates r). r_band c = CLEAR"
proof -
  obtain why where rr: "run_reason (map r_band (d_candidates r)) (source_status b)
    = (d_disposition r, d_auto_closed r, why)" using decide_run_reason [OF assms(1)] .
  show "\<forall>s \<in> set (source_status b). snd s \<noteq> ''unavailable''"
    and "\<forall>c \<in> set (d_candidates r). r_band c = CLEAR"
    using run_reason_cases(1) [OF rr] assms(2) by auto
qed

lemma band_not_CLEAR_blocks:
  assumes "decide L b = Some r" and "c \<in> set (d_candidates r)" and "r_band c \<noteq> CLEAR"
  shows "d_disposition r \<noteq> CLEAR \<and> \<not> d_auto_closed r"
proof -
  obtain why where "run_reason (map r_band (d_candidates r)) (source_status b)
    = (d_disposition r, d_auto_closed r, why)" using decide_run_reason [OF assms(1)] .
  from run_reason_cases(1,2) [OF this] show ?thesis using assms(2,3) by auto
qed

text \<open>C2. A run closes as CLEAR without a human exactly when every candidate's band is CLEAR and no
  source was unavailable; nothing else is auto-closed.\<close>

theorem auto_clear_guard:
  assumes "decide L b = Some r"
  shows "(d_auto_closed r \<longleftrightarrow> d_disposition r = CLEAR) \<and>
    (d_auto_closed r \<longleftrightarrow> (\<forall>c \<in> set (d_candidates r). r_band c = CLEAR)
       \<and> (\<forall>s \<in> set (source_status b). snd s \<noteq> ''unavailable''))"
proof -
  obtain why where "run_reason (map r_band (d_candidates r)) (source_status b)
    = (d_disposition r, d_auto_closed r, why)" using decide_run_reason [OF assms] .
  from run_reason_cases(1,2) [OF this] show ?thesis by simp
qed

lemma auto_clear_guard_witness:
  "\<exists>r. decide plain_lib (sample_bundle [sample_record, other_record]) = Some r \<and> \<not> d_auto_closed r"
proof -
  obtain r where r: "decide plain_lib (sample_bundle [sample_record, other_record]) = Some r"
    "d_disposition r = MATCH" using sample_decision by auto
  show ?thesis using auto_clear_guard [OF r(1)] r by auto
qed

text \<open>Every candidate is judged, in order, the run is at least as severe as each of its
  candidates, and a MATCH comes from a candidate banded MATCH.\<close>

theorem every_candidate_judged:
  assumes "decide L b = Some r"
  shows "map r_record_id (d_candidates r) = map (\<lambda>c. rec_id (record_of c)) (b_candidates b) \<and>
    (\<forall>c \<in> set (d_candidates r). r_band c \<le> d_disposition r) \<and>
    (d_disposition r = MATCH \<longrightarrow> (\<exists>c \<in> set (d_candidates r). r_band c = MATCH))"
proof -
  obtain why where rr: "run_reason (map r_band (d_candidates r)) (source_status b)
    = (d_disposition r, d_auto_closed r, why)" using decide_run_reason [OF assms] .
  have ids: "map r_record_id (d_candidates r) = map (\<lambda>c. rec_id (record_of c)) (b_candidates b)"
    using decide_nth [OF assms] by (intro nth_equalityI) (auto dest!: decide_nth(2) [OF assms])
  have sev: "r_band c \<le> d_disposition r" if "c \<in> set (d_candidates r)" for c
    using most_severe_ge [of "r_band c" "map r_band (d_candidates r)"] run_reason_cases(3) [OF rr] that
    unfolding less_eq_disposition_def by force
  have "\<exists>c \<in> set (d_candidates r). r_band c = MATCH" if m: "d_disposition r = MATCH"
  proof -
    have d: "most_severe (map r_band (d_candidates r)) = MATCH"
      using run_reason_cases(4) [OF rr] m by fastforce
    then have "d_candidates r \<noteq> []" by (auto simp: most_severe_def)
    then show ?thesis using most_severe_mem [of "map r_band (d_candidates r)"] d by (simp add: image_iff) metis
  qed
  then show ?thesis using ids sev by blast
qed

lemma every_candidate_judged_witness:
  "\<exists>r. decide plain_lib (sample_bundle [sample_record, other_record]) = Some r \<and>
     map r_record_id (d_candidates r) = [''r1'', ''r2'']"
proof -
  obtain r where r: "decide plain_lib (sample_bundle [sample_record, other_record]) = Some r"
    using sample_decision by auto
  from every_candidate_judged [OF r] show ?thesis
    using r by (simp add: sample_bundle_def sample_rec_ids)
qed

text \<open>C1. Floating point never moves a candidate across a threshold: for a rule whose weights and
  thresholds are decimals, the score is the float nearest to the exact sum of the weights and the
  band is the one exact integer arithmetic gives.\<close>

theorem bands_are_exact:
  assumes "decide L b = Some r" and "c \<in> set (d_candidates r)"
    and "decimal_rule (b_rule b) u"
    and "rule_thresholds (b_rule b) = \<lparr>clear_below = dec lo 6, match_at = dec hi 6\<rparr>"
    and "\<bar>lo\<bar> \<le> 10 ^ 9" and "\<bar>hi\<bar> \<le> 10 ^ 9"
  shows "r_score c = dec (total_units u (map p_name (r_terms c))) 6 \<and>
    r_band c = exact_band lo hi (total_units u (map p_name (r_terms c))) (map p_name (r_terms c))"
proof -
  obtain cand freq sc ts where sp: "score_pair L (b_subject b) (record_of cand) (b_rule b) freq = Some (sc, ts)"
    and c: "c = candidate_result_of (b_rule b) cand (sc, ts)"
    using decide_candidate [OF assms(1,2)] by metis
  show ?thesis
    using score_pair_exact [OF assms(3) sp] band_exact [OF assms(3-6) sp]
    by (simp add: c score_pair_names(1) [OF sp])
qed

lemma default_is_decimal:
  "decimal_rule (b_rule (sample_bundle rs)) default_units"
  "rule_thresholds (b_rule (sample_bundle rs)) = \<lparr>clear_below = dec 350000 6, match_at = dec 900000 6\<rparr>"
  using decimal_default by (simp_all add: sample_bundle_def) (simp add: DEFAULT_RULE_def dec_scale)

lemma bands_are_exact_witness:
  "\<exists>r c. decide plain_lib (sample_bundle [sample_record, other_record]) = Some r \<and>
     c \<in> set (d_candidates r) \<and> r_score c = dec 1400000 6"
proof -
  obtain r c where r: "decide plain_lib (sample_bundle [sample_record, other_record]) = Some r"
    "c \<in> set (d_candidates r)"
    "map p_name (r_terms c) = [name_exact_normalized, dob_full_match, id_number_match]"
    using sample_match_candidate .
  show ?thesis
    using bands_are_exact [OF r(1,2) default_is_decimal] r by (auto simp: total_units_def)
qed

lemma default_candidate:
  assumes "decide L b = Some r" and "c \<in> set (d_candidates r)" and "b_rule b = DEFAULT_RULE"
  shows "profile_ok (map p_name (r_terms c))" and
    "r_band c = exact_band 350000 900000 (total_units default_units (map p_name (r_terms c))) (map p_name (r_terms c))"
proof -
  obtain cand freq sc ts where sp: "score_pair L (b_subject b) (record_of cand) DEFAULT_RULE freq = Some (sc, ts)"
    and c: "c = candidate_result_of DEFAULT_RULE cand (sc, ts)"
    using decide_candidate [OF assms(1,2)] assms(3) by metis
  show "profile_ok (map p_name (r_terms c))"
    using expected_profile_ok by (simp add: c score_pair_names(1) [OF sp])
  show "r_band c = exact_band 350000 900000 (total_units default_units (map p_name (r_terms c))) (map p_name (r_terms c))"
    using default_band [OF sp] by (simp add: c)
qed

text \<open>C3. Under the default rule a MATCH is never a name match alone: it has a matching document
  number, or a full date of birth, the nationality and an exact (or reordered, with the place of
  birth) name.\<close>

theorem match_needs_corroboration:
  assumes "decide L b = Some r" and "b_rule b = DEFAULT_RULE" and "c \<in> set (d_candidates r)"
    and "r_band c = MATCH"
  shows "strong_match (map p_name (r_terms c))"
  using default_candidate [OF assms(1,3,2)] assms(4) by (simp add: profile_ok_def)

lemma match_needs_corroboration_witness:
  "\<exists>r c. decide plain_lib (sample_bundle [sample_record, other_record]) = Some r \<and>
     c \<in> set (d_candidates r) \<and> strong_match (map p_name (r_terms c))"
proof -
  obtain r c where r: "decide plain_lib (sample_bundle [sample_record, other_record]) = Some r"
    "c \<in> set (d_candidates r)" "r_band c = MATCH" using sample_match_candidate .
  then show ?thesis
    using match_needs_corroboration [OF r(1) _ r(2,3)] by (auto simp: sample_bundle_def)
qed

text \<open>Under the default rule a candidate whose name matches exactly is cleared only when the
  common-name penalty and a nationality conflict both apply.\<close>

theorem exact_name_cleared_only_if_weak:
  assumes "decide L b = Some r" and "b_rule b = DEFAULT_RULE" and "c \<in> set (d_candidates r)"
    and "name_exact_normalized \<in> p_name ` set (r_terms c)" and "r_band c = CLEAR"
  shows "weak_clear (map p_name (r_terms c))"
  using default_candidate [OF assms(1,3,2)] assms(4,5) by (simp add: profile_ok_def)

lemma exact_name_cleared_only_if_weak_witness:
  "\<exists>r c. decide plain_lib common_bundle = Some r \<and> c \<in> set (d_candidates r) \<and> r_band c = CLEAR
     \<and> weak_clear (map p_name (r_terms c))"
proof -
  obtain r c where r: "decide plain_lib common_bundle = Some r" "c \<in> set (d_candidates r)"
    "r_band c = CLEAR"
    "map p_name (r_terms c) = [name_exact_normalized, nationality_conflict, common_name_penalty]"
    using common_decision .
  have rule: "b_rule common_bundle = DEFAULT_RULE" by (simp add: common_bundle_def)
  have "name_exact_normalized \<in> set (map p_name (r_terms c))" by (simp add: r(4))
  then show ?thesis
    using exact_name_cleared_only_if_weak [OF r(1) rule r(2) _ r(3)] r by auto
qed

text \<open>The conflict floor: a candidate whose name matches and whose date of birth or document
  conflicts is never cleared, and its run is never CLEAR nor closed without a human.\<close>

theorem conflict_never_clears:
  assumes "decide L b = Some r" and "c \<in> set (d_candidates r)" and "floored (map p_name (r_terms c))"
  shows "r_band c \<noteq> CLEAR \<and> d_disposition r \<noteq> CLEAR \<and> \<not> d_auto_closed r"
proof -
  obtain cand freq sc ts where c: "c = candidate_result_of (b_rule b) cand (sc, ts)"
    using decide_candidate [OF assms(1,2)] by metis
  have "r_band c \<noteq> CLEAR"
    using assms(3) by (auto simp: c band_with_reason_def floored_def split: if_splits)
  then show ?thesis using band_not_CLEAR_blocks [OF assms(1,2)] by blast
qed

lemma conflict_never_clears_witness:
  "\<exists>r. decide plain_lib (sample_bundle [sample_record, other_record]) = Some r \<and> d_disposition r \<noteq> CLEAR"
proof -
  obtain r c where r: "decide plain_lib (sample_bundle [sample_record, other_record]) = Some r"
    "c \<in> set (d_candidates r)" "map p_name (r_terms c) = [name_exact_normalized, dob_conflict]"
    using sample_conflict_candidate .
  have "floored (map p_name (r_terms c))" unfolding r(3) by code_simp
  from conflict_never_clears [OF r(1,2) this] show ?thesis using r(1) by blast
qed

end
