(* ===== verification/Blocking.thy ===== *)
theory Blocking
  imports Names
begin

text \<open>
  \<open>app/screening/blocking.py\<close>: the inverted index and recall-first candidate generation.
  The two \<open>defaultdict(set)\<close> tables are functions into sets (an absent key reads as the empty
  set). A dictionary of hits is given by its key set and the keys hit per record; the order
  in which Python visits a set does not reach the result, which is sorted.
\<close>

definition DEFAULT_CAP :: nat where
  "DEFAULT_CAP = 200"

record candidate =
  cand_record_id :: string
  matched_keys :: "string list"

record blocking_index =
  by_key :: "string \<Rightarrow> string set"
  keys_of :: "string \<Rightarrow> string set"

definition empty_index :: blocking_index where
  "empty_index = \<lparr>by_key = (\<lambda>_. {}), keys_of = (\<lambda>_. {})\<rparr>"

definition index_add :: "string \<Rightarrow> string \<Rightarrow> blocking_index \<Rightarrow> blocking_index" where
  "index_add rid key ix = ix
     \<lparr>by_key := (by_key ix)(key := insert rid (by_key ix key)),
      keys_of := (keys_of ix)(rid := insert key (keys_of ix rid))\<rparr>"

definition index_name :: "textlib \<Rightarrow> string \<Rightarrow> string \<Rightarrow> blocking_index \<Rightarrow> blocking_index" where
  "index_name L rid name ix =
     fold (index_add rid) (sorted_list_of_set (name_keys L (Some name))) ix"

definition index_record ::
    "textlib \<Rightarrow> string \<times> string list \<Rightarrow> blocking_index \<Rightarrow> blocking_index" where
  "index_record L r ix = (case r of (rid, names) \<Rightarrow> fold (index_name L rid) names ix)"

definition build_index :: "textlib \<Rightarrow> (string \<times> string list) list \<Rightarrow> blocking_index" where
  "build_index L records = fold (index_record L) records empty_index"

definition token_key_groups :: "textlib \<Rightarrow> string option \<Rightarrow> string set list" where
  "token_key_groups L name = filter (\<lambda>g. g \<noteq> {}) (map (token_keys L) (tokens L name))"

definition hit_keys :: "blocking_index \<Rightarrow> string set \<Rightarrow> string \<Rightarrow> string set" where
  "hit_keys ix subject_keys rid = Set.filter (\<lambda>key. rid \<in> by_key ix key) subject_keys"

definition hit_ids :: "blocking_index \<Rightarrow> string set \<Rightarrow> string list" where
  "hit_ids ix subject_keys = sorted_list_of_set (\<Union>key \<in> subject_keys. by_key ix key)"

definition is_full :: "string set list \<Rightarrow> string set \<Rightarrow> bool" where
  "is_full groups keys = list_all (\<lambda>g. g \<inter> keys \<noteq> {}) groups"

definition ordered_hits :: "textlib \<Rightarrow> blocking_index \<Rightarrow> string option \<Rightarrow> nat \<Rightarrow> (string \<times> string set) list" where
  "ordered_hits L ix subject_name cap =
    (let groups = token_key_groups L subject_name;
         subject_keys = \<Union> (set groups);
         hits = map (\<lambda>rid. (rid, hit_keys ix subject_keys rid)) (hit_ids ix subject_keys);
         full = filter (\<lambda>(rid, keys). is_full groups keys) hits;
         partial = sort_key (\<lambda>(rid, keys). (- int (card keys), rid))
           (filter (\<lambda>(rid, keys). \<not> is_full groups keys) hits)
     in full @ take cap partial)"

definition candidates :: "textlib \<Rightarrow> blocking_index \<Rightarrow> string option \<Rightarrow> nat \<Rightarrow> candidate list" where
  "candidates L ix subject_name cap =
     map (\<lambda>(rid, keys). \<lparr>cand_record_id = rid, matched_keys = sorted_list_of_set keys\<rparr>)
       (ordered_hits L ix subject_name cap)"

section \<open>The index is the relation between records and their keys\<close>

definition record_keys :: "textlib \<Rightarrow> (string \<times> string list) list \<Rightarrow> string \<Rightarrow> string set" where
  "record_keys L records rid =
     (\<Union>(r, names) \<in> set records. if r = rid then \<Union>n \<in> set names. name_keys L (Some n) else {})"

lemma finite_token_keys [simp]: "finite (token_keys L t)"
  by (simp add: token_keys_def own_keys_def Let_def)

lemma finite_name_keys [simp]: "finite (name_keys L n)"
  by (simp add: name_keys_def)

lemma index_add_tables [simp]:
  "key \<in> keys_of (index_add rid k ix) r \<longleftrightarrow> key = k \<and> r = rid \<or> key \<in> keys_of ix r"
  "r \<in> by_key (index_add rid k ix) key \<longleftrightarrow> key = k \<and> r = rid \<or> r \<in> by_key ix key"
  by (auto simp: index_add_def)

lemma fold_index_add:
  "key \<in> keys_of (fold (index_add rid) ks ix) r \<longleftrightarrow> r = rid \<and> key \<in> set ks \<or> key \<in> keys_of ix r"
  "r \<in> by_key (fold (index_add rid) ks ix) key \<longleftrightarrow> r = rid \<and> key \<in> set ks \<or> r \<in> by_key ix key"
  by (induction ks arbitrary: ix) auto

lemma fold_index_name:
  "key \<in> keys_of (fold (index_name L rid) ns ix) r \<longleftrightarrow>
     r = rid \<and> (\<exists>n \<in> set ns. key \<in> name_keys L (Some n)) \<or> key \<in> keys_of ix r"
  "r \<in> by_key (fold (index_name L rid) ns ix) key \<longleftrightarrow>
     r = rid \<and> (\<exists>n \<in> set ns. key \<in> name_keys L (Some n)) \<or> r \<in> by_key ix key"
  by (induction ns arbitrary: ix) (auto simp: index_name_def fold_index_add)

lemma fold_index_record:
  "key \<in> keys_of (fold (index_record L) rs ix) r \<longleftrightarrow> key \<in> record_keys L rs r \<or> key \<in> keys_of ix r"
  "r \<in> by_key (fold (index_record L) rs ix) key \<longleftrightarrow> key \<in> record_keys L rs r \<or> r \<in> by_key ix key"
  by (induction rs arbitrary: ix)
    (auto simp: index_record_def fold_index_name record_keys_def split: if_splits)

lemma build_index_keys:
  "keys_of (build_index L rs) r = record_keys L rs r"
  "r \<in> by_key (build_index L rs) key \<longleftrightarrow> key \<in> record_keys L rs r"
  by (auto simp: build_index_def fold_index_record empty_index_def)

section \<open>Candidates: sound, complete for full matches, capped for partial ones\<close>

definition subject_keys_of :: "textlib \<Rightarrow> string option \<Rightarrow> string set" where
  "subject_keys_of L name = \<Union> (set (token_key_groups L name))"

lemma subject_keys_name_keys: "subject_keys_of L name = name_keys L name"
  by (auto simp: subject_keys_of_def token_key_groups_def name_keys_def)

lemma hit_keys_index:
  "hit_keys (build_index L rs) ks rid = ks \<inter> record_keys L rs rid"
  by (auto simp: hit_keys_def build_index_keys)

lemma set_hit_ids:
  assumes "finite ks"
  shows "set (hit_ids (build_index L rs) ks) = {rid. ks \<inter> record_keys L rs rid \<noteq> {}}"
proof -
  have "rid \<in> by_key (build_index L rs) key \<Longrightarrow> rid \<in> fst ` set rs" for rid key
    by (force simp: build_index_keys record_keys_def split: if_splits)
  then have "finite (\<Union>key \<in> ks. by_key (build_index L rs) key)"
    using assms by (intro finite_UN_I) (auto intro: finite_subset [of _ "fst ` set rs"])
  then show ?thesis by (auto simp: hit_ids_def build_index_keys)
qed

lemma ordered_hits_set:
  "set (map fst (ordered_hits L (build_index L rs) name cap))
     \<subseteq> {rid. name_keys L name \<inter> record_keys L rs rid \<noteq> {}}"
  using set_hit_ids [of "subject_keys_of L name" L rs]
  by (auto simp: ordered_hits_def Let_def subject_keys_name_keys
      simp flip: subject_keys_of_def dest!: in_set_takeD)

lemma candidates_ids:
  "cand_record_id ` set (candidates L ix name cap) = set (map fst (ordered_hits L ix name cap))"
  by (force simp: candidates_def)

lemma full_hit_returned:
  assumes shared: "name_keys L name \<inter> record_keys L rs rid \<noteq> {}"
    and full: "\<forall>g \<in> set (token_key_groups L name). g \<inter> record_keys L rs rid \<noteq> {}"
  shows "rid \<in> cand_record_id ` set (candidates L (build_index L rs) name cap)"
proof -
  have "\<forall>g \<in> set (token_key_groups L name). g \<inter> (name_keys L name \<inter> record_keys L rs rid) \<noteq> {}"
    using full subject_keys_name_keys [of L name] by (fastforce simp: subject_keys_of_def)
  then have "is_full (token_key_groups L name) (name_keys L name \<inter> record_keys L rs rid)"
    by (simp add: is_full_def list_all_iff)
  moreover have "rid \<in> set (hit_ids (build_index L rs) (name_keys L name))"
    using shared by (simp add: set_hit_ids)
  ultimately have "rid \<in> set (map fst (ordered_hits L (build_index L rs) name cap))"
    by (force simp: ordered_hits_def Let_def hit_keys_index subject_keys_name_keys
        simp flip: subject_keys_of_def)
  then show ?thesis by (simp only: candidates_ids)
qed

lemma partial_hit_returned:
  assumes shared: "name_keys L name \<inter> record_keys L rs rid \<noteq> {}"
    and cap: "card {rid. name_keys L name \<inter> record_keys L rs rid \<noteq> {}} \<le> cap"
  shows "rid \<in> cand_record_id ` set (candidates L (build_index L rs) name cap)"
proof -
  let ?ix = "build_index L rs" and ?ks = "name_keys L name"
  let ?hits = "map (\<lambda>rid. (rid, hit_keys ?ix ?ks rid)) (hit_ids ?ix ?ks)"
  have "distinct (hit_ids ?ix ?ks)" by (simp add: hit_ids_def)
  then have "length ?hits = card (set (hit_ids ?ix ?ks))" by (simp add: distinct_card)
  then have len: "length ?hits \<le> cap" using cap by (simp add: set_hit_ids)
  have "length (filter P ?hits) \<le> cap" for P
    using len length_filter_le [of P ?hits] by linarith
  then have "fst ` set ?hits \<subseteq> set (map fst (ordered_hits L ?ix name cap))"
    by (auto simp: ordered_hits_def Let_def subject_keys_name_keys
        simp flip: subject_keys_of_def)
  moreover have "rid \<in> fst ` set ?hits" using shared by (force simp: set_hit_ids)
  ultimately show ?thesis by (auto simp: candidates_ids)
qed

lemma name_keys_record:
  "(rid, names) \<in> set rs \<Longrightarrow> n \<in> set names \<Longrightarrow> name_keys L (Some n) \<subseteq> record_keys L rs rid"
  unfolding record_keys_def by (rule UN_upper [THEN subset_trans [rotated]]) (auto)

lemma hits_shape:
  assumes "c \<in> set (candidates L (build_index L rs) name cap)"
  shows "matched_keys c = sorted_list_of_set (name_keys L name \<inter> record_keys L rs (cand_record_id c))
    \<and> name_keys L name \<inter> record_keys L rs (cand_record_id c) \<noteq> {}"
proof -
  obtain rid ks where c: "(rid, ks) \<in> set (ordered_hits L (build_index L rs) name cap)"
    "c = \<lparr>cand_record_id = rid, matched_keys = sorted_list_of_set ks\<rparr>"
    using assms by (auto simp: candidates_def)
  then have "ks = name_keys L name \<inter> record_keys L rs rid"
    by (auto simp: ordered_hits_def Let_def hit_keys_index subject_keys_name_keys
        simp flip: subject_keys_of_def dest!: in_set_takeD)
  moreover have "rid \<in> set (map fst (ordered_hits L (build_index L rs) name cap))"
    using c(1) by force
  then have "name_keys L name \<inter> record_keys L rs rid \<noteq> {}" using ordered_hits_set by blast
  ultimately show ?thesis by (simp add: c(2))
qed

lemma name_recalled:
  assumes "(rid, names) \<in> set rs" and "n \<in> set names"
    and "set (tokens L name) \<subseteq> set (tokens L (Some n))"
    and "t \<in> set (tokens L name)" and "2 \<le> length t"
  shows "rid \<in> cand_record_id ` set (candidates L (build_index L rs) name cap)"
proof (rule full_hit_returned)
  have sub: "name_keys L name \<subseteq> record_keys L rs rid"
    using name_keys_mono [OF assms(3)] name_keys_record [OF assms(1,2)] by (rule order_trans)
  have le: "token_keys L u \<subseteq> name_keys L name" if "u \<in> set (tokens L name)" for u
    using that by (auto simp: name_keys_def)
  have "token_keys L t \<noteq> {}" using assms(5) by simp
  then show "name_keys L name \<inter> record_keys L rs rid \<noteq> {}"
    using le [OF assms(4)] sub by blast
  show "\<forall>g \<in> set (token_key_groups L name). g \<inter> record_keys L rs rid \<noteq> {}"
    using le sub unfolding token_key_groups_def by auto
qed

text \<open>C4. Blocking recall: a record is a candidate for every subject name all of whose tokens
  occur in one of its listed names, as soon as one of those tokens has two letters. The cap on
  partial matches never drops it.\<close>

theorem listed_name_recalled:
  assumes "(rid, names) \<in> set rs" and "n \<in> set names"
    and "set (tokens L name) \<subseteq> set (tokens L (Some n))"
    and "t \<in> set (tokens L name)" and "2 \<le> length t"
  shows "rid \<in> cand_record_id ` set (candidates L (build_index L rs) name cap)"
  by (rule name_recalled [OF assms])

lemma sample_tokens:
  "tokens plain_lib (Some ''Bill GATES'') = [''bill'', ''gates'']"
  "tokens plain_lib (Some ''GATES, Bill'') = [''gates'', ''bill'']"
  by code_simp+

lemma listed_name_recalled_witness:
  "''r1'' \<in> cand_record_id ` set (candidates plain_lib
     (build_index plain_lib [(''r1'', [''GATES, Bill''])]) (Some ''Bill GATES'') 0)"
  by (rule listed_name_recalled [of _ "[''GATES, Bill'']" _ "''GATES, Bill''" _ _ "''bill''"])
    (simp_all add: sample_tokens)



end
