(* ===== verification/Kyb_Evidence.thy ===== *)
theory Kyb_Evidence
  imports Prelude Binary64
begin

text \<open>
  The rows business verification reads and the signals it writes: \<open>app/models/evidence.py\<close>,
  \<open>field_comparison.py\<close>, \<open>verification_run.py\<close> and the \<open>Signal\<close> class of \<open>app/scoring/engine.py\<close>.
  A time is in microseconds since the epoch, UTC, a date the number of days of
  \<open>date.toordinal\<close>. A signal's description is a fixed text with values inserted: \<open>detail\<close>
  carries the values and leaves the wording out, which nothing reads.
\<close>

section \<open>Rows\<close>

record evidence =
  ev_id :: string
  ev_run :: string
  source :: string
  tier :: int
  ev_field :: "string option"
  raw_value :: "string option"
  normalized_value :: "string option"
  raw_payload :: "(string \<times> json) list option"
  fetched_at :: "int option"
  created_at :: int
  ev_confidence :: "rat option"
  attribution :: "(string \<times> json) list option"

record field_comparison =
  fc_id :: string
  evidence_id :: "string option"
  field_name :: string
  submitted_value :: "string option"
  discovered_value :: "string option"
  match_status :: string

record verification_run =
  run_id :: string
  submission_id :: string
  entity_id :: string

section \<open>Signals\<close>

datatype layer = Entity | Infrastructure | Representation | Risk

datatype direction = Trust | Elevated

datatype detail =
    Fixed
  | People nat "string list list"
  | Bankruptcies "(json \<times> json \<times> json \<times> json) list"
  | Exclusions "(json \<times> json \<times> json) list"
  | Days int
  | Label string
  | Values "string option" "string option"
  | Method string
  | Reuse nat int

record signal =
  sig_name :: string
  sig_layer :: layer
  sig_direction :: direction
  sig_weight :: rat
  sig_detail :: detail
  evidence_ids :: "string list"

definition signal_of :: "string \<Rightarrow> layer \<Rightarrow> direction \<Rightarrow> rat \<Rightarrow> detail \<Rightarrow> string list \<Rightarrow> signal" where
  "signal_of name l d w det ids = \<lparr>sig_name = name, sig_layer = l, sig_direction = d,
     sig_weight = w, sig_detail = det, evidence_ids = ids\<rparr>"

lemma signal_of_simps [simp]:
  "sig_name (signal_of n l d w t ids) = n" "sig_layer (signal_of n l d w t ids) = l"
  "sig_direction (signal_of n l d w t ids) = d" "sig_weight (signal_of n l d w t ids) = w"
  "evidence_ids (signal_of n l d w t ids) = ids"
  by (simp_all add: signal_of_def)

definition on_field :: "string \<Rightarrow> evidence \<Rightarrow> bool" where
  "on_field f e = (ev_field e = Some f)"

definition ids :: "evidence list \<Rightarrow> string list" where
  "ids rows = map ev_id rows"

lemma set_ids [simp]: "set (ids rows) = ev_id ` set rows"
  by (simp add: ids_def)

lemma ids_Nil [simp]: "ids rows = [] \<longleftrightarrow> rows = []"
  by (simp add: ids_def)

definition flag :: "evidence \<Rightarrow> bool" where
  \<comment> \<open>\<open>(e.normalized_value or e.raw_value or "").lower() in ("true", "1", "yes")\<close>\<close>
  "flag e = (str_lower (text_or (normalized_value e) (text_or (raw_value e) ''''))
     \<in> {''true'', ''1'', ''yes''})"

definition payload :: "evidence \<Rightarrow> (string \<times> json) list" where
  \<comment> \<open>\<open>e.raw_payload or {}\<close>\<close>
  "payload e = (case raw_payload e of None \<Rightarrow> [] | Some d \<Rightarrow> d)"

definition json_or :: "json \<Rightarrow> string \<Rightarrow> json" where
  "json_or j s = (if jtruthy j then j else JText s)"

definition json_texts :: "json \<Rightarrow> string list" where
  \<comment> \<open>the lists of labels in the payload of an officer row are lists of text\<close>
  "json_texts j = (case j of
       JList xs \<Rightarrow> List.map_filter (\<lambda>x. case x of JText t \<Rightarrow> Some t | _ \<Rightarrow> None) xs
     | _ \<Rightarrow> [])"

definition ev_int :: "evidence \<Rightarrow> int" where
  \<comment> \<open>\<open>int(e.normalized_value or e.raw_value or "0")\<close>, 0 when that raises\<close>
  "ev_int e = (case py_int (text_or (normalized_value e) (text_or (raw_value e) ''0'')) of
       None \<Rightarrow> 0 | Some n \<Rightarrow> n)"

definition iso_text :: "json \<Rightarrow> string" where
  \<comment> \<open>\<open>str(j)\<close> as far as it can be an ISO date; the text of any other value never is one\<close>
  "iso_text j = (case j of JText s \<Rightarrow> s | JInt n \<Rightarrow> str_of_int n | _ \<Rightarrow> '''')"

section \<open>Dates\<close>

definition is_leap :: "int \<Rightarrow> bool" where
  "is_leap y = (y mod 4 = 0 \<and> (y mod 100 \<noteq> 0 \<or> y mod 400 = 0))"

definition month_lengths :: "int \<Rightarrow> int list" where
  "month_lengths y = [31, if is_leap y then 29 else 28, 31, 30, 31, 30, 31, 31, 30, 31, 30, 31]"

definition days_before_year :: "int \<Rightarrow> int" where
  "days_before_year y = (let p = y - 1 in p * 365 + p div 4 - p div 100 + p div 400)"

definition ymd_ordinal :: "int \<Rightarrow> int \<Rightarrow> int \<Rightarrow> int option" where
  "ymd_ordinal y m d =
    (if 1 \<le> y \<and> y \<le> 9999 \<and> 1 \<le> m \<and> m \<le> 12 \<and> 1 \<le> d \<and> d \<le> month_lengths y ! nat (m - 1)
     then Some (days_before_year y + sum_list (take (nat (m - 1)) (month_lengths y)) + d)
     else None)"

definition week_one_monday :: "int \<Rightarrow> int" where
  "week_one_monday y =
    (let first = days_before_year y + 1; weekday = (first + 6) mod 7; monday = first - weekday
     in if 3 < weekday then monday + 7 else monday)"

definition week_ordinal :: "int \<Rightarrow> int \<Rightarrow> int \<Rightarrow> int option" where
  "week_ordinal y w d =
    (if \<not> (1 \<le> y \<and> y \<le> 9999) then None
     else let long = (let weekday = (days_before_year y + 1) mod 7
                      in weekday = 4 \<or> weekday = 3 \<and> is_leap y)
     in if 1 \<le> w \<and> (w \<le> 52 \<or> w = 53 \<and> long) \<and> 1 \<le> d \<and> d \<le> 7
        then let n = week_one_monday y + (w - 1) * 7 + (d - 1)
             in if 1 \<le> n \<and> n \<le> 3652059 then Some n else None
        else None)"

definition digits :: "string \<Rightarrow> int option" where
  "digits s = (if s \<noteq> [] \<and> list_all is_digit s then Some (foldl (\<lambda>n c. 10 * n + digit_value c) 0 s) else None)"

text \<open>\<open>date.fromisoformat\<close> of Python 3.11 and later: \<open>YYYY-MM-DD\<close>, \<open>YYYYMMDD\<close> and the week
  dates \<open>YYYY-Www-D\<close>, \<open>YYYY-Www\<close>, \<open>YYYYWwwD\<close> and \<open>YYYYWww\<close>; None is the \<open>ValueError\<close>.\<close>

definition iso_date :: "string \<Rightarrow> int option" where
  "iso_date s = do {
     y \<leftarrow> (if length s \<in> {7, 8, 10} then digits (take 4 s) else None);
     let rest = drop 4 s;
     let dashed = (take 1 rest = ''-'');
     let body = (if dashed then tl rest else rest);
     if take 1 body = ''W'' then do {
       w \<leftarrow> digits (take 2 (tl body));
       let day = drop 3 body;
       if day = [] then week_ordinal y w 1
       else if dashed then (if hd day = CHR ''-'' \<and> length day = 2 then do {d \<leftarrow> digits (tl day); week_ordinal y w d} else None)
       else (if length day = 1 then do {d \<leftarrow> digits day; week_ordinal y w d} else None)
     }
     else if dashed then
       (if length s = 10 \<and> body ! 2 = CHR ''-'' then do {
          m \<leftarrow> digits (take 2 body); d \<leftarrow> digits (drop 3 body); ymd_ordinal y m d} else None)
     else
       (if length s = 8 then do {m \<leftarrow> digits (take 2 body); d \<leftarrow> digits (drop 2 body); ymd_ordinal y m d} else None)
   }"

definition epoch_ordinal :: int where "epoch_ordinal = 719163"

definition date_of :: "int \<Rightarrow> int" where
  \<comment> \<open>\<open>t.date().toordinal()\<close>\<close>
  "date_of t = t div (86400 * 10 ^ 6) + epoch_ordinal"

lemma iso_date_samples:
  "iso_date ''1970-01-01'' = Some 719163" "iso_date ''20240229'' = Some 738945"
  "iso_date ''2024-W09-4'' = Some 738945" "iso_date ''2023-02-29'' = None" "iso_date ''2024-2-1'' = None"
  by code_simp+

end
