(* ===== verification/Entity_Signals.thy ===== *)
theory Entity_Signals
  imports Kyb_Evidence
begin

text \<open>
  Layer 1 of \<open>app/scoring/signals.py\<close>, entity legitimacy: sanctions and registry evidence, tax-ID,
  LinkedIn, officer screening and public-records rows. One definition per group of signals, in the
  order the code appends them.
\<close>

definition OFFICER_SCREENING_SOURCE :: string where
  "OFFICER_SCREENING_SOURCE = ''officer_screening''"

definition OFFICER_SCREENING_FIELD :: string where
  "OFFICER_SCREENING_FIELD = ''officer_screening_result''"

definition PUBLIC_RECORDS_SOURCE :: string where "PUBLIC_RECORDS_SOURCE = ''public_records''"

definition PUBLIC_RECORD_FIELD :: string where "PUBLIC_RECORD_FIELD = ''public_record''"

definition OPEN_BANKRUPTCY_WINDOW_DAYS :: int where "OPEN_BANKRUPTCY_WINDOW_DAYS = 36 * 30"

section \<open>Officers and owners\<close>

definition person_labels :: "evidence \<Rightarrow> string list" where
  "person_labels e = json_texts (jget (payload e) ''relationships'') @ json_texts (jget (payload e) ''roles'')"

definition describe_people :: "evidence list \<Rightarrow> detail" where
  "describe_people rows = People (length rows)
     (map (\<lambda>e. if str_join '', '' (person_labels e) = [] then [''unspecified role''] else person_labels e) rows)"

definition officer_rows :: "string \<Rightarrow> evidence list \<Rightarrow> evidence list" where
  "officer_rows result rows = filter (\<lambda>e. source e = OFFICER_SCREENING_SOURCE
     \<and> on_field OFFICER_SCREENING_FIELD e \<and> normalized_value e = Some result) rows"

definition officer_screening_signals :: "evidence list \<Rightarrow> signal list" where
  "officer_screening_signals rows =
    (let hit = officer_rows ''MATCH'' rows; review = officer_rows ''REVIEW'' rows
     in (if hit \<noteq> []
         then [signal_of ''officer_sanctions_match'' Entity Elevated (dec 1 0) (describe_people hit) (ids hit)]
         else [])
      @ (if review \<noteq> []
         then [signal_of ''officer_screening_review'' Entity Elevated (dec 4 1) (describe_people review) (ids review)]
         else []))"

section \<open>Court dockets and federal exclusions\<close>

definition filed_recently :: "evidence \<Rightarrow> bool" where
  "filed_recently e =
    (let filed = jget (payload e) ''filed_date''
     in jtruthy filed \<and> (case (fetched_at e, iso_date (take 10 (iso_text filed))) of
          (Some t, Some filed_on) \<Rightarrow> date_of t - filed_on \<le> OPEN_BANKRUPTCY_WINDOW_DAYS
        | _ \<Rightarrow> False))"

definition strong_records :: "evidence list \<Rightarrow> evidence list" where
  "strong_records rows = filter (\<lambda>e. source e = PUBLIC_RECORDS_SOURCE
     \<and> on_field PUBLIC_RECORD_FIELD e \<and> normalized_value e = Some ''strong'') rows"

definition open_bankruptcy :: "evidence \<Rightarrow> bool" where
  "open_bankruptcy e = (raw_value e = Some ''bankruptcy''
     \<and> jget (payload e) ''status'' = JText ''open'' \<and> filed_recently e)"

definition active_exclusion :: "evidence \<Rightarrow> bool" where
  "active_exclusion e = (raw_value e = Some ''federal_exclusion''
     \<and> jget (payload e) ''status'' = JText ''active''
     \<and> jget (payload e) ''classification'' \<noteq> JText ''Individual'')"

definition cite_bankruptcy :: "evidence \<Rightarrow> json \<times> json \<times> json \<times> json" where
  "cite_bankruptcy e =
    (json_or (jget (payload e) ''chapter'') ''?'', json_or (jget (payload e) ''docket_number'') ''?'',
     json_or (jget (payload e) ''court'') ''an unknown court'',
     json_or (jget (payload e) ''filed_date'') ''on an unknown date'')"

definition cite_exclusion :: "evidence \<Rightarrow> json \<times> json \<times> json" where
  "cite_exclusion e =
    (json_or (jget (payload e) ''agency'') ''a federal agency'',
     json_or (jget (payload e) ''exclusion_type'') ''type not given'',
     json_or (jget (payload e) ''active_date'') ''an unknown date'')"

definition public_records_signals :: "evidence list \<Rightarrow> signal list" where
  "public_records_signals rows =
    (let records = strong_records rows;
         bankruptcies = filter open_bankruptcy records;
         exclusions = filter active_exclusion records
     in (if bankruptcies \<noteq> []
         then [signal_of ''public_records_open_bankruptcy'' Entity Elevated (dec 8 1)
                 (Bankruptcies (map cite_bankruptcy bankruptcies)) (ids bankruptcies)]
         else [])
      @ (if exclusions \<noteq> []
         then [signal_of ''public_records_active_federal_exclusion'' Entity Elevated (dec 9 1)
                 (Exclusions (map cite_exclusion exclusions)) (ids exclusions)]
         else []))"

section \<open>Tax identifiers\<close>

definition first_value :: "evidence list \<Rightarrow> string" where
  \<comment> \<open>\<open>(rows[0].normalized_value or "").lower() if rows else ""\<close>\<close>
  "first_value rows = (case rows of [] \<Rightarrow> '''' | e # _ \<Rightarrow> str_lower (text_or (normalized_value e) ''''))"

definition tax_id_signals :: "evidence list \<Rightarrow> signal list" where
  "tax_id_signals rows =
    (let own = filter (\<lambda>e. source e = ''tax_id'') rows;
         status_ev = filter (on_field ''tax_id_status'') own;
         match_ev = filter (on_field ''tax_id_name_match'') own;
         status = first_value status_ev;
         name_match = first_value match_ev
     in if status_ev = [] then []
        else if status = ''not_found''
        then [signal_of ''tax_id_not_found'' Entity Elevated (dec 5 1) Fixed [ev_id (hd status_ev)]]
        else
          (if status = ''inactive''
           then [signal_of ''tax_id_inactive_or_dissolved'' Entity Elevated (dec 4 1) Fixed [ev_id (hd status_ev)]]
           else [])
        @ (if name_match = ''mismatch''
           then [signal_of ''tax_id_name_mismatch'' Entity Elevated (dec 5 1) Fixed [ev_id (hd match_ev)]]
           else [])
        @ (if status = ''verified'' \<and> match_ev = []
           then [signal_of ''tax_id_verified_name_unconfirmed'' Entity Trust (dec 25 2) Fixed [ev_id (hd status_ev)]]
           else [])
        @ (if status = ''verified'' \<and> name_match = ''match''
           then [signal_of ''tax_id_verified_active'' Entity Trust (dec 5 1) Fixed
                   [ev_id (hd status_ev), ev_id (hd match_ev)]]
           else []))"

section \<open>LinkedIn rows\<close>

definition LI_ESTABLISHED_EMPLOYEES :: int where "LI_ESTABLISHED_EMPLOYEES = 10"
definition LI_ESTABLISHED_FOLLOWERS :: int where "LI_ESTABLISHED_FOLLOWERS = 500"
definition LI_THIN_EMPLOYEES :: int where "LI_THIN_EMPLOYEES = 5"
definition LI_THIN_FOLLOWERS :: int where "LI_THIN_FOLLOWERS = 50"
definition LI_RECENT_DAYS :: int where "LI_RECENT_DAYS = 365"
definition LI_ABSENT_WEIGHT :: rat where "LI_ABSENT_WEIGHT = dec 15 2"

definition li_rows :: "evidence list \<Rightarrow> string \<Rightarrow> evidence option" where
  \<comment> \<open>the dictionary comprehension: the last row of a field wins\<close>
  "li_rows rows = map_of (rev (List.map_filter (\<lambda>e. case ev_field e of
       None \<Rightarrow> None
     | Some f \<Rightarrow> if source e = ''linkedin'' \<and> take 9 f = ''linkedin_'' then Some (f, e) else None) rows))"

definition li_int :: "evidence option \<Rightarrow> int option" where
  "li_int e = (case e of None \<Rightarrow> None
     | Some x \<Rightarrow> (case normalized_value x of None \<Rightarrow> None | Some s \<Rightarrow> py_int s))"

definition or_zero :: "int option \<Rightarrow> int" where
  "or_zero x = (case x of None \<Rightarrow> 0 | Some n \<Rightarrow> n)"

definition li_footprint :: "(string \<Rightarrow> evidence option) \<Rightarrow> bool \<times> bool" where
  "li_footprint rows =
    (let employees = li_int (rows ''linkedin_employee_count'');
         followers = li_int (rows ''linkedin_followers'')
     in (LI_ESTABLISHED_EMPLOYEES \<le> or_zero employees \<or> LI_ESTABLISHED_FOLLOWERS \<le> or_zero followers,
         employees \<noteq> None \<and> followers \<noteq> None \<and> or_zero employees < LI_THIN_EMPLOYEES
           \<and> or_zero followers < LI_THIN_FOLLOWERS))"

definition li_found :: "evidence \<Rightarrow> bool" where
  "li_found presence = (normalized_value presence = Some ''found'')"

definition linkedin_entity_signals :: "evidence list \<Rightarrow> signal list" where
  "linkedin_entity_signals rows = (case li_rows rows ''linkedin_presence'' of
       None \<Rightarrow> []
     | Some presence \<Rightarrow>
         if \<not> li_found presence then []
         else if \<not> fst (li_footprint (li_rows rows)) then []
         else [signal_of ''linkedin_presence_corroborates_entity'' Entity Trust (dec 1 1) Fixed [ev_id presence]])"

section \<open>The entity layer\<close>

definition registry_rows :: "evidence list \<Rightarrow> evidence list" where
  "registry_rows rows = filter (\<lambda>e. tier e = 1
     \<and> source e \<notin> {''tax_id'', OFFICER_SCREENING_SOURCE, PUBLIC_RECORDS_SOURCE}) rows"

definition sanctions_signals :: "evidence list \<Rightarrow> signal list" where
  "sanctions_signals tier1 =
    (let hits = filter (on_field ''sanctions_hit'') tier1 @ filter (on_field ''sanctions_risk_flag'') tier1;
         screened = filter (on_field ''sanctions_screened'') tier1
     in if hits \<noteq> [] then [signal_of ''sanctions_hit'' Entity Elevated (dec 1 0) Fixed (ids hits)]
        else if screened \<noteq> [] then [signal_of ''sanctions_cleared'' Entity Trust (dec 2 1) Fixed (ids screened)]
        else [])"

definition registry_name_signals :: "evidence list \<Rightarrow> signal list" where
  "registry_name_signals tier1 =
    (let named = filter (on_field ''company_name'') tier1
     in if named \<noteq> [] then [signal_of ''registry_name_confirmed'' Entity Trust (dec 6 1) Fixed (ids named)]
        else [signal_of ''registry_name_unconfirmed'' Entity Elevated (dec 4 1) Fixed (ids (take 1 tier1))])"

definition registry_number_signals :: "evidence list \<Rightarrow> signal list" where
  "registry_number_signals tier1 =
    (let numbered = filter (on_field ''registration_number'') tier1
     in if numbered \<noteq> []
        then [signal_of ''registration_number_present'' Entity Trust (dec 4 1) Fixed (ids numbered)] else [])"

definition active_status :: "evidence \<Rightarrow> bool" where
  "active_status e = (truthy (normalized_value e)
     \<and> list_ex (\<lambda>s. str_in s (str_lower (text_or (normalized_value e) '''')))
         [''active'', ''incorporated'', ''live'', ''registered''])"

definition registry_status_signals :: "evidence list \<Rightarrow> signal list" where
  "registry_status_signals tier1 =
    (let status = filter (on_field ''registration_status'') tier1; active = filter active_status status
     in if status = [] then []
        else if active \<noteq> []
        then [signal_of ''registry_status_active'' Entity Trust (dec 3 1) Fixed (ids active)]
        else [signal_of ''registry_status_inactive'' Entity Elevated (dec 3 1) Fixed (ids (take 1 status))])"

definition conflict_signals :: "evidence list \<Rightarrow> signal list" where
  "conflict_signals tier1 =
    (let conflicts = filter (on_field ''registry_identity_conflict'') tier1
     in if conflicts \<noteq> []
        then [signal_of ''conflicting_company_identities'' Entity Elevated (dec 5 1) Fixed (ids conflicts)] else [])"

definition secondary_entity_signals :: "evidence list \<Rightarrow> signal list" where
  "secondary_entity_signals rows = tax_id_signals rows @ linkedin_entity_signals rows
     @ officer_screening_signals rows @ public_records_signals rows"

definition entity_legitimacy_signals :: "evidence list \<Rightarrow> signal list" where
  "entity_legitimacy_signals rows =
    (let tier1 = registry_rows rows
     in if tier1 = []
        then sanctions_signals tier1
           @ [signal_of ''no_registry_evidence'' Entity Elevated (dec 1 0) Fixed []]
           @ secondary_entity_signals rows
        else sanctions_signals tier1 @ registry_name_signals tier1 @ registry_number_signals tier1
           @ registry_status_signals tier1 @ conflict_signals tier1 @ secondary_entity_signals rows)"

end
