(* ===== verification/Layer_Signals.thy ===== *)
theory Layer_Signals
  imports Entity_Signals
begin

text \<open>
  Layers 2 to 4 of \<open>app/scoring/signals.py\<close>: infrastructure, representation and fraud/staging
  signals, with the look-up of other submissions from the same network operator. Today's date, the
  current time and the look-back setting are arguments.
\<close>

section \<open>Infrastructure\<close>

definition tier2 :: "evidence list \<Rightarrow> evidence list" where
  "tier2 rows = filter (\<lambda>e. tier e = 2) rows"

definition tier3 :: "evidence list \<Rightarrow> evidence list" where
  "tier3 rows = filter (\<lambda>e. tier e = 3) rows"

definition domain_age_signals :: "evidence list \<Rightarrow> signal list" where
  "domain_age_signals rows = (case filter (on_field ''domain_age_days'') rows of
       [] \<Rightarrow> []
     | best # _ \<Rightarrow>
         if 365 * 3 \<le> ev_int best
         then [signal_of ''long_lived_domain'' Infrastructure Trust (dec 5 1) (Days (ev_int best)) [ev_id best]]
         else if 365 \<le> ev_int best
         then [signal_of ''established_domain'' Infrastructure Trust (dec 25 2) (Days (ev_int best)) [ev_id best]]
         else [])"

definition flag_signal :: "string \<Rightarrow> string \<Rightarrow> direction \<Rightarrow> rat \<Rightarrow> evidence list \<Rightarrow> signal list" where
  \<comment> \<open>the block repeated for each true/false row of a domain\<close>
  "flag_signal f name d w rows = (case filter (on_field f) rows of
       [] \<Rightarrow> []
     | e # _ \<Rightarrow> if flag e then [signal_of name Infrastructure d w Fixed [ev_id e]] else [])"

definition recently_registered_signals :: "evidence list \<Rightarrow> signal list" where
  "recently_registered_signals =
     flag_signal ''recently_registered'' ''recently_registered_domain'' Elevated (dec 6 1)"

definition has_mx_signals :: "evidence list \<Rightarrow> signal list" where
  "has_mx_signals = flag_signal ''mx_present'' ''has_mx_records'' Trust (dec 3 1)"

definition no_mx_signals :: "evidence list \<Rightarrow> signal list" where
  "no_mx_signals = flag_signal ''no_mx'' ''no_mx_records'' Elevated (dec 4 1)"

definition spf_signals :: "evidence list \<Rightarrow> signal list" where
  "spf_signals = flag_signal ''spf_present'' ''spf_configured'' Trust (dec 2 1)"

definition dkim_signals :: "evidence list \<Rightarrow> signal list" where
  "dkim_signals = flag_signal ''dkim_present'' ''dkim_configured'' Trust (dec 15 2)"

definition ssl_signals :: "evidence list \<Rightarrow> signal list" where
  "ssl_signals rows =
    (let ssl = filter (\<lambda>e. on_field ''ssl_issuer'' e \<or> on_field ''ssl_valid'' e) rows
     in if ssl \<noteq> [] then [signal_of ''ssl_present'' Infrastructure Trust (dec 2 1) Fixed (ids (take 1 ssl))] else [])"

definition infrastructure_legitimacy_signals :: "evidence list \<Rightarrow> signal list" where
  "infrastructure_legitimacy_signals rows =
    (let t2 = tier2 rows
     in if t2 = [] then [signal_of ''infrastructure_data_unavailable'' Infrastructure Elevated (dec 3 1) Fixed []]
        else domain_age_signals t2 @ recently_registered_signals t2 @ has_mx_signals t2 @ no_mx_signals t2
           @ spf_signals t2 @ dkim_signals t2 @ ssl_signals t2)"

section \<open>Representation\<close>

definition fc_by_field :: "field_comparison list \<Rightarrow> string \<Rightarrow> field_comparison option" where
  "fc_by_field fcs = map_of (rev (map (\<lambda>fc. (field_name fc, fc)) fcs))"

definition field_labels :: "(string \<times> string \<times> rat) list" where
  "field_labels = [(''company_name'', ''Company name'', dec 5 1),
     (''country_iso'', ''Jurisdiction/country'', dec 3 1),
     (''billing_address'', ''Billing address'', dec 25 2)]"

definition fc_ids :: "field_comparison \<Rightarrow> string list" where
  \<comment> \<open>\<open>[fc.evidence_id] if fc.evidence_id else []\<close>\<close>
  "fc_ids fc = (case evidence_id fc of None \<Rightarrow> [] | Some i \<Rightarrow> if i = [] then [] else [i])"

definition compare_field :: "field_comparison list \<Rightarrow> string \<times> string \<times> rat \<Rightarrow> signal list" where
  "compare_field fcs item = (case item of (name, label, weight) \<Rightarrow>
     (case fc_by_field fcs name of
        None \<Rightarrow> []
      | Some fc \<Rightarrow>
          if match_status fc = ''match''
          then [signal_of (''consistent_'' @ name) Representation Trust weight (Label label) (fc_ids fc)]
          else if match_status fc = ''mismatch''
          then [signal_of (name @ ''_mismatch'') Representation Elevated weight
                  (Values (submitted_value fc) (discovered_value fc)) (fc_ids fc)]
          else []))"

definition comparison_signals :: "field_comparison list \<Rightarrow> signal list" where
  "comparison_signals fcs = concat (map (compare_field fcs) field_labels)"

definition ip_signals :: "evidence list \<Rightarrow> signal list" where
  "ip_signals rows = (case filter (on_field ''ip_country_mismatch'') rows of
       e # _ \<Rightarrow>
         if flag e then [signal_of ''ip_country_mismatch'' Representation Elevated (dec 3 1) Fixed [ev_id e]] else []
     | [] \<Rightarrow>
         let same = filter (\<lambda>e. on_field ''ip_country_match'' e \<and> flag e) rows
         in if same \<noteq> [] then [signal_of ''ip_country_match'' Representation Trust (dec 2 1) Fixed (ids (take 1 same))]
            else [])"

definition web_contact_signals :: "evidence list \<Rightarrow> signal list" where
  "web_contact_signals rows =
    (let mails = filter (\<lambda>e. on_field ''web_contacts_email'' e
         \<and> jget (payload e) ''on_company_domain'' = JBool True) rows
     in if mails \<noteq> []
        then [signal_of ''web_contact_email_found'' Representation Trust (dec 15 2) Fixed (ids (take 1 mails))]
        else [])"

definition intake_signals :: "evidence list \<Rightarrow> signal list" where
  "intake_signals rows =
    (let free = filter (on_field ''free_email_domain'') rows
     in if free \<noteq> [] then [signal_of ''free_email_domain'' Representation Elevated (dec 3 1) Fixed (ids free)] else [])"

definition OWNERSHIP_TRUST_WEIGHT :: rat where "OWNERSHIP_TRUST_WEIGHT = dec 25 2"

definition ownership_signals :: "evidence list \<Rightarrow> signal list" where
  "ownership_signals rows =
    (let own = filter (\<lambda>e. source e = ''ownership'' \<and> on_field ''domain_ownership_verified'' e
         \<and> str_lower (text_or (normalized_value e) '''') = ''true'') rows
     in case own of [] \<Rightarrow> []
        | e # _ \<Rightarrow> [signal_of ''domain_ownership_verified'' Representation Trust OWNERSHIP_TRUST_WEIGHT
             (Method (text_or (raw_value e) ''a verified method'')) (ids own)])"

subsection \<open>LinkedIn\<close>

definition li_thin_signals :: "(string \<Rightarrow> evidence option) \<Rightarrow> evidence \<Rightarrow> signal list" where
  "li_thin_signals li presence =
    (if snd (li_footprint li)
     then [signal_of ''linkedin_absent_or_thin'' Representation Elevated LI_ABSENT_WEIGHT Fixed
             (ids (List.map_filter (\<lambda>x. x)
                [Some presence, li ''linkedin_employee_count'', li ''linkedin_followers'']))]
     else [])"

definition li_website_signals :: "(string \<Rightarrow> evidence option) \<Rightarrow> evidence \<Rightarrow> field_comparison option \<Rightarrow> signal list" where
  "li_website_signals li presence website = (case website of
       None \<Rightarrow> []
     | Some fc \<Rightarrow>
         if match_status fc = ''mismatch''
         then [signal_of ''linkedin_website_mismatch'' Representation Elevated (dec 25 2)
                 (Values (discovered_value fc) (submitted_value fc))
                 (if fc_ids fc \<noteq> [] then fc_ids fc else [ev_id presence])]
         else if fst (li_footprint li) \<and> match_status fc = ''match''
         then [signal_of ''linkedin_established_presence'' Representation Trust (dec 3 1) Fixed
                 ([ev_id presence] @ fc_ids fc)]
         else [])"

definition li_created_signals :: "int \<Rightarrow> (string \<Rightarrow> evidence option) \<Rightarrow> signal list" where
  "li_created_signals today li = (case li ''linkedin_page_created'' of
       None \<Rightarrow> []
     | Some created \<Rightarrow>
         (case Option.bind (normalized_value created) iso_date of
            None \<Rightarrow> []
          | Some day \<Rightarrow>
              if 0 \<le> today - day \<and> today - day < LI_RECENT_DAYS
              then [signal_of ''linkedin_recently_created'' Representation Elevated (dec 2 1)
                      (Days (today - day)) [ev_id created]]
              else []))"

definition li_requester_signals :: "(string \<Rightarrow> evidence option) \<Rightarrow> signal list" where
  "li_requester_signals li = (case li ''linkedin_requester_match'' of
       None \<Rightarrow> []
     | Some e \<Rightarrow>
         if normalized_value e = Some ''true''
         then [signal_of ''linkedin_requester_associated'' Representation Trust (dec 2 1) Fixed [ev_id e]] else [])"

definition linkedin_signals :: "int \<Rightarrow> evidence list \<Rightarrow> field_comparison list \<Rightarrow> signal list" where
  "linkedin_signals today rows fcs = (case li_rows rows ''linkedin_presence'' of
       None \<Rightarrow> []
     | Some presence \<Rightarrow>
         if \<not> li_found presence
         then [signal_of ''linkedin_absent_or_thin'' Representation Elevated LI_ABSENT_WEIGHT Fixed [ev_id presence]]
         else li_thin_signals (li_rows rows) presence
           @ li_website_signals (li_rows rows) presence (fc_by_field fcs ''linkedin_website'')
           @ li_created_signals today (li_rows rows) @ li_requester_signals (li_rows rows))"

definition evidence_signals :: "int \<Rightarrow> evidence list \<Rightarrow> field_comparison list \<Rightarrow> signal list" where
  "evidence_signals today rows fcs = ip_signals rows @ web_contact_signals rows @ intake_signals rows
     @ linkedin_signals today rows fcs @ ownership_signals rows"

definition representation_confidence_signals :: "int \<Rightarrow> evidence list \<Rightarrow> field_comparison list \<Rightarrow> signal list" where
  "representation_confidence_signals today rows fcs =
    (if fcs = []
     then signal_of ''no_field_comparisons'' Representation Elevated (dec 3 1) Fixed []
       # evidence_signals today rows fcs
     else let found = comparison_signals fcs @ evidence_signals today rows fcs
       in if found = [] then [signal_of ''all_fields_unverified'' Representation Elevated (dec 4 1) Fixed []]
          else found)"

section \<open>Fraud and staging\<close>

text \<open>What the look-up of other submissions reads: every evidence row and run of the database, the
  clock and the window setting; \<open>query_ok\<close> is False when the query raises.\<close>

record reuse_query =
  all_rows :: "evidence list"
  all_runs :: "verification_run list"
  this_run :: string
  now :: int
  window_setting :: "string option"
  query_ok :: bool

definition DEFAULT_ASN_REUSE_WINDOW_DAYS :: int where "DEFAULT_ASN_REUSE_WINDOW_DAYS = 30"

definition asn_reuse_window_days :: "string option \<Rightarrow> int" where
  "asn_reuse_window_days env = (case py_int (case env of None \<Rightarrow> '''' | Some s \<Rightarrow> s) of
       None \<Rightarrow> DEFAULT_ASN_REUSE_WINDOW_DAYS
     | Some days \<Rightarrow> if 0 < days then days else DEFAULT_ASN_REUSE_WINDOW_DAYS)"

definition current_asns :: "evidence list \<Rightarrow> string list" where
  "current_asns rows = remdups (map str_upper (filter (\<lambda>v. v \<noteq> [])
     (map (\<lambda>e. str_strip (text_or (normalized_value e) (text_or (raw_value e) ''''))) rows)))"

definition reusing :: "reuse_query \<Rightarrow> string list \<Rightarrow> int \<Rightarrow> evidence \<Rightarrow> verification_run \<Rightarrow> bool" where
  "reusing q asns cutoff e r = (ev_run e = run_id r \<and> on_field ''ip_asn'' e
     \<and> (case normalized_value e of None \<Rightarrow> False | Some v \<Rightarrow> v \<in> set asns)
     \<and> cutoff \<le> created_at e \<and> ev_run e \<noteq> this_run q
     \<and> (case find (\<lambda>x. run_id x = this_run q) (all_runs q) of
          None \<Rightarrow> True
        | Some cur \<Rightarrow> submission_id r \<noteq> submission_id cur \<and> entity_id r \<noteq> entity_id cur))"

definition reuse_count :: "reuse_query \<Rightarrow> string list \<Rightarrow> int \<Rightarrow> nat" where
  \<comment> \<open>\<open>count(distinct submission_id)\<close> over the join\<close>
  "reuse_count q asns cutoff = length (remdups (map (submission_id \<circ> snd)
     (filter (\<lambda>(e, r). reusing q asns cutoff e r) (List.product (all_rows q) (all_runs q)))))"

definition cross_submission_reuse_signals :: "reuse_query \<Rightarrow> evidence list \<Rightarrow> signal list" where
  "cross_submission_reuse_signals q asn_rows =
    (let asns = current_asns asn_rows;
         days = asn_reuse_window_days (window_setting q);
         n = reuse_count q asns (now q - days * (86400 * 10 ^ 6))
     in if asns = [] \<or> \<not> query_ok q then []
        else if 3 \<le> n then [signal_of ''ip_asn_reuse_high'' Risk Elevated (dec 6 1) (Reuse n days) (ids asn_rows)]
        else if 1 \<le> n then [signal_of ''ip_asn_reuse'' Risk Elevated (dec 3 1) (Reuse n days) (ids asn_rows)]
        else [])"

definition sanctions_fraud_signals :: "evidence list \<Rightarrow> signal list" where
  "sanctions_fraud_signals rows =
    (let hits = filter (on_field ''sanctions_hit'') rows @ filter (on_field ''sanctions_risk_flag'') rows
     in if hits \<noteq> [] then [signal_of ''sanctions_hit_fraud_flag'' Risk Elevated (dec 1 0) Fixed (ids hits)] else [])"

definition staging_signals :: "evidence list \<Rightarrow> signal list" where
  "staging_signals rows =
    (let recent = filter (on_field ''recently_registered'') (tier2 rows);
         no_mx = filter (on_field ''no_mx'') (tier2 rows)
     in if list_ex flag recent \<and> list_ex flag no_mx
        then [signal_of ''recently_registered_no_mx'' Risk Elevated (dec 7 1) Fixed (ids (recent @ no_mx))]
        else if list_ex flag recent
        then [signal_of ''recently_registered_domain_risk'' Risk Elevated (dec 4 1) Fixed (ids recent)]
        else if list_ex flag no_mx
        then [signal_of ''no_mx_risk'' Risk Elevated (dec 3 1) Fixed (ids no_mx)]
        else [])"

definition long_lived_signals :: "evidence list \<Rightarrow> signal list" where
  "long_lived_signals rows = (case filter (on_field ''domain_age_days'') (tier2 rows) of
       [] \<Rightarrow> []
     | best # _ \<Rightarrow>
         if 365 * 3 \<le> ev_int best
         then [signal_of ''long_lived_domain_trust'' Risk Trust (dec 5 1) (Days (ev_int best)) [ev_id best]] else [])"

definition anonymized_signals :: "evidence list \<Rightarrow> signal list" where
  \<comment> \<open>the identifiers come from a set, in an unspecified order\<close>
  "anonymized_signals rows =
    (let found = filter (on_field ''ip_anonymized_network'') rows @ filter (on_field ''ip_hosting'') rows
           @ filter (on_field ''ip_vpn'') rows @ filter (on_field ''ip_proxy'') rows
     in if found \<noteq> []
        then [signal_of ''datacenter_or_anonymized_ip'' Risk Elevated (dec 5 1) Fixed (remdups (ids found))] else [])"

definition suspicious_asn_signals :: "evidence list \<Rightarrow> signal list" where
  "suspicious_asn_signals rows =
    (let asn = filter (on_field ''ip_suspicious_asn'') rows
     in if asn \<noteq> [] then [signal_of ''suspicious_asn'' Risk Elevated (dec 3 1) Fixed (ids asn)] else [])"

definition reuse_signals :: "reuse_query option \<Rightarrow> evidence list \<Rightarrow> signal list" where
  "reuse_signals q rows =
    (let asn = filter (on_field ''ip_asn'') rows
     in case q of None \<Rightarrow> [] | Some q' \<Rightarrow> if asn \<noteq> [] then cross_submission_reuse_signals q' asn else [])"

definition footprint_signals :: "evidence list \<Rightarrow> signal list" where
  "footprint_signals rows =
    (let thin = filter (on_field ''web_thin_footprint'') (tier3 rows);
         staff = filter (on_field ''web_employee_footprint'') (tier3 rows)
     in if thin \<noteq> [] then [signal_of ''thin_website'' Risk Elevated (dec 35 2) Fixed (ids thin)]
        else if staff \<noteq> [] then [signal_of ''active_employee_footprint'' Risk Trust (dec 3 1) Fixed (ids staff)]
        else [])"

definition brand_signals :: "evidence list \<Rightarrow> signal list" where
  "brand_signals rows =
    (let brand = filter (on_field ''web_brand'') (tier3 rows)
     in if brand \<noteq> [] \<and> filter (on_field ''web_thin_footprint'') (tier3 rows) = []
        then [signal_of ''stable_web_presence'' Risk Trust (dec 2 1) Fixed (ids (take 1 brand))] else [])"

definition no_risk_signals :: "evidence list \<Rightarrow> signal list" where
  "no_risk_signals rows =
    (if tier2 rows = [] \<and> tier3 rows = []
     then [signal_of ''fraud_signals_unavailable'' Risk Elevated (dec 2 1) Fixed []]
     else [signal_of ''no_fraud_signals_detected'' Risk Trust (dec 5 1) Fixed (ids (take 2 (tier2 rows @ tier3 rows)))])"

definition fraud_staging_risk_signals :: "reuse_query option \<Rightarrow> evidence list \<Rightarrow> signal list" where
  "fraud_staging_risk_signals q rows =
    (let found = sanctions_fraud_signals rows @ staging_signals rows @ long_lived_signals rows
           @ anonymized_signals rows @ suspicious_asn_signals rows @ reuse_signals q rows
           @ footprint_signals rows @ brand_signals rows
     in if found = [] then no_risk_signals rows else found)"

end
