(* ===== verification/Scoring_Engine.thy ===== *)
theory Scoring_Engine
  imports Layer_Signals
begin

text \<open>
  \<open>app/scoring/engine.py\<close> and \<open>triage.py\<close>: the score of a layer from its signals, the overall
  score, the triage tier, the scoring stage and the triage shown in a report. Scores are binary64
  numbers, computed as the code computes them.
\<close>

section \<open>Scores\<close>

definition TRIAGE_PRE_CLEAR_MAX :: rat where "TRIAGE_PRE_CLEAR_MAX = 30"

definition TRIAGE_ESCALATE_MIN :: rat where "TRIAGE_ESCALATE_MIN = 70"

definition CRITICAL_ESCALATION_SIGNALS :: "string list" where
  "CRITICAL_ESCALATION_SIGNALS = [''sanctions_hit'', ''sanctions_hit_fraud_flag'', ''ip_asn_reuse_high'',
     ''officer_sanctions_match'', ''public_records_active_federal_exclusion'']"

definition REVIEW_FLOOR_SIGNALS :: "string list" where
  "REVIEW_FLOOR_SIGNALS = [''public_records_open_bankruptcy'']"

definition LAYER_WEIGHTS :: "(layer \<times> rat) list" where
  "LAYER_WEIGHTS = [(Entity, 1/4), (Infrastructure, 1/4), (Representation, 1/4), (Risk, 1/4)]"

definition add_signal :: "signal \<Rightarrow> rat \<Rightarrow> rat" where
  "add_signal s score =
    (let delta = fmul (sig_weight s) 40
     in if sig_direction s = Trust then fsub score delta else fadd score delta)"

definition clamp :: "rat \<Rightarrow> rat" where
  "clamp x = max 0 (min 100 x)"

definition layer_score :: "signal list \<Rightarrow> rat" where
  "layer_score signals = (if signals = [] then 50 else clamp (fold add_signal signals 50))"

definition score_unless :: "(string \<times> rat) list \<Rightarrow> signal list \<Rightarrow> rat \<times> signal list" where
  \<comment> \<open>the special cases: a lone signal of that name has a fixed score\<close>
  "score_unless fixed signals = (case signals of
       [s] \<Rightarrow> (case map_of fixed (sig_name s) of Some x \<Rightarrow> x | None \<Rightarrow> layer_score signals)
     | _ \<Rightarrow> layer_score signals, signals)"

definition score_entity_legitimacy :: "evidence list \<Rightarrow> rat \<times> signal list" where
  "score_entity_legitimacy rows =
     score_unless [(''no_registry_evidence'', 60)] (entity_legitimacy_signals rows)"

definition score_infrastructure_legitimacy :: "evidence list \<Rightarrow> rat \<times> signal list" where
  "score_infrastructure_legitimacy rows =
     score_unless [(''infrastructure_data_unavailable'', 40)] (infrastructure_legitimacy_signals rows)"

definition score_representation_confidence :: "int \<Rightarrow> evidence list \<Rightarrow> field_comparison list \<Rightarrow> rat \<times> signal list" where
  "score_representation_confidence today rows fcs =
     score_unless [(''no_field_comparisons'', 35), (''all_fields_unverified'', 45)]
       (representation_confidence_signals today rows fcs)"

definition score_fraud_staging_risk :: "reuse_query option \<Rightarrow> evidence list \<Rightarrow> rat \<times> signal list" where
  "score_fraud_staging_risk q rows =
     score_unless [(''fraud_signals_unavailable'', 35)] (fraud_staging_risk_signals q rows)"

definition compute_overall_score :: "(layer \<Rightarrow> rat) \<Rightarrow> rat" where
  "compute_overall_score scores =
     clamp (fdiv (py_sum (map (\<lambda>(l, w). fmul (scores l) w) LAYER_WEIGHTS)) (py_sum (map snd LAYER_WEIGHTS)))"

datatype tier_name = pre_clear | review | escalate

definition triage_tier :: "rat \<Rightarrow> string list \<Rightarrow> tier_name" where
  "triage_tier overall names =
    (if list_ex (\<lambda>n. n \<in> set CRITICAL_ESCALATION_SIGNALS) names then escalate
     else if overall \<le> TRIAGE_PRE_CLEAR_MAX
     then (if list_ex (\<lambda>n. n \<in> set REVIEW_FLOOR_SIGNALS) names then review else pre_clear)
     else if TRIAGE_ESCALATE_MIN \<le> overall then escalate
     else review)"

definition compute_confidence :: "evidence list \<Rightarrow> rat" where
  "compute_confidence rows =
    (let tiers = remdups (map tier (filter (\<lambda>e. tier e \<in> {1, 2, 3}
           \<and> source e \<notin> {OFFICER_SCREENING_SOURCE, PUBLIC_RECORDS_SOURCE}) rows))
     in if tiers = [] then 0 else fdiv (of_nat (length tiers)) 3)"

record scoring_result =
  entity_score :: rat
  infrastructure_score :: rat
  representation_score :: rat
  risk_score :: rat
  overall_score :: rat
  result_tier :: tier_name
  contributing_signals :: "signal list"
  confidence :: rat

definition engine_score :: "int \<Rightarrow> reuse_query option \<Rightarrow> evidence list \<Rightarrow> field_comparison list \<Rightarrow> scoring_result" where
  "engine_score today q rows fcs =
    (let (es, esig) = score_entity_legitimacy rows;
         (is, isig) = score_infrastructure_legitimacy rows;
         (ps, psig) = score_representation_confidence today rows fcs;
         (rs, rsig) = score_fraud_staging_risk q rows;
         overall = compute_overall_score (\<lambda>l. case l of
           Entity \<Rightarrow> es | Infrastructure \<Rightarrow> is | Representation \<Rightarrow> ps | Risk \<Rightarrow> rs);
         all_signals = esig @ isig @ psig @ rsig
     in \<lparr>entity_score = es, infrastructure_score = is, representation_score = ps, risk_score = rs,
         overall_score = overall, result_tier = triage_tier overall (map sig_name all_signals),
         contributing_signals = all_signals, confidence = compute_confidence rows\<rparr>)"

section \<open>The scoring stage\<close>

record risk_assessment =
  ra_run :: string
  ra_entity_score :: rat
  ra_infrastructure_score :: rat
  ra_representation_score :: rat
  ra_risk_score :: rat
  ra_overall_score :: rat
  ra_tier :: tier_name
  ra_signals :: "signal list"
  ra_evidence :: "string list"

definition referenced_ids :: "signal list \<Rightarrow> string list" where
  "referenced_ids signals = remdups (concat (map evidence_ids signals))"

definition assess_run :: "int \<Rightarrow> reuse_query \<Rightarrow> field_comparison list \<Rightarrow> risk_assessment" where
  \<comment> \<open>\<open>ScoringStage.run\<close>: the run's own rows, and all of them for the look-up of reuse\<close>
  "assess_run today q fcs =
    (let rows = filter (\<lambda>e. ev_run e = this_run q) (all_rows q);
         result = engine_score today (Some q) rows fcs
     in \<lparr>ra_run = this_run q, ra_entity_score = entity_score result,
         ra_infrastructure_score = infrastructure_score result,
         ra_representation_score = representation_score result, ra_risk_score = risk_score result,
         ra_overall_score = overall_score result, ra_tier = result_tier result,
         ra_signals = contributing_signals result,
         ra_evidence = filter (\<lambda>i. i \<in> set (ids rows)) (referenced_ids (contributing_signals result))\<rparr>)"

section \<open>Triage\<close>

text \<open>The sentence shown to the operator, by the values it quotes.\<close>

datatype triage_reason =
    CriticalDetected "string list"
  | FloorPresent rat "string list"
  | MinorElevated rat "string list"
  | NothingElevated rat
  | AboveThreshold rat "string list"
  | StandardBand rat "string list" "string list"

record triage_result =
  tr_tier :: tier_name
  tr_reason :: triage_reason
  tr_critical :: "string list"

definition names_where :: "(signal \<Rightarrow> bool) \<Rightarrow> signal list \<Rightarrow> string list" where
  "names_where P signals = map sig_name (filter P signals)"

definition elevated_names :: "signal list \<Rightarrow> string list" where
  "elevated_names = names_where (\<lambda>s. sig_direction s = Elevated)"

definition derive_triage :: "scoring_result \<Rightarrow> triage_result" where
  "derive_triage result =
    (let signals = contributing_signals result; score = overall_score result;
         critical = names_where (\<lambda>s. sig_name s \<in> set CRITICAL_ESCALATION_SIGNALS) signals;
         floor = names_where (\<lambda>s. sig_name s \<in> set REVIEW_FLOOR_SIGNALS) signals;
         elevated = elevated_names signals
     in if critical \<noteq> [] then \<lparr>tr_tier = escalate, tr_reason = CriticalDetected critical, tr_critical = critical\<rparr>
        else if score \<le> TRIAGE_PRE_CLEAR_MAX
        then if floor \<noteq> [] then \<lparr>tr_tier = review, tr_reason = FloorPresent score floor, tr_critical = []\<rparr>
             else \<lparr>tr_tier = pre_clear,
                    tr_reason = (if elevated \<noteq> [] then MinorElevated score (take 3 elevated) else NothingElevated score),
                    tr_critical = []\<rparr>
        else if TRIAGE_ESCALATE_MIN \<le> score
        then \<lparr>tr_tier = escalate, tr_reason = AboveThreshold score (take 5 elevated), tr_critical = []\<rparr>
        else \<lparr>tr_tier = review,
               tr_reason = StandardBand score (take 3 elevated)
                 (take 3 (names_where (\<lambda>s. sig_direction s = Trust) signals)),
               tr_critical = []\<rparr>)"

end
