(* ===== verification/Scoring_Laws.thy ===== *)
theory Scoring_Laws
  imports Scoring_Engine
begin

text \<open>
  What a risk assessment guarantees: every signal is well formed and cites evidence of the run,
  scores stay in range and move with the signals, critical findings force escalation in the
  persisted tier and in the displayed triage alike, and a clean officer changes nothing.
\<close>

section \<open>Every signal is well formed\<close>

text \<open>A signal of layer \<open>l\<close> with a weight in the unit interval, citing only identifiers in \<open>A\<close>,
  and at least one unless it is named in \<open>U\<close>.\<close>

definition wf_signal :: "layer \<Rightarrow> string set \<Rightarrow> string set \<Rightarrow> signal \<Rightarrow> bool" where
  "wf_signal l U A s = (sig_layer s = l \<and> 0 \<le> sig_weight s \<and> sig_weight s \<le> 1
     \<and> set (evidence_ids s) \<subseteq> A \<and> (evidence_ids s \<noteq> [] \<or> sig_name s \<in> U))"

abbreviation wf_signals :: "layer \<Rightarrow> string set \<Rightarrow> string set \<Rightarrow> signal list \<Rightarrow> bool" where
  "wf_signals l U A ss \<equiv> list_all (wf_signal l U A) ss"

lemma dec_unit: "0 \<le> m \<Longrightarrow> m \<le> 10 ^ k \<Longrightarrow> 0 \<le> dec m k \<and> dec m k \<le> 1"
proof -
  assume m: "0 \<le> m" "m \<le> 10 ^ k"
  then have "(of_int m :: rat) \<le> 10 ^ k"
    using of_int_le_iff [of m "10 ^ k", where 'a = rat] by simp
  then have "(of_int m :: rat) / 10 ^ k \<le> 1" by simp
  moreover have "0 \<le> (of_int m :: rat) / 10 ^ k" using m(1) by simp
  ultimately show ?thesis using fl_mono fl_nonneg fl_one unfolding dec_def by metis
qed

lemma wf_signal_of:
  assumes "0 \<le> m" and "m \<le> 10 ^ k" and "set is \<subseteq> A" and "is \<noteq> [] \<or> n \<in> U"
  shows "wf_signal l U A (signal_of n l d (dec m k) t is)"
  using assms dec_unit [OF assms(1,2)] by (simp add: wf_signal_def)

lemma wf_mono: "wf_signals l U A ss \<Longrightarrow> A \<subseteq> B \<Longrightarrow> wf_signals l U B ss"
  unfolding list_all_iff wf_signal_def by blast

lemma wf_intros:
  "wf_signals l U A []"
  "(b \<Longrightarrow> wf_signals l U A xs) \<Longrightarrow> (\<not> b \<Longrightarrow> wf_signals l U A ys) \<Longrightarrow> wf_signals l U A (if b then xs else ys)"
  "wf_signals l U A xs \<Longrightarrow> wf_signals l U A ys \<Longrightarrow> wf_signals l U A (xs @ ys)"
  "0 \<le> m \<Longrightarrow> m \<le> 10 ^ k \<Longrightarrow> set is \<subseteq> A \<Longrightarrow> is \<noteq> [] \<or> n \<in> U \<Longrightarrow> wf_signals l U A [signal_of n l d (dec m k) t is]"
  by (simp_all add: wf_signal_of)

lemma hd_id: "filter P rows = e # es \<Longrightarrow> ev_id e \<in> ev_id ` set rows \<and> P e"
proof -
  assume "filter P rows = e # es"
  then have "e \<in> set (filter P rows)" by simp
  then show ?thesis by simp
qed

lemma hd_filter: "filter P rows \<noteq> [] \<Longrightarrow> ev_id (hd (filter P rows)) \<in> ev_id ` set rows"
  by (cases "filter P rows") (auto dest: hd_id)

lemma take_ids: "ev_id ` set (take n rows) \<subseteq> ev_id ` set rows"
  by (meson image_mono set_take_subset)

lemma li_row: "li_rows rows f = Some e \<Longrightarrow> ev_id e \<in> ev_id ` set rows"
proof -
  assume "li_rows rows f = Some e"
  then have "(f, e) \<in> set (List.map_filter (\<lambda>e. case ev_field e of None \<Rightarrow> None
     | Some f \<Rightarrow> if source e = ''linkedin'' \<and> take 9 f = ''linkedin_'' then Some (f, e) else None) rows)"
    unfolding li_rows_def by (rule map_of_rev_in_set)
  then obtain x where "x \<in> set rows" "(case ev_field x of None \<Rightarrow> None
     | Some f \<Rightarrow> if source x = ''linkedin'' \<and> take 9 f = ''linkedin_'' then Some (f, x) else None) = Some (f, e)"
    by (auto simp: map_filter_def)
  then show ?thesis by (auto split: option.splits if_splits)
qed

lemma wf_officer: "wf_signals Entity U (ev_id ` set rows) (officer_screening_signals rows)"
  by (auto simp: officer_screening_signals_def officer_rows_def Let_def intro!: wf_signal_of)

lemma wf_public: "wf_signals Entity U (ev_id ` set rows) (public_records_signals rows)"
  by (auto simp: public_records_signals_def strong_records_def Let_def intro!: wf_signal_of)

lemma wf_tax: "wf_signals Entity U (ev_id ` set rows) (tax_id_signals rows)"
proof -
  have own: "ev_id (hd (filter P (filter Q rows))) \<in> ev_id ` set rows" if "filter P (filter Q rows) \<noteq> []" for P Q
    using hd_filter [OF that] by auto
  have empty: "first_value [] = ''''" by (simp add: first_value_def)
  show ?thesis
    unfolding list_all_iff by (auto simp: tax_id_signals_def Let_def empty intro!: wf_signal_of own simp del: filter_filter)
qed

lemma wf_linkedin_entity: "wf_signals Entity U (ev_id ` set rows) (linkedin_entity_signals rows)"
  using li_row [of rows "''linkedin_presence''"] unfolding list_all_iff
  by (auto simp: linkedin_entity_signals_def split: option.split intro!: wf_signal_of)

lemma wf_entity: "wf_signals Entity {''no_registry_evidence''} (ev_id ` set rows) (entity_legitimacy_signals rows)"
proof -
  have sub: "ev_id ` set (registry_rows rows) \<subseteq> ev_id ` set rows" by (auto simp: registry_rows_def)
  have "wf_signals Entity {''no_registry_evidence''} (ev_id ` set r) (sanctions_signals r)" for r
    unfolding sanctions_signals_def Let_def by (intro wf_intros) auto
  moreover have "wf_signals Entity {''no_registry_evidence''} (ev_id ` set r) (registry_number_signals r)" for r
    by (auto simp: registry_number_signals_def Let_def intro!: wf_signal_of)
  moreover have "wf_signals Entity {''no_registry_evidence''} (ev_id ` set r) (registry_status_signals r)" for r
    unfolding registry_status_signals_def Let_def by (intro wf_intros) (auto dest!: in_set_takeD)
  moreover have "wf_signals Entity {''no_registry_evidence''} (ev_id ` set r) (conflict_signals r)" for r
    by (auto simp: conflict_signals_def Let_def intro!: wf_signal_of)
  moreover have "wf_signals Entity {''no_registry_evidence''} (ev_id ` set r) (registry_name_signals r)"
    if "r \<noteq> []" for r
    unfolding registry_name_signals_def Let_def using that by (intro wf_intros) (auto dest!: in_set_takeD)
  moreover have "wf_signals Entity {''no_registry_evidence''} (ev_id ` set rows) (secondary_entity_signals rows)"
    unfolding secondary_entity_signals_def using wf_officer wf_public wf_tax wf_linkedin_entity by auto
  moreover have "wf_signal Entity {''no_registry_evidence''} (ev_id ` set rows)
      (signal_of ''no_registry_evidence'' Entity Elevated (dec 1 0) Fixed [])"
    by (rule wf_signal_of) simp_all
  moreover have "sanctions_signals [] = []" by (simp add: sanctions_signals_def)
  ultimately show ?thesis
    unfolding entity_legitimacy_signals_def Let_def
    by (cases "registry_rows rows = []") (auto intro: wf_mono [OF _ sub])
qed

lemma wf_flag_signal: "0 \<le> m \<Longrightarrow> m \<le> 10 ^ k \<Longrightarrow>
    wf_signals Infrastructure U (ev_id ` set rows) (flag_signal f n d (dec m k) rows)"
proof (cases "filter (on_field f) rows")
  case (Cons e es)
  assume "0 \<le> m" "m \<le> 10 ^ k"
  then show ?thesis using hd_id [OF Cons] by (auto simp: flag_signal_def Cons intro!: wf_signal_of)
qed (simp add: flag_signal_def)

lemma wf_infrastructure:
  "wf_signals Infrastructure {''infrastructure_data_unavailable''} (ev_id ` set rows) (infrastructure_legitimacy_signals rows)"
proof -
  let ?U = "{''infrastructure_data_unavailable''}"
  have sub: "ev_id ` set (tier2 rows) \<subseteq> ev_id ` set rows" by (auto simp: tier2_def)
  have age: "wf_signals Infrastructure ?U (ev_id ` set r) (domain_age_signals r)" for r
  proof (cases "filter (on_field ''domain_age_days'') r")
    case (Cons e es)
    show ?thesis using hd_id [OF Cons] by (auto simp: domain_age_signals_def Cons intro!: wf_signal_of)
  qed (simp add: domain_age_signals_def)
  have ssl: "wf_signals Infrastructure ?U (ev_id ` set r) (ssl_signals r)" for r
    by (auto simp: ssl_signals_def Let_def intro!: wf_signal_of dest!: in_set_takeD)
  have flags: "wf_signals Infrastructure ?U (ev_id ` set r) (recently_registered_signals r @ has_mx_signals r
      @ no_mx_signals r @ spf_signals r @ dkim_signals r)" for r
    unfolding recently_registered_signals_def has_mx_signals_def no_mx_signals_def spf_signals_def dkim_signals_def
    by (simp add: wf_flag_signal del: One_nat_def)
  have none: "wf_signal Infrastructure ?U (ev_id ` set rows)
      (signal_of ''infrastructure_data_unavailable'' Infrastructure Elevated (dec 3 1) Fixed [])"
    by (rule wf_signal_of) simp_all
  show ?thesis
    using age [of "tier2 rows"] ssl [of "tier2 rows"] flags [of "tier2 rows"] none
    unfolding infrastructure_legitimacy_signals_def Let_def
    by (cases "tier2 rows = []") (auto intro: wf_mono [OF _ sub])
qed

definition comparison_ids :: "field_comparison list \<Rightarrow> string set" where
  "comparison_ids fcs = (\<Union>fc \<in> set fcs. set (fc_ids fc))"

lemma fc_member: "fc_by_field fcs f = Some fc \<Longrightarrow> fc \<in> set fcs"
  by (auto simp: fc_by_field_def dest!: map_of_rev_in_set)

lemma wf_comparison:
  assumes "\<forall>fc \<in> set fcs. fc_ids fc \<noteq> []"
  shows "wf_signals Representation U (comparison_ids fcs) (comparison_signals fcs)"
proof -
  have one: "wf_signals Representation U (comparison_ids fcs) (compare_field fcs (name, label, dec m k))"
    if "0 \<le> m" "m \<le> 10 ^ k" for name label m k
  proof (cases "fc_by_field fcs name")
    case (Some fc)
    then have "set (fc_ids fc) \<subseteq> comparison_ids fcs \<and> fc_ids fc \<noteq> []"
      using fc_member [OF Some] assms by (auto simp: comparison_ids_def)
    then show ?thesis using that by (auto simp: compare_field_def Some intro!: wf_signal_of)
  qed (simp add: compare_field_def)
  show ?thesis
    using one [of 5 1] one [of 3 1] one [of 25 2] by (simp add: comparison_signals_def field_labels_def)
qed

lemma wf_linkedin:
  assumes "\<forall>fc \<in> set fcs. fc_ids fc \<noteq> []"
  shows "wf_signals Representation U (ev_id ` set rows \<union> comparison_ids fcs) (linkedin_signals today rows fcs)"
proof -
  let ?A = "ev_id ` set rows \<union> comparison_ids fcs" and ?li = "li_rows rows"
  have fc: "set (fc_ids fc) \<subseteq> ?A" if "fc_by_field fcs f = Some fc" for f fc
    using fc_member [OF that] by (auto simp: comparison_ids_def)
  have absent: "wf_signal Representation U ?A (signal_of n Representation d LI_ABSENT_WEIGHT t is)"
    if "set is \<subseteq> ?A" "is \<noteq> []" for n d t "is"
    unfolding LI_ABSENT_WEIGHT_def using that by (intro wf_signal_of) simp_all
  have ids: "set (ids (List.map_filter (\<lambda>x. x) [Some p, ?li f, ?li g])) \<subseteq> ?A"
    if "ev_id p \<in> ev_id ` set rows" for p f g
    using that li_row [of rows f] li_row [of rows g] by (auto simp: map_filter_def ids_def)
  have thin: "wf_signals Representation U ?A (li_thin_signals ?li p)" if "ev_id p \<in> ev_id ` set rows" for p
  proof -
    have "ids (List.map_filter (\<lambda>x. x) [Some p, ?li f, ?li g]) \<noteq> []" for f g by (simp add: map_filter_def)
    from absent [OF ids [OF that] this] show ?thesis unfolding li_thin_signals_def by simp
  qed
  have website: "wf_signals Representation U ?A (li_website_signals ?li p (fc_by_field fcs f))"
    if "ev_id p \<in> ev_id ` set rows" for p f
  proof (cases "fc_by_field fcs f")
    case (Some fc')
    have sub: "set (fc_ids fc') \<subseteq> ?A" by (rule fc [OF Some])
    have "set [ev_id p] \<subseteq> ?A" using that by simp
    then show ?thesis using sub by (auto simp: li_website_signals_def Some intro!: wf_signal_of)
  qed (simp add: li_website_signals_def)
  have created: "wf_signals Representation U ?A (li_created_signals today ?li)"
    using li_row [of rows "''linkedin_page_created''"]
    by (auto simp: li_created_signals_def split: option.split intro!: wf_signal_of)
  have requester: "wf_signals Representation U ?A (li_requester_signals ?li)"
    using li_row [of rows "''linkedin_requester_match''"]
    by (auto simp: li_requester_signals_def split: option.split intro!: wf_signal_of)
  show ?thesis
  proof (cases "?li ''linkedin_presence''")
    case (Some p)
    then have p: "ev_id p \<in> ev_id ` set rows" by (rule li_row)
    show ?thesis
      using thin [OF p] website [OF p] created requester absent [of "[ev_id p]"] p
      by (auto simp: linkedin_signals_def Some)
  qed (simp add: linkedin_signals_def)
qed

lemma wf_evidence_signals:
  assumes "\<forall>fc \<in> set fcs. fc_ids fc \<noteq> []"
  shows "wf_signals Representation U (ev_id ` set rows \<union> comparison_ids fcs) (evidence_signals today rows fcs)"
proof -
  let ?A = "ev_id ` set rows \<union> comparison_ids fcs"
  have "wf_signals Representation U ?A (ip_signals rows)"
  proof (cases "filter (on_field ''ip_country_mismatch'') rows")
    case (Cons e es)
    show ?thesis using hd_id [OF Cons] by (auto simp: ip_signals_def Cons intro!: wf_signal_of)
  qed (auto simp: ip_signals_def Let_def intro!: wf_signal_of dest!: in_set_takeD)
  moreover have "wf_signals Representation U ?A (web_contact_signals rows)"
    by (auto simp: web_contact_signals_def Let_def intro!: wf_signal_of dest!: in_set_takeD)
  moreover have "wf_signals Representation U ?A (intake_signals rows)"
    by (auto simp: intake_signals_def Let_def intro!: wf_signal_of)
  moreover have "wf_signals Representation U ?A (ownership_signals rows)"
  proof -
    let ?own = "filter (\<lambda>e. source e = ''ownership'' \<and> on_field ''domain_ownership_verified'' e
       \<and> str_lower (text_or (normalized_value e) '''') = ''true'') rows"
    have "set (ids ?own) \<subseteq> ?A" by auto
    then show ?thesis
      unfolding ownership_signals_def Let_def OWNERSHIP_TRUST_WEIGHT_def
      by (cases ?own) (simp_all add: wf_signal_of del: set_ids One_nat_def)
  qed
  ultimately show ?thesis using wf_linkedin [OF assms] by (auto simp: evidence_signals_def)
qed

lemma wf_representation:
  assumes "\<forall>fc \<in> set fcs. fc_ids fc \<noteq> []"
  shows "wf_signals Representation {''no_field_comparisons'', ''all_fields_unverified''}
    (ev_id ` set rows \<union> comparison_ids fcs) (representation_confidence_signals today rows fcs)"
proof -
  let ?U = "{''no_field_comparisons'', ''all_fields_unverified''}" and ?A = "ev_id ` set rows \<union> comparison_ids fcs"
  have "wf_signal Representation ?U ?A (signal_of ''no_field_comparisons'' Representation Elevated (dec 3 1) Fixed [])"
    "wf_signal Representation ?U ?A (signal_of ''all_fields_unverified'' Representation Elevated (dec 4 1) Fixed [])"
    by (rule wf_signal_of; simp)+
  moreover have "wf_signals Representation ?U ?A (comparison_signals fcs)"
    using wf_comparison [OF assms] by (auto intro: wf_mono)
  ultimately show ?thesis
    using wf_evidence_signals [OF assms]
    by (cases fcs) (simp_all add: representation_confidence_signals_def Let_def del: One_nat_def)
qed

lemma wf_reuse: "wf_signals Risk U (ev_id ` set rows) (reuse_signals q rows)"
  by (auto simp: reuse_signals_def cross_submission_reuse_signals_def Let_def split: option.split
      intro!: wf_signal_of)

lemma wf_risk:
  "wf_signals Risk {''fraud_signals_unavailable''} (ev_id ` set rows) (fraud_staging_risk_signals q rows)"
proof -
  let ?U = "{''fraud_signals_unavailable''}" and ?A = "ev_id ` set rows"
  have t2: "ev_id ` set (tier2 rows) \<subseteq> ?A" and t3: "ev_id ` set (tier3 rows) \<subseteq> ?A"
    by (auto simp: tier2_def tier3_def)
  have "wf_signals Risk ?U ?A (sanctions_fraud_signals rows)" "wf_signals Risk ?U ?A (anonymized_signals rows)"
    "wf_signals Risk ?U ?A (suspicious_asn_signals rows)"
    unfolding sanctions_fraud_signals_def anonymized_signals_def suspicious_asn_signals_def Let_def
    by (intro wf_intros; force)+
  moreover have "wf_signals Risk ?U ?A (staging_signals rows)"
  proof -
    have ne: "list_ex P xs \<Longrightarrow> xs \<noteq> []" for P and xs :: "evidence list" by auto
    have sub: "set (ids (filter P (tier2 rows))) \<subseteq> ?A" for P using t2 by auto
    show ?thesis unfolding staging_signals_def Let_def
      by (intro wf_intros) (use sub in \<open>simp_all add: ids_def image_Un ne [of flag]\<close>)
  qed
  moreover have "wf_signals Risk ?U ?A (long_lived_signals rows)"
  proof (cases "filter (on_field ''domain_age_days'') (tier2 rows)")
    case (Cons e es)
    then have "ev_id e \<in> ?A" using hd_id [OF Cons] t2 by blast
    then show ?thesis by (auto simp: long_lived_signals_def Cons intro!: wf_signal_of)
  qed (simp add: long_lived_signals_def)
  moreover have "wf_signals Risk ?U ?A (footprint_signals rows)" "wf_signals Risk ?U ?A (brand_signals rows)"
  proof -
    have all: "set (ids (filter P (tier3 rows))) \<subseteq> ?A" for P using t3 by auto
    have some: "set (ids (take n (filter P (tier3 rows)))) \<subseteq> ?A" for n P
      using all [of P] by (auto dest!: in_set_takeD)
    show "wf_signals Risk ?U ?A (footprint_signals rows)"
      unfolding footprint_signals_def Let_def by (intro wf_intros) (simp_all add: all del: set_ids)
    show "wf_signals Risk ?U ?A (brand_signals rows)"
      unfolding brand_signals_def Let_def by (intro wf_intros) (simp_all add: some del: set_ids One_nat_def)
  qed
  moreover have "wf_signals Risk ?U ?A (no_risk_signals rows)"
  proof -
    have "set (ids (take 2 (tier2 rows @ tier3 rows))) \<subseteq> ?A"
      by (auto simp: tier2_def tier3_def simp del: take_append dest!: in_set_takeD)
    then show ?thesis unfolding no_risk_signals_def
      by (intro wf_intros) (simp_all del: set_ids take_append)
  qed
  ultimately show ?thesis
    using wf_reuse [where rows = rows and U = ?U and q = q] by (simp add: fraud_staging_risk_signals_def Let_def)
qed

definition ABSENCE_SIGNALS :: "string set" where
  "ABSENCE_SIGNALS = {''no_registry_evidence'', ''infrastructure_data_unavailable'', ''no_field_comparisons'',
     ''all_fields_unverified'', ''fraud_signals_unavailable''}"

lemma engine_signals: "contributing_signals (engine_score today q rows fcs) = entity_legitimacy_signals rows
    @ infrastructure_legitimacy_signals rows @ representation_confidence_signals today rows fcs
    @ fraud_staging_risk_signals q rows"
  by (simp add: engine_score_def score_entity_legitimacy_def score_infrastructure_legitimacy_def
      score_representation_confidence_def score_fraud_staging_risk_def score_unless_def Let_def)

lemma engine_signal_wf:
  assumes "\<forall>fc \<in> set fcs. fc_ids fc \<noteq> []"
    and "s \<in> set (contributing_signals (engine_score today q rows fcs))"
  shows "0 \<le> sig_weight s \<and> sig_weight s \<le> 1 \<and>
    set (evidence_ids s) \<subseteq> ev_id ` set rows \<union> comparison_ids fcs \<and>
    (evidence_ids s = [] \<longrightarrow> sig_name s \<in> ABSENCE_SIGNALS)"
proof -
  have all: "x \<in> set xs \<Longrightarrow> list_all P xs \<Longrightarrow> P x" for x P and xs :: "signal list"
    by (simp add: list_all_iff)
  consider "s \<in> set (entity_legitimacy_signals rows)" | "s \<in> set (infrastructure_legitimacy_signals rows)"
    | "s \<in> set (representation_confidence_signals today rows fcs)" | "s \<in> set (fraud_staging_risk_signals q rows)"
    using assms(2) unfolding engine_signals by auto
  then have "\<exists>l A U. wf_signal l U A s \<and> A \<subseteq> ev_id ` set rows \<union> comparison_ids fcs \<and> U \<subseteq> ABSENCE_SIGNALS"
  proof cases
    case 1
    from all [OF this wf_entity] show ?thesis by (intro exI conjI) (assumption, auto simp: ABSENCE_SIGNALS_def)
  next
    case 2
    from all [OF this wf_infrastructure] show ?thesis by (intro exI conjI) (assumption, auto simp: ABSENCE_SIGNALS_def)
  next
    case 3
    from all [OF this wf_representation [OF assms(1)]] show ?thesis
      by (intro exI conjI) (assumption, auto simp: ABSENCE_SIGNALS_def)
  next
    case 4
    from all [OF this wf_risk] show ?thesis by (intro exI conjI) (assumption, auto simp: ABSENCE_SIGNALS_def)
  qed
  then obtain l A U where w: "wf_signal l U A s" and sub: "A \<subseteq> ev_id ` set rows \<union> comparison_ids fcs" "U \<subseteq> ABSENCE_SIGNALS"
    by blast
  show ?thesis using w sub unfolding wf_signal_def by (intro conjI) (simp, simp, blast, blast)
qed

lemmas engine_signal_ids = engine_signal_wf [THEN conjunct2, THEN conjunct2, THEN conjunct1]


section \<open>Scores\<close>

lemma clamp_bounds: "0 \<le> clamp x \<and> clamp x \<le> 100"
  by (auto simp: clamp_def)

lemma layer_score_bounds: "0 \<le> layer_score ss \<and> layer_score ss \<le> 100"
  using clamp_bounds by (simp add: layer_score_def)

lemma score_unless_bounds:
  "\<forall>(n, x) \<in> set fixed. 0 \<le> x \<and> x \<le> 100 \<Longrightarrow> 0 \<le> fst (score_unless fixed ss) \<and> fst (score_unless fixed ss) \<le> 100"
  using layer_score_bounds by (auto simp: score_unless_def split: list.split option.split dest: map_of_SomeD)

lemma confidence_bounds: "0 \<le> compute_confidence rows \<and> compute_confidence rows \<le> 1"
proof -
  let ?t = "remdups (map tier (filter (\<lambda>e. tier e \<in> {1, 2, 3}
           \<and> source e \<notin> {OFFICER_SCREENING_SOURCE, PUBLIC_RECORDS_SOURCE}) rows))"
  have "set ?t \<subseteq> {1, 2, 3}" by auto
  then have "card (set ?t) \<le> card {1, 2, 3 :: int}" by (rule card_mono [rotated]) simp
  then have "length ?t \<le> 3" by (simp add: length_remdups_card_conv)
  then have "(of_nat (length ?t) :: rat) / 3 \<le> 1" by simp
  then have "fdiv (of_nat (length ?t)) 3 \<le> 1" using fl_mono [of _ 1] by (simp add: fdiv_def)
  then show ?thesis by (auto simp: compute_confidence_def Let_def fdiv_def intro: fl_nonneg)
qed

text \<open>Scores stay in range: the four layer scores and the overall score of an assessment are
  between 0 and 100 and the confidence is between 0 and 1.\<close>

theorem scores_in_range:
  "(let r = engine_score today q rows fcs
    in {entity_score r, infrastructure_score r, representation_score r, risk_score r, overall_score r} \<subseteq> {0..100}
       \<and> confidence r \<in> {0..1})"
proof -
  note u = score_unless_bounds [of "[(''no_registry_evidence'', 60)]" "entity_legitimacy_signals rows"]
    score_unless_bounds [of "[(''infrastructure_data_unavailable'', 40)]" "infrastructure_legitimacy_signals rows"]
    score_unless_bounds [of "[(''no_field_comparisons'', 35), (''all_fields_unverified'', 45)]"
      "representation_confidence_signals today rows fcs"]
    score_unless_bounds [of "[(''fraud_signals_unavailable'', 35)]" "fraud_staging_risk_signals q rows"]
  show ?thesis
    using u clamp_bounds confidence_bounds
    by (simp add: engine_score_def Let_def case_prod_beta score_entity_legitimacy_def compute_overall_score_def
        score_infrastructure_legitimacy_def score_representation_confidence_def score_fraud_staging_risk_def)
qed

text \<open>The order of the scores follows the order of the starting points, and a step moves a score
  that is a binary64 number in its own direction.\<close>

lemma add_signal_mono: "x \<le> y \<Longrightarrow> add_signal s x \<le> add_signal s y"
  by (auto simp: add_signal_def Let_def fadd_def fsub_def intro!: fl_mono)

lemma fold_signals_mono: "x \<le> y \<Longrightarrow> fold add_signal ss x \<le> fold add_signal ss y"
  by (induction ss arbitrary: x y) (auto intro: add_signal_mono)

lemma add_signal_fl: "fl (add_signal s x) = add_signal s x"
  by (simp add: add_signal_def Let_def fadd_def fsub_def)

lemma fold_signals_fl: "fl x = x \<Longrightarrow> fl (fold add_signal ss x) = fold add_signal ss x"
  by (induction ss arbitrary: x) (auto simp: add_signal_fl)

lemma add_signal_moves:
  assumes "fl x = x" and "0 \<le> sig_weight s"
  shows "sig_direction s = Trust \<Longrightarrow> add_signal s x \<le> x"
    and "sig_direction s = Elevated \<Longrightarrow> x \<le> add_signal s x"
proof -
  have "0 \<le> fmul (sig_weight s) 40" using assms(2) fl_nonneg by (simp add: fmul_def)
  then show "sig_direction s = Trust \<Longrightarrow> add_signal s x \<le> x" and "sig_direction s = Elevated \<Longrightarrow> x \<le> add_signal s x"
    using b64.sub_le [OF assms(1)] b64.add_ge [OF assms(1)]
    by (simp_all add: add_signal_def Let_def fadd_def fsub_def)
qed

lemma layer_score_fold: "layer_score ss = clamp (fold add_signal ss 50)"
  by (simp add: layer_score_def clamp_def)

lemma clamp_mono: "x \<le> y \<Longrightarrow> clamp x \<le> clamp y"
  by (auto simp: clamp_def)

text \<open>A layer's score follows its signals: wherever a signal is inserted in the list, a trust
  signal never raises the layer score and an elevated one never lowers it, rounding included.\<close>

theorem layer_score_follows_signals:
  assumes "0 \<le> sig_weight s"
  shows "if sig_direction s = Trust then layer_score (xs @ s # ys) \<le> layer_score (xs @ ys)
    else layer_score (xs @ ys) \<le> layer_score (xs @ s # ys)"
proof -
  let ?m = "fold add_signal xs 50"
  have m: "fl ?m = ?m" by (rule fold_signals_fl) simp
  show ?thesis
  proof (cases "sig_direction s")
    case Trust
    then show ?thesis using add_signal_moves(1) [OF m assms]
      by (auto simp: layer_score_fold intro!: clamp_mono fold_signals_mono)
  next
    case Elevated
    then show ?thesis using add_signal_moves(2) [OF m assms]
      by (auto simp: layer_score_fold intro!: clamp_mono fold_signals_mono)
  qed
qed

section \<open>Tiers\<close>

lemma engine_tier: "result_tier (engine_score today q rows fcs) =
    triage_tier (overall_score (engine_score today q rows fcs))
      (map sig_name (contributing_signals (engine_score today q rows fcs)))"
  by (simp add: engine_score_def Let_def case_prod_beta)

lemma names_where_Nil: "names_where (\<lambda>s. sig_name s \<in> S) ss = [] \<longleftrightarrow> \<not> list_ex (\<lambda>n. n \<in> S) (map sig_name ss)"
  by (induction ss) (auto simp: names_where_def)

text \<open>The tier shown is the tier stored: deriving the triage of a report from an assessment gives
  the tier the engine persisted, lists a critical signal exactly when one is among the signals, and
  gives a tier that only ever orders work.\<close>

theorem triage_agrees_with_engine:
  "(let r = engine_score today q rows fcs; t = derive_triage r
    in tr_tier t = result_tier r \<and> (tr_critical t = []) = (set (map sig_name (contributing_signals r))
         \<inter> set CRITICAL_ESCALATION_SIGNALS = {}))"
proof -
  have disjoint: "list_ex (\<lambda>n. n \<in> S) (map f ss) = (set (map f ss) \<inter> S \<noteq> {})" for S and f :: "signal \<Rightarrow> string" and ss
    by (auto simp: list_ex_iff)
  let ?r = "engine_score today q rows fcs"
  have "tr_tier (derive_triage ?r) = result_tier ?r"
    unfolding engine_tier derive_triage_def Let_def triage_tier_def names_where_Nil by simp
  moreover have "(tr_critical (derive_triage ?r) = []) = (set (map sig_name (contributing_signals ?r))
      \<inter> set CRITICAL_ESCALATION_SIGNALS = {})"
    unfolding derive_triage_def Let_def using names_where_Nil [of "set CRITICAL_ESCALATION_SIGNALS" "contributing_signals ?r"]
      disjoint [of "set CRITICAL_ESCALATION_SIGNALS" sig_name "contributing_signals ?r"] by auto
  ultimately show ?thesis by (simp add: Let_def)
qed

lemma critical_escalates:
  assumes "s \<in> set (contributing_signals (engine_score today q rows fcs))"
    and "sig_name s \<in> set CRITICAL_ESCALATION_SIGNALS"
  shows "result_tier (engine_score today q rows fcs) = escalate"
  using assms unfolding engine_tier triage_tier_def by (auto simp: list_ex_iff)

lemma floor_blocks:
  assumes "s \<in> set (contributing_signals (engine_score today q rows fcs))"
    and "sig_name s \<in> set REVIEW_FLOOR_SIGNALS"
  shows "result_tier (engine_score today q rows fcs) \<noteq> pre_clear"
  using assms unfolding engine_tier triage_tier_def by (auto simp: list_ex_iff)

text \<open>A row that by itself is critical: a sanctions hit, an officer or owner matched in individual
  screening, or an active federal exclusion of the company.\<close>

definition critical_row :: "evidence \<Rightarrow> bool" where
  "critical_row e = (on_field ''sanctions_hit'' e \<or> on_field ''sanctions_risk_flag'' e
     \<or> source e = OFFICER_SCREENING_SOURCE \<and> on_field OFFICER_SCREENING_FIELD e \<and> normalized_value e = Some ''MATCH''
     \<or> source e = PUBLIC_RECORDS_SOURCE \<and> on_field PUBLIC_RECORD_FIELD e \<and> normalized_value e = Some ''strong''
       \<and> active_exclusion e)"

lemma secondary_member: "s \<in> set (officer_screening_signals rows) \<or> s \<in> set (public_records_signals rows) \<Longrightarrow>
    s \<in> set (contributing_signals (engine_score today q rows fcs))"
  by (auto simp: engine_signals entity_legitimacy_signals_def Let_def secondary_entity_signals_def)

lemma risk_member: "s \<in> set (sanctions_fraud_signals rows) \<or> s \<in> set (reuse_signals q rows) \<Longrightarrow>
    s \<in> set (contributing_signals (engine_score today q rows fcs))"
  by (auto simp: engine_signals fraud_staging_risk_signals_def Let_def)

lemma critical_row_signal:
  assumes "e \<in> set rows" and "critical_row e"
  shows "\<exists>s \<in> set (contributing_signals (engine_score today q rows fcs)). sig_name s \<in> set CRITICAL_ESCALATION_SIGNALS"
proof -
  consider "on_field ''sanctions_hit'' e \<or> on_field ''sanctions_risk_flag'' e" | "e \<in> set (officer_rows ''MATCH'' rows)"
    | "e \<in> set (filter active_exclusion (strong_records rows))"
    using assms by (auto simp: critical_row_def officer_rows_def strong_records_def)
  then show ?thesis
  proof cases
    case 1
    then have "filter (on_field ''sanctions_hit'') rows @ filter (on_field ''sanctions_risk_flag'') rows \<noteq> []"
      using assms(1) by (auto simp: filter_empty_conv)
    then have "\<exists>s \<in> set (sanctions_fraud_signals rows). sig_name s = ''sanctions_hit_fraud_flag''"
      unfolding sanctions_fraud_signals_def Let_def by simp
    then show ?thesis using risk_member by (force simp: CRITICAL_ESCALATION_SIGNALS_def)
  next
    case 2
    then have "officer_rows ''MATCH'' rows \<noteq> []" by (cases "officer_rows ''MATCH'' rows") simp_all
    then have "\<exists>s \<in> set (officer_screening_signals rows). sig_name s = ''officer_sanctions_match''"
      unfolding officer_screening_signals_def Let_def by simp
    then show ?thesis using secondary_member by (force simp: CRITICAL_ESCALATION_SIGNALS_def)
  next
    case 3
    then have "filter active_exclusion (strong_records rows) \<noteq> []" by (auto simp: filter_empty_conv)
    then have "\<exists>s \<in> set (public_records_signals rows). sig_name s = ''public_records_active_federal_exclusion''"
      unfolding public_records_signals_def Let_def by simp
    then show ?thesis using secondary_member by (force simp: CRITICAL_ESCALATION_SIGNALS_def)
  qed
qed

text \<open>C13. A critical finding always escalates: whatever else was found and however low the score, a
  run with a sanctions hit, a matched officer or owner, or an active federal exclusion of the
  company has the tier escalate.\<close>

theorem critical_finding_escalates:
  assumes "e \<in> set rows" and "critical_row e"
  shows "result_tier (engine_score today q rows fcs) = escalate"
  using critical_row_signal [OF assms] critical_escalates by blast

text \<open>An open bankruptcy is never expedited: a run with a strong record of an open bankruptcy
  filed within the window is never pre-cleared.\<close>

theorem open_bankruptcy_never_pre_clears:
  assumes "e \<in> set rows" and "source e = PUBLIC_RECORDS_SOURCE" and "on_field PUBLIC_RECORD_FIELD e"
    and "normalized_value e = Some ''strong''" and "open_bankruptcy e"
  shows "result_tier (engine_score today q rows fcs) \<noteq> pre_clear"
proof -
  have "filter open_bankruptcy (strong_records rows) \<noteq> []"
    using assms by (auto simp: strong_records_def filter_empty_conv)
  then have "\<exists>s \<in> set (public_records_signals rows). sig_name s = ''public_records_open_bankruptcy''"
    unfolding public_records_signals_def Let_def by simp
  then show ?thesis using secondary_member floor_blocks by (force simp: REVIEW_FLOOR_SIGNALS_def)
qed

section \<open>What leaves an assessment alone\<close>

definition clean_officer :: "evidence \<Rightarrow> bool" where
  "clean_officer e = (source e = OFFICER_SCREENING_SOURCE \<and> ev_field e = Some OFFICER_SCREENING_FIELD \<and> tier e = 1
     \<and> normalized_value e \<notin> {Some ''MATCH'', Some ''REVIEW''})"

lemma clean_facts:
  assumes "clean_officer e"
  shows "on_field f e \<longleftrightarrow> f = OFFICER_SCREENING_FIELD" and "registry_rows (xs @ e # ys) = registry_rows (xs @ ys)"
    and "tier2 (xs @ e # ys) = tier2 (xs @ ys)" and "tier3 (xs @ e # ys) = tier3 (xs @ ys)"
    and "li_rows (xs @ e # ys) = li_rows (xs @ ys)" and "source e = OFFICER_SCREENING_SOURCE"
  using assms by (auto simp: clean_officer_def on_field_def registry_rows_def tier2_def tier3_def li_rows_def
      map_filter_def OFFICER_SCREENING_SOURCE_def OFFICER_SCREENING_FIELD_def)

lemma clean_secondary:
  assumes "clean_officer e"
  shows "secondary_entity_signals (xs @ e # ys) = secondary_entity_signals (xs @ ys)"
proof -
  note c = clean_facts [OF assms]
  have "officer_rows r (xs @ e # ys) = officer_rows r (xs @ ys)" if "r \<in> {''MATCH'', ''REVIEW''}" for r
    using that assms by (auto simp: officer_rows_def clean_officer_def)
  then have "officer_screening_signals (xs @ e # ys) = officer_screening_signals (xs @ ys)"
    by (simp add: officer_screening_signals_def)
  moreover have "public_records_signals (xs @ e # ys) = public_records_signals (xs @ ys)"
    by (simp add: public_records_signals_def strong_records_def c OFFICER_SCREENING_SOURCE_def PUBLIC_RECORDS_SOURCE_def)
  moreover have "tax_id_signals (xs @ e # ys) = tax_id_signals (xs @ ys)"
    by (simp add: tax_id_signals_def c OFFICER_SCREENING_SOURCE_def)
  moreover have "linkedin_entity_signals (xs @ e # ys) = linkedin_entity_signals (xs @ ys)"
    unfolding linkedin_entity_signals_def c(5) ..
  ultimately show ?thesis by (simp add: secondary_entity_signals_def)
qed

lemma clean_evidence_signals:
  assumes "clean_officer e"
  shows "evidence_signals today (xs @ e # ys) fcs = evidence_signals today (xs @ ys) fcs"
proof -
  note c = clean_facts [OF assms]
  have "filter (on_field ''ip_country_mismatch'') (xs @ e # ys) = filter (on_field ''ip_country_mismatch'') (xs @ ys)"
    "filter (\<lambda>e. on_field ''ip_country_match'' e \<and> flag e) (xs @ e # ys)
      = filter (\<lambda>e. on_field ''ip_country_match'' e \<and> flag e) (xs @ ys)"
    by (simp_all add: c OFFICER_SCREENING_FIELD_def)
  then have "ip_signals (xs @ e # ys) = ip_signals (xs @ ys)" unfolding ip_signals_def by (simp only:)
  moreover have "web_contact_signals (xs @ e # ys) = web_contact_signals (xs @ ys)"
    by (simp add: web_contact_signals_def c OFFICER_SCREENING_FIELD_def)
  moreover have "intake_signals (xs @ e # ys) = intake_signals (xs @ ys)"
    by (simp add: intake_signals_def c OFFICER_SCREENING_FIELD_def)
  moreover have "linkedin_signals today (xs @ e # ys) fcs = linkedin_signals today (xs @ ys) fcs"
    unfolding linkedin_signals_def c(5) ..
  moreover have "ownership_signals (xs @ e # ys) = ownership_signals (xs @ ys)"
    by (simp add: ownership_signals_def c OFFICER_SCREENING_SOURCE_def)
  ultimately show ?thesis by (simp only: evidence_signals_def)
qed

lemma clean_risk:
  assumes "clean_officer e"
  shows "fraud_staging_risk_signals q (xs @ e # ys) = fraud_staging_risk_signals q (xs @ ys)"
proof -
  note c = clean_facts [OF assms]
  have f: "filter (on_field f) (xs @ e # ys) = filter (on_field f) (xs @ ys)" if "f \<noteq> OFFICER_SCREENING_FIELD" for f
    using that by (simp add: c)
  have "sanctions_fraud_signals (xs @ e # ys) = sanctions_fraud_signals (xs @ ys)"
    "anonymized_signals (xs @ e # ys) = anonymized_signals (xs @ ys)"
    "suspicious_asn_signals (xs @ e # ys) = suspicious_asn_signals (xs @ ys)"
    "reuse_signals q (xs @ e # ys) = reuse_signals q (xs @ ys)"
    by (simp_all add: sanctions_fraud_signals_def anonymized_signals_def suspicious_asn_signals_def reuse_signals_def
        f OFFICER_SCREENING_FIELD_def del: filter_append)
  moreover have "staging_signals (xs @ e # ys) = staging_signals (xs @ ys)"
    "long_lived_signals (xs @ e # ys) = long_lived_signals (xs @ ys)"
    "footprint_signals (xs @ e # ys) = footprint_signals (xs @ ys)"
    "brand_signals (xs @ e # ys) = brand_signals (xs @ ys)" "no_risk_signals (xs @ e # ys) = no_risk_signals (xs @ ys)"
    by (simp_all add: staging_signals_def long_lived_signals_def footprint_signals_def brand_signals_def
        no_risk_signals_def c)
  ultimately show ?thesis by (simp only: fraud_staging_risk_signals_def)
qed

text \<open>A clean officer earns nothing: adding the screening row of an officer or owner that is
  neither a match nor up for review leaves the whole assessment as it was, scores, signals, tier
  and confidence.\<close>

theorem clean_officer_changes_nothing:
  assumes "clean_officer e"
  shows "engine_score today q (xs @ e # ys) fcs = engine_score today q (xs @ ys) fcs"
proof -
  note c = clean_facts [OF assms]
  have "entity_legitimacy_signals (xs @ e # ys) = entity_legitimacy_signals (xs @ ys)"
    unfolding entity_legitimacy_signals_def c(2) clean_secondary [OF assms] ..
  moreover have "infrastructure_legitimacy_signals (xs @ e # ys) = infrastructure_legitimacy_signals (xs @ ys)"
    unfolding infrastructure_legitimacy_signals_def c(3) ..
  moreover have "representation_confidence_signals today (xs @ e # ys) fcs = representation_confidence_signals today (xs @ ys) fcs"
    unfolding representation_confidence_signals_def clean_evidence_signals [OF assms] ..
  moreover have "compute_confidence (xs @ e # ys) = compute_confidence (xs @ ys)"
    by (simp add: compute_confidence_def c(6))
  ultimately show ?thesis
    unfolding engine_score_def score_entity_legitimacy_def score_infrastructure_legitimacy_def
      score_representation_confidence_def score_fraud_staging_risk_def clean_risk [OF assms] by simp
qed

section \<open>Reuse of a network operator\<close>

text \<open>Only other companies count as reuse: the critical reuse signal is raised exactly when the
  query succeeds, the run has an operator number, and within the window at least three distinct
  submissions, none of them the run's own submission or of its own company, recorded that number.\<close>

theorem asn_reuse_counts_others:
  assumes "find (\<lambda>x. run_id x = this_run q) (all_runs q) = Some cur"
  shows "(\<exists>s \<in> set (cross_submission_reuse_signals q rows). sig_name s = ''ip_asn_reuse_high'') \<longleftrightarrow>
    query_ok q \<and> current_asns rows \<noteq> [] \<and>
    3 \<le> card {submission_id r | e r. e \<in> set (all_rows q) \<and> r \<in> set (all_runs q) \<and> ev_run e = run_id r
      \<and> run_id r \<noteq> this_run q \<and> submission_id r \<noteq> submission_id cur \<and> entity_id r \<noteq> entity_id cur
      \<and> on_field ''ip_asn'' e \<and> normalized_value e \<in> Some ` set (current_asns rows)
      \<and> now q - asn_reuse_window_days (window_setting q) * (86400 * 10 ^ 6) \<le> created_at e}"
proof -
  let ?cutoff = "now q - asn_reuse_window_days (window_setting q) * (86400 * 10 ^ 6)"
  let ?pairs = "filter (\<lambda>(e, r). reusing q (current_asns rows) ?cutoff e r) (List.product (all_rows q) (all_runs q))"
  have some: "(case x of None \<Rightarrow> False | Some v \<Rightarrow> v \<in> A) \<longleftrightarrow> x \<in> Some ` A" for x :: "string option" and A
    by (cases x) auto
  have P: "reusing q (current_asns rows) ?cutoff e r \<longleftrightarrow> ev_run e = run_id r
      \<and> run_id r \<noteq> this_run q \<and> submission_id r \<noteq> submission_id cur \<and> entity_id r \<noteq> entity_id cur
      \<and> on_field ''ip_asn'' e \<and> normalized_value e \<in> Some ` set (current_asns rows) \<and> ?cutoff \<le> created_at e" for e r
    by (auto simp: reusing_def assms some)
  have pairs: "set (map (submission_id \<circ> snd) (filter (\<lambda>(e, r). Q e r) (List.product A B)))
      = {submission_id r | e r. e \<in> set A \<and> r \<in> set B \<and> Q e r}" for Q and A :: "evidence list" and B
    by force
  have "set (map (submission_id \<circ> snd) ?pairs) = {submission_id r | e r. e \<in> set (all_rows q) \<and> r \<in> set (all_runs q)
      \<and> ev_run e = run_id r \<and> run_id r \<noteq> this_run q \<and> submission_id r \<noteq> submission_id cur \<and> entity_id r \<noteq> entity_id cur
      \<and> on_field ''ip_asn'' e \<and> normalized_value e \<in> Some ` set (current_asns rows) \<and> ?cutoff \<le> created_at e}"
    unfolding pairs P ..
  then have n: "reuse_count q (current_asns rows) ?cutoff = card {submission_id r | e r. e \<in> set (all_rows q) \<and> r \<in> set (all_runs q)
      \<and> ev_run e = run_id r \<and> run_id r \<noteq> this_run q \<and> submission_id r \<noteq> submission_id cur \<and> entity_id r \<noteq> entity_id cur
      \<and> on_field ''ip_asn'' e \<and> normalized_value e \<in> Some ` set (current_asns rows) \<and> ?cutoff \<le> created_at e}"
    unfolding reuse_count_def length_remdups_card_conv by simp
  have "(\<exists>s \<in> set (cross_submission_reuse_signals q rows). sig_name s = ''ip_asn_reuse_high'') \<longleftrightarrow>
      query_ok q \<and> current_asns rows \<noteq> [] \<and> 3 \<le> reuse_count q (current_asns rows) ?cutoff"
    by (simp add: cross_submission_reuse_signals_def Let_def)
  then show ?thesis unfolding n .
qed

section \<open>The stored assessment\<close>

text \<open>What is cited is linked: when every comparison of a run cites evidence of that run, the
  evidence linked to the stored assessment is exactly what its signals cite, each row once.\<close>

theorem cited_evidence_is_linked:
  assumes "\<forall>fc \<in> set fcs. fc_ids fc \<noteq> [] \<and> set (fc_ids fc) \<subseteq> ev_id ` set (filter (\<lambda>e. ev_run e = this_run q) (all_rows q))"
  shows "set (ra_evidence (assess_run today q fcs)) = (\<Union>s \<in> set (ra_signals (assess_run today q fcs)). set (evidence_ids s))
    \<and> distinct (ra_evidence (assess_run today q fcs))"
proof -
  let ?rows = "filter (\<lambda>e. ev_run e = this_run q) (all_rows q)"
  have "comparison_ids fcs \<subseteq> ev_id ` set ?rows" using assms by (auto simp: comparison_ids_def)
  then have "set (evidence_ids s) \<subseteq> ev_id ` set ?rows"
    if "s \<in> set (contributing_signals (engine_score today (Some q) ?rows fcs))" for s
    using engine_signal_ids [OF _ that] assms by blast
  then show ?thesis
    by (auto simp: assess_run_def Let_def referenced_ids_def)
qed

end
