(* ===== verification/Scoring_Samples.thy ===== *)
theory Scoring_Samples
  imports Scoring_Laws
begin

text \<open>
  Concrete rows on which the properties of the risk assessment are exercised, and two behaviours of
  the signal catalog the rows bring to light: an inactive registry status counts as active, and a
  verified tax identifier raises the entity score of a company without registry evidence.
\<close>

definition sample_ev :: "string \<Rightarrow> string \<Rightarrow> int \<Rightarrow> string \<Rightarrow> string \<Rightarrow> evidence" where
  "sample_ev i src t f v = \<lparr>ev_id = i, ev_run = ''r1'', source = src, tier = t, ev_field = Some f,
     raw_value = None, normalized_value = Some v, raw_payload = None, fetched_at = None, created_at = 90, ev_confidence = None, attribution = None\<rparr>"

definition sanctions_row :: evidence where
  "sanctions_row = sample_ev ''e1'' ''ofac'' 1 ''sanctions_hit'' ''true''"

definition bankruptcy_row :: evidence where
  "bankruptcy_row = \<lparr>ev_id = ''e2'', ev_run = ''r1'', source = ''public_records'', tier = 1,
     ev_field = Some ''public_record'', raw_value = Some ''bankruptcy'', normalized_value = Some ''strong'',
     raw_payload = Some [(''status'', JText ''open''), (''filed_date'', JText ''1970-01-01'')],
     fetched_at = Some 0, created_at = 90, ev_confidence = None, attribution = None\<rparr>"

definition clean_row :: evidence where
  "clean_row = sample_ev ''e3'' ''officer_screening'' 1 ''officer_screening_result'' ''CLEAR''"

definition sample_comparison :: field_comparison where
  "sample_comparison = \<lparr>fc_id = ''f1'', evidence_id = Some ''e1'', field_name = ''company_name'', submitted_value = Some ''Acme'',
     discovered_value = Some ''Acme'', match_status = ''match''\<rparr>"

definition sample_query :: reuse_query where
  "sample_query = \<lparr>all_rows = [sanctions_row],
     all_runs = [\<lparr>run_id = ''r1'', submission_id = ''s1'', entity_id = ''c1''\<rparr>],
     this_run = ''r1'', now = 100, window_setting = None, query_ok = True\<rparr>"

lemma sample_ids_cited: "fc_ids sample_comparison = [''e1'']"
  by (simp add: fc_ids_def sample_comparison_def)


definition plus_signal :: signal where
  "plus_signal = signal_of ''linkedin_requester_associated'' Representation Trust (1/4) Fixed [''e1'']"

lemma layer_score_follows_signals_witness: "layer_score [plus_signal] \<le> layer_score []"
  using layer_score_follows_signals [of plus_signal "[]" "[]"] by (simp add: plus_signal_def)

lemma critical_finding_escalates_witness:
  "result_tier (engine_score 0 None [clean_row, sanctions_row] []) = escalate"
  by (rule critical_finding_escalates [of sanctions_row])
    (simp_all add: critical_row_def sanctions_row_def sample_ev_def on_field_def)

lemma sample_open: "open_bankruptcy bankruptcy_row"
  by code_simp

lemma open_bankruptcy_never_pre_clears_witness:
  "result_tier (engine_score 0 None [bankruptcy_row] []) \<noteq> pre_clear"
  by (rule open_bankruptcy_never_pre_clears [OF _ _ _ _ sample_open])
    (simp_all add: bankruptcy_row_def PUBLIC_RECORDS_SOURCE_def PUBLIC_RECORD_FIELD_def on_field_def)

lemma clean_officer_changes_nothing_witness:
  "engine_score 0 None [sanctions_row, clean_row] [] = engine_score 0 None [sanctions_row] []"
proof -
  have "clean_officer clean_row"
    by (simp add: clean_officer_def clean_row_def sample_ev_def OFFICER_SCREENING_SOURCE_def OFFICER_SCREENING_FIELD_def)
  from clean_officer_changes_nothing [OF this, of 0 None "[sanctions_row]" "[]"] show ?thesis by simp
qed

text \<open>Three other companies recorded the same operator number as the run \<open>r1\<close>.\<close>

definition asn_row :: "string \<Rightarrow> evidence" where
  "asn_row r = \<lparr>ev_id = r, ev_run = r, source = ''ipinfo'', tier = 2, ev_field = Some ''ip_asn'',
     raw_value = None, normalized_value = Some ''AS1'', raw_payload = None, fetched_at = None, created_at = 90, ev_confidence = None, attribution = None\<rparr>"

definition reuse_sample :: reuse_query where
  "reuse_sample = \<lparr>all_rows = map asn_row [''r1'', ''r2'', ''r3'', ''r4''],
     all_runs = map (\<lambda>r. \<lparr>run_id = r, submission_id = r, entity_id = r\<rparr>) [''r1'', ''r2'', ''r3'', ''r4''],
     this_run = ''r1'', now = 100, window_setting = None, query_ok = True\<rparr>"

lemma reuse_sample_signals: "cross_submission_reuse_signals reuse_sample [asn_row ''r1'']
    = [signal_of ''ip_asn_reuse_high'' Risk Elevated (dec 6 1) (Reuse 3 30) [''r1'']]"
  by code_simp

lemma asn_reuse_counts_others_witness:
  "3 \<le> card {submission_id r | e r. e \<in> set (all_rows reuse_sample) \<and> r \<in> set (all_runs reuse_sample)
      \<and> ev_run e = run_id r \<and> run_id r \<noteq> this_run reuse_sample
      \<and> submission_id r \<noteq> ''r1'' \<and> entity_id r \<noteq> ''r1'' \<and> on_field ''ip_asn'' e
      \<and> normalized_value e \<in> Some ` set (current_asns [asn_row ''r1''])
      \<and> now reuse_sample - asn_reuse_window_days (window_setting reuse_sample) * (86400 * 10 ^ 6) \<le> created_at e}"
proof -
  have cur: "find (\<lambda>x. run_id x = this_run reuse_sample) (all_runs reuse_sample)
      = Some \<lparr>run_id = ''r1'', submission_id = ''r1'', entity_id = ''r1''\<rparr>"
    by (simp add: reuse_sample_def)
  have "\<exists>s \<in> set (cross_submission_reuse_signals reuse_sample [asn_row ''r1'']). sig_name s = ''ip_asn_reuse_high''"
    by (simp add: reuse_sample_signals)
  from asn_reuse_counts_others [OF cur, THEN iffD1, OF this] show ?thesis by simp
qed

lemma cited_evidence_is_linked_witness:
  "set (ra_evidence (assess_run 0 sample_query [sample_comparison]))
     = (\<Union>s \<in> set (ra_signals (assess_run 0 sample_query [sample_comparison])). set (evidence_ids s))"
  by (rule cited_evidence_is_linked [THEN conjunct1])
    (simp add: sample_ids_cited sample_query_def sanctions_row_def sample_ev_def)

section \<open>Two surprises of the signal catalog\<close>

text \<open>The status is searched for the word \<open>active\<close> anywhere, so \<open>inactive\<close> earns trust.\<close>

lemma inactive_status_counts_as_active:
  "registry_status_signals [sample_ev ''e4'' ''registry'' 1 ''registration_status'' ''Inactive'']
     = [signal_of ''registry_status_active'' Entity Trust (dec 3 1) Fixed [''e4'']]"
  by code_simp

text \<open>The absence of registry evidence has the fixed score 60 when it is the only signal; with the
  trust signal of a verified tax identifier the score is computed, and is higher.\<close>

lemma verified_tax_id_raises_entity_score:
  "fst (score_entity_legitimacy []) = 60"
  "fst (score_entity_legitimacy [sample_ev ''e5'' ''tax_id'' 1 ''tax_id_status'' ''verified'',
     sample_ev ''e6'' ''tax_id'' 1 ''tax_id_name_match'' ''match'']) = 70"
  by code_simp+

end
