(* ===== verification/Crypto.thy ===== *)
theory Crypto
  imports Prelude
begin

text \<open>
  \<open>app/screening/crypto.py\<close> and \<open>app/screening/retention.py\<close>: envelope encryption with one data
  key per subject, crypto-shredding, and the retention job. AES-GCM is not under \<open>src/\<close>: \<open>aead\<close>
  is a parameter, with \<open>authentic\<close> (what was sealed opens under the same key, nonce and
  associated data) as the only thing relied on. Random bytes are arguments. A plaintext is either
  a raw key or the JSON text of a value, represented by the value it denotes; a wrapped key is the
  pair of its nonce and its ciphertext, which the code stores joined. Times are microseconds, a
  naive datetime being UTC.
\<close>

datatype 'p plaintext = KeyBytes string | JsonText 'p

record ('p, 'c) aead =
  seal :: "string \<Rightarrow> string \<Rightarrow> string \<Rightarrow> 'p plaintext \<Rightarrow> 'c"
  unseal :: "string \<Rightarrow> string \<Rightarrow> string \<Rightarrow> 'c \<Rightarrow> 'p plaintext option"

definition authentic :: "('p, 'c) aead \<Rightarrow> bool" where
  "authentic A = (\<forall>k n a p. unseal A k n a (seal A k n a p) = Some p)"

datatype crypto_error = CryptoNotConfigured | DecryptionError | SubjectShredded

type_synonym 'a outcome = "crypto_error + 'a"

definition and_then :: "'e + 'a \<Rightarrow> ('a \<Rightarrow> 'e + 'b) \<Rightarrow> 'e + 'b" where
  "and_then x f = (case x of Inl e \<Rightarrow> Inl e | Inr v \<Rightarrow> f v)"

lemma and_then_simps [simp]: "and_then (Inl e) f = Inl e" "and_then (Inr v) f = f v"
  by (simp_all add: and_then_def)

lemma and_then_Inr: "and_then x f = Inr y \<longleftrightarrow> (\<exists>v. x = Inr v \<and> f v = Inr y)"
  by (cases x) simp_all

section \<open>The master key\<close>

definition B64 :: string where
  "B64 = ''ABCDEFGHIJKLMNOPQRSTUVWXYZabcdefghijklmnopqrstuvwxyz0123456789+/''"

definition b64_value :: "char \<Rightarrow> nat" where
  "b64_value c = length (takeWhile (\<lambda>d. d \<noteq> c) B64)"

fun b64_bytes :: "nat list \<Rightarrow> nat list" where
  "b64_bytes (a # b # c # d # rest) =
     [a * 4 + b div 16, (b mod 16) * 16 + c div 4, (c mod 4) * 64 + d] @ b64_bytes rest"
| "b64_bytes [a, b, c] = [a * 4 + b div 16, (b mod 16) * 16 + c div 4]"
| "b64_bytes [a, b] = [a * 4 + b div 16]"
| "b64_bytes _ = []"

text \<open>\<open>base64.b64decode(raw, validate=True)\<close>; None is \<open>binascii.Error\<close>.\<close>

definition b64decode :: "string \<Rightarrow> string option" where
  "b64decode s =
    (let body = takeWhile (\<lambda>c. c \<noteq> CHR ''='') s; pad = dropWhile (\<lambda>c. c \<noteq> CHR ''='') s
     in if list_all (\<lambda>c. c \<in> set B64) body
           \<and> (length body mod 4, pad) \<in> {(0, ''''), (2, ''==''), (3, ''='')}
        then Some (map char_of (b64_bytes (map b64_value body))) else None)"

definition master :: "string option \<Rightarrow> string outcome" where
  "master raw = (case raw of
       None \<Rightarrow> Inl CryptoNotConfigured
     | Some r \<Rightarrow>
         if r = [] then Inl CryptoNotConfigured
         else case b64decode r of
             None \<Rightarrow> Inl CryptoNotConfigured
           | Some key \<Rightarrow> if length key \<noteq> 32 then Inl CryptoNotConfigured else Inr key)"

definition is_configured :: "string option \<Rightarrow> bool" where
  "is_configured raw = (case master raw of Inl _ \<Rightarrow> False | Inr _ \<Rightarrow> True)"

section \<open>Subject keys\<close>

record 'c key_row =
  key_subject :: string
  wrapped_key :: "(string \<times> 'c) option"
  destroyed_at :: "int option"

record 'c subject_row =
  s_id :: string
  pii :: "('c \<times> string) option"
  relationship_ended_at :: "int option"
  shredded_at :: "int option"
  kyb_entity :: "string option"

record random_bytes =
  fresh_dek :: string
  key_nonce :: string
  data_nonce :: string

definition aad :: "string \<Rightarrow> string \<Rightarrow> string" where
  "aad subject_id purpose = purpose @ '':'' @ subject_id"

definition find_key :: "string \<Rightarrow> 'c key_row list \<Rightarrow> 'c key_row option" where
  "find_key sid rows = find (\<lambda>r. key_subject r = sid) rows"

definition key_row_of :: "'c key_row list \<Rightarrow> string \<Rightarrow> (string \<times> 'c) outcome" where
  "key_row_of rows sid = (case find_key sid rows of
       None \<Rightarrow> Inl DecryptionError
     | Some row \<Rightarrow> (case wrapped_key row of None \<Rightarrow> Inl SubjectShredded | Some w \<Rightarrow> Inr w))"

definition unwrap :: "('p, 'c) aead \<Rightarrow> string option \<Rightarrow> string \<Rightarrow> string \<times> 'c \<Rightarrow> string outcome" where
  "unwrap A raw sid w = (case w of (nonce, wrapped) \<Rightarrow>
     and_then (master raw) (\<lambda>mk.
       case unseal A mk nonce (aad sid ''dek'') wrapped of
         Some (KeyBytes k) \<Rightarrow> Inr k
       | _ \<Rightarrow> Inl DecryptionError))"

definition data_key :: "('p, 'c) aead \<Rightarrow> string option \<Rightarrow> 'c key_row list \<Rightarrow> string \<Rightarrow> string outcome" where
  "data_key A raw rows sid = and_then (key_row_of rows sid) (unwrap A raw sid)"

definition ensure_subject_key :: "('p, 'c) aead \<Rightarrow> string option \<Rightarrow> random_bytes \<Rightarrow> string
    \<Rightarrow> 'c key_row list \<Rightarrow> 'c key_row list outcome" where
  "ensure_subject_key A raw rnd sid rows =
    (if find_key sid rows \<noteq> None then Inr rows
     else and_then (master raw) (\<lambda>mk.
       Inr (rows @ [\<lparr>key_subject = sid,
         wrapped_key = Some (key_nonce rnd, seal A mk (key_nonce rnd) (aad sid ''dek'') (KeyBytes (fresh_dek rnd))),
         destroyed_at = None\<rparr>])))"

definition encrypt_for_subject :: "('p, 'c) aead \<Rightarrow> string option \<Rightarrow> random_bytes \<Rightarrow> string \<Rightarrow> string
    \<Rightarrow> 'p \<Rightarrow> 'c key_row list \<Rightarrow> ('c key_row list \<times> 'c \<times> string) outcome" where
  "encrypt_for_subject A raw rnd purpose sid value rows =
     and_then (ensure_subject_key A raw rnd sid rows) (\<lambda>rows'.
     and_then (data_key A raw rows' sid) (\<lambda>k.
       Inr (rows', seal A k (data_nonce rnd) (aad sid purpose) (JsonText value), data_nonce rnd)))"

definition decrypt_for_subject :: "('p, 'c) aead \<Rightarrow> string option \<Rightarrow> string \<Rightarrow> string
    \<Rightarrow> 'c \<times> string \<Rightarrow> 'c key_row list \<Rightarrow> 'p outcome" where
  "decrypt_for_subject A raw purpose sid sealed rows = (case sealed of (ct, nonce) \<Rightarrow>
     and_then (data_key A raw rows sid) (\<lambda>k.
       case unseal A k nonce (aad sid purpose) ct of
         Some (JsonText v) \<Rightarrow> Inr v
       | _ \<Rightarrow> Inl DecryptionError))"

definition set_subject_pii :: "('p, 'c) aead \<Rightarrow> string option \<Rightarrow> random_bytes \<Rightarrow> 'p \<Rightarrow> 'c subject_row
    \<Rightarrow> 'c key_row list \<Rightarrow> ('c subject_row \<times> 'c key_row list) outcome" where
  "set_subject_pii A raw rnd value s rows =
     and_then (encrypt_for_subject A raw rnd ''pii'' (s_id s) value rows)
       (\<lambda>(rows', ct, nonce). Inr (s\<lparr>pii := Some (ct, nonce)\<rparr>, rows'))"

definition get_subject_pii :: "('p, 'c) aead \<Rightarrow> string option \<Rightarrow> 'c subject_row \<Rightarrow> 'c key_row list
    \<Rightarrow> 'p outcome" where
  "get_subject_pii A raw s rows =
    (if shredded_at s \<noteq> None then Inl SubjectShredded
     else case pii s of
         None \<Rightarrow> Inl SubjectShredded
       | Some sealed \<Rightarrow> decrypt_for_subject A raw ''pii'' (s_id s) sealed rows)"

definition live :: "'c subject_row \<Rightarrow> bool" where
  "live s = (shredded_at s = None \<and> pii s \<noteq> None)"

text \<open>The batch read: the rows of the live subjects that still have a key, then one decryption
  each. The dictionary starts with None for every subject.\<close>

fun get_pii_from :: "('p, 'c) aead \<Rightarrow> string option \<Rightarrow> 'c key_row list \<Rightarrow> 'c subject_row list
    \<Rightarrow> (string \<times> 'p option) list \<Rightarrow> (string \<times> 'p option) list outcome" where
  "get_pii_from A raw keys [] out = Inr out"
| "get_pii_from A raw keys (s # ss) out =
    (case find_key (s_id s) keys of
       None \<Rightarrow> get_pii_from A raw keys ss out
     | Some row \<Rightarrow>
         and_then (unwrap A raw (s_id s) (the (wrapped_key row))) (\<lambda>k.
           case unseal A k (snd (the (pii s))) (aad (s_id s) ''pii'') (fst (the (pii s))) of
             Some (JsonText v) \<Rightarrow> get_pii_from A raw keys ss (AList.update (s_id s) (Some v) out)
           | _ \<Rightarrow> Inl DecryptionError))"

definition get_subjects_pii :: "('p, 'c) aead \<Rightarrow> string option \<Rightarrow> 'c subject_row list \<Rightarrow> 'c key_row list
    \<Rightarrow> (string \<times> 'p option) list outcome" where
  "get_subjects_pii A raw subjects rows =
    (let alive = filter live subjects;
         keys = filter (\<lambda>r. key_subject r \<in> set (map s_id alive) \<and> wrapped_key r \<noteq> None) rows
     in get_pii_from A raw keys alive (fold (\<lambda>s. AList.update (s_id s) None) subjects []))"

definition destroy_key :: "int \<Rightarrow> string \<Rightarrow> 'c key_row list \<Rightarrow> 'c key_row list" where
  "destroy_key now sid rows =
     map (\<lambda>r. if key_subject r = sid then r\<lparr>wrapped_key := None, destroyed_at := Some now\<rparr> else r) rows"

definition shred_subject :: "int \<Rightarrow> 'c subject_row \<Rightarrow> 'c subject_row" where
  "shred_subject now s = s\<lparr>pii := None, shredded_at := Some now\<rparr>"

section \<open>Retention\<close>

definition DEFAULT_RETENTION_DAYS :: int where "DEFAULT_RETENTION_DAYS = 1825"

definition retention_days :: "string option \<Rightarrow> int option" where
  \<comment> \<open>\<open>int(os.environ.get(...))\<close>; None is the \<open>ValueError\<close> of a malformed setting\<close>
  "retention_days env = (case env of None \<Rightarrow> Some DEFAULT_RETENTION_DAYS | Some s \<Rightarrow> py_int s)"

definition DAY :: int where "DAY = 86400 * 10 ^ 6"

definition due :: "int \<Rightarrow> 'c subject_row \<Rightarrow> bool" where
  "due cutoff s = (shredded_at s = None
     \<and> (case relationship_ended_at s of None \<Rightarrow> False | Some t \<Rightarrow> t \<le> cutoff))"

definition shred_expired :: "int \<Rightarrow> int \<Rightarrow> 'c subject_row list \<Rightarrow> 'c key_row list
    \<Rightarrow> nat \<times> 'c subject_row list \<times> 'c key_row list" where
  "shred_expired now days subjects rows =
    (let cutoff = now - days * DAY;
         expired = filter (due cutoff) subjects
     in (length expired,
         map (\<lambda>s. if due cutoff s then shred_subject now s else s) subjects,
         fold (\<lambda>s. destroy_key now (s_id s)) expired rows))"

section \<open>Reading and writing keys\<close>

lemma find_key_append: "find_key sid (rows @ [r]) =
    (case find_key sid rows of None \<Rightarrow> if key_subject r = sid then Some r else None | Some x \<Rightarrow> Some x)"
  by (induction rows) (auto simp: find_key_def)

lemma find_key_subject: "find_key sid rows = Some r \<Longrightarrow> key_subject r = sid \<and> r \<in> set rows"
  by (induction rows) (auto simp: find_key_def split: if_splits)

lemma find_key_destroy: "find_key sid (destroy_key now d rows) =
    map_option (\<lambda>r. if sid = d then r\<lparr>wrapped_key := None, destroyed_at := Some now\<rparr> else r) (find_key sid rows)"
  by (induction rows) (auto simp: find_key_def destroy_key_def)

lemma map_option_idle [simp]: "map_option (\<lambda>r. r) x = x"
  by (cases x) simp_all

lemma find_key_destroy_all:
  "find_key sid (fold (\<lambda>s. destroy_key now (s_id s)) ss rows) =
     map_option (\<lambda>r. if sid \<in> s_id ` set ss then r\<lparr>wrapped_key := None, destroyed_at := Some now\<rparr> else r)
       (find_key sid rows)"
  by (induction ss arbitrary: rows) (auto simp: find_key_destroy option.map_comp comp_def intro!: option.map_cong)

definition has_key :: "'c key_row list \<Rightarrow> string \<Rightarrow> bool" where
  "has_key rows sid = (\<exists>r. find_key sid rows = Some r \<and> wrapped_key r \<noteq> None)"

definition destroyed :: "'c key_row list \<Rightarrow> string \<Rightarrow> bool" where
  "destroyed rows sid = (\<exists>r. find_key sid rows = Some r \<and> wrapped_key r = None)"

lemma data_key_destroyed: "destroyed rows sid \<Longrightarrow> data_key A raw rows sid = Inl SubjectShredded"
  by (auto simp: destroyed_def data_key_def key_row_of_def)

lemma destroyed_destroy: "find_key sid rows \<noteq> None \<Longrightarrow> destroyed (destroy_key now sid rows) sid"
  by (auto simp: destroyed_def find_key_destroy)

lemma data_key_cong: "find_key sid rows' = find_key sid rows \<Longrightarrow> data_key A raw rows' sid = data_key A raw rows sid"
  by (simp add: data_key_def key_row_of_def)

lemma decrypt_cong:
  assumes "find_key sid rows' = find_key sid rows"
  shows "decrypt_for_subject A raw purpose sid sealed rows' = decrypt_for_subject A raw purpose sid sealed rows"
  unfolding decrypt_for_subject_def data_key_cong [OF assms] by (rule refl)

lemma ensure_keeps:
  "ensure_subject_key A raw rnd sid rows = Inr rows' \<Longrightarrow> find_key other rows = Some r \<Longrightarrow>
   find_key other rows' = Some r"
  by (auto simp: ensure_subject_key_def and_then_Inr find_key_append split: if_splits)

lemma decrypt_destroyed: "destroyed rows sid \<Longrightarrow>
    decrypt_for_subject A raw purpose sid sealed rows = Inl SubjectShredded"
  by (cases sealed) (simp add: decrypt_for_subject_def data_key_destroyed)

lemma encrypt_destroyed: "destroyed rows sid \<Longrightarrow>
    encrypt_for_subject A raw rnd purpose sid v rows = Inl SubjectShredded"
  by (auto simp: encrypt_for_subject_def ensure_subject_key_def data_key_destroyed) (auto simp: destroyed_def)

lemma encrypt_decrypt:
  assumes "authentic A" and "encrypt_for_subject A raw rnd purpose sid v rows = Inr (rows', sealed)"
  shows "decrypt_for_subject A raw purpose sid sealed rows' = Inr v"
  using assms by (auto simp: encrypt_for_subject_def and_then_Inr decrypt_for_subject_def authentic_def)

lemma encrypt_rows:
  assumes "encrypt_for_subject A raw rnd purpose sid v rows = Inr (rows', sealed)"
    and "find_key other rows = Some r"
  shows "find_key other rows' = Some r"
  using assms by (auto simp: encrypt_for_subject_def and_then_Inr dest: ensure_keeps)

lemma encrypt_has_key:
  assumes "encrypt_for_subject A raw rnd purpose sid v rows = Inr (rows', sealed)"
  shows "has_key rows' sid"
  using assms by (auto simp: encrypt_for_subject_def and_then_Inr data_key_def key_row_of_def has_key_def
      split: option.splits)

text \<open>What encryption succeeds on: a configured master key and a key that opens or is created.\<close>

lemma encrypt_defined:
  assumes "authentic A" and "master raw = Inr mk" and "find_key sid rows = None"
  shows "\<exists>rows' sealed. encrypt_for_subject A raw rnd purpose sid v rows = Inr (rows', sealed)"
  using assms by (simp add: encrypt_for_subject_def ensure_subject_key_def data_key_def key_row_of_def
      find_key_append unwrap_def authentic_def)

section \<open>Properties of the subject keys\<close>

text \<open>C11. What was encrypted for a subject is decrypted for the same subject and purpose, from the
  keys the encryption left and from any later state that still has this subject's key row; so
  writing a subject's attributes and reading them back returns them.\<close>

theorem encrypt_decrypt_roundtrip:
  assumes "authentic A"
  shows "(encrypt_for_subject A raw rnd purpose sid v rows = Inr (rows', sealed) \<longrightarrow>
      find_key sid later = find_key sid rows' \<longrightarrow>
      decrypt_for_subject A raw purpose sid sealed later = Inr v) \<and>
    (set_subject_pii A raw rnd v s rows = Inr (s', rows') \<longrightarrow> shredded_at s = None \<longrightarrow>
      get_subject_pii A raw s' rows' = Inr v)"
proof (intro conjI impI)
  assume e: "encrypt_for_subject A raw rnd purpose sid v rows = Inr (rows', sealed)"
    and f: "find_key sid later = find_key sid rows'"
  show "decrypt_for_subject A raw purpose sid sealed later = Inr v"
    using encrypt_decrypt [OF assms e] by (simp only: decrypt_cong [OF f])
next
  assume "set_subject_pii A raw rnd v s rows = Inr (s', rows')" and "shredded_at s = None"
  then show "get_subject_pii A raw s' rows' = Inr v"
    using encrypt_decrypt [OF assms] by (auto simp: set_subject_pii_def and_then_Inr get_subject_pii_def)
qed

text \<open>A cipher that tags the plaintext with key, nonce and associated data, for the examples.\<close>

definition tag_cipher :: "('p, string \<times> string \<times> string \<times> 'p plaintext) aead" where
  "tag_cipher = \<lparr>seal = (\<lambda>k n a p. (k, n, a, p)),
     unseal = (\<lambda>k n a (k', n', a', p). if (k, n, a) = (k', n', a') then Some p else None)\<rparr>"

lemma tag_cipher_authentic: "authentic tag_cipher"
  by (simp add: authentic_def tag_cipher_def)

definition sample_master :: "string option" where
  "sample_master = Some (replicate 43 CHR ''A'' @ ''='')"

lemma sample_master_key: "master sample_master = Inr (replicate 32 (char_of (0 :: nat)))"
  by code_simp

definition sample_random :: random_bytes where
  "sample_random = \<lparr>fresh_dek = ''dek'', key_nonce = ''n1'', data_nonce = ''n2''\<rparr>"

definition sample_row :: "(string \<times> string \<times> string \<times> 'p plaintext) subject_row" where
  "sample_row = \<lparr>s_id = ''s1'', pii = None, relationship_ended_at = Some 5, shredded_at = None, kyb_entity = None\<rparr>"

lemma sample_set_pii: "\<exists>s' rows'. set_subject_pii tag_cipher sample_master sample_random (v :: 'p) sample_row []
    = Inr (s', rows') \<and> find_key ''s1'' rows' \<noteq> None \<and> s_id s' = ''s1''
      \<and> get_subject_pii tag_cipher sample_master s' rows' = Inr v"
proof -
  have "find_key ''s1'' ([] :: (string \<times> string \<times> string \<times> 'p plaintext) key_row list) = None"
    by (simp add: find_key_def)
  from encrypt_defined [OF tag_cipher_authentic sample_master_key this]
  obtain rows' sealed where e: "encrypt_for_subject tag_cipher sample_master sample_random ''pii'' ''s1'' v []
      = Inr (rows', sealed)" by blast
  moreover obtain ct n where "sealed = (ct, n)" by (cases sealed)
  ultimately show ?thesis
    using encrypt_has_key [OF e] encrypt_decrypt [OF tag_cipher_authentic e]
    by (auto simp: set_subject_pii_def sample_row_def has_key_def get_subject_pii_def)
qed

lemma encrypt_decrypt_roundtrip_witness:
  "\<exists>s' rows'. set_subject_pii tag_cipher sample_master sample_random ''Ada'' sample_row [] = Inr (s', rows')
     \<and> get_subject_pii tag_cipher sample_master s' rows' = Inr ''Ada''"
proof -
  obtain s' rows' where w: "set_subject_pii tag_cipher sample_master sample_random ''Ada'' sample_row [] = Inr (s', rows')"
    using sample_set_pii [of "''Ada''"] by blast
  have "shredded_at sample_row = None" by (simp add: sample_row_def)
  with w have "get_subject_pii tag_cipher sample_master s' rows' = Inr ''Ada''"
    by (rule encrypt_decrypt_roundtrip [OF tag_cipher_authentic, THEN conjunct2, rule_format])
  with w show ?thesis by (intro exI conjI)
qed

text \<open>C12. Shredding is final and precise: once a subject's key row is destroyed, no ciphertext of
  that subject is read and nothing is encrypted for it again, whatever the key bytes, while every
  other subject's ciphertexts decrypt exactly as before.\<close>

theorem shred_is_final_and_precise:
  assumes "find_key sid rows \<noteq> None"
  shows "decrypt_for_subject A raw purpose sid sealed (destroy_key now sid rows) = Inl SubjectShredded \<and>
    encrypt_for_subject A raw rnd purpose sid v (destroy_key now sid rows) = Inl SubjectShredded \<and>
    get_subject_pii A raw (shred_subject now s) rows2 = Inl SubjectShredded \<and>
    (other \<noteq> sid \<longrightarrow> decrypt_for_subject A raw purpose other sealed (destroy_key now sid rows)
        = decrypt_for_subject A raw purpose other sealed rows)"
proof (intro conjI impI)
  note d = destroyed_destroy [OF assms]
  show "decrypt_for_subject A raw purpose sid sealed (destroy_key now sid rows) = Inl SubjectShredded"
    by (rule decrypt_destroyed [OF d])
  show "encrypt_for_subject A raw rnd purpose sid v (destroy_key now sid rows) = Inl SubjectShredded"
    by (rule encrypt_destroyed [OF d])
  show "get_subject_pii A raw (shred_subject now s) rows2 = Inl SubjectShredded"
    by (simp add: get_subject_pii_def shred_subject_def)
  assume "other \<noteq> sid"
  then have "find_key other (destroy_key now sid rows) = find_key other rows"
    by (simp add: find_key_destroy)
  then show "decrypt_for_subject A raw purpose other sealed (destroy_key now sid rows)
        = decrypt_for_subject A raw purpose other sealed rows"
    by (rule decrypt_cong)
qed

lemma shred_is_final_and_precise_witness:
  "\<exists>s' rows'. set_subject_pii tag_cipher sample_master sample_random ''Ada'' sample_row [] = Inr (s', rows')
     \<and> decrypt_for_subject tag_cipher sample_master ''pii'' ''s1'' (the (pii s')) (destroy_key 9 ''s1'' rows')
         = Inl SubjectShredded"
proof -
  obtain s' rows' where w: "set_subject_pii tag_cipher sample_master sample_random ''Ada'' sample_row [] = Inr (s', rows')"
    "find_key ''s1'' rows' \<noteq> None" using sample_set_pii [of "''Ada''"] by blast
  from shred_is_final_and_precise [OF w(2), THEN conjunct1]
  show ?thesis using w(1) by (intro exI conjI)
qed

text \<open>The retention job shreds exactly the unshredded subjects whose relationship ended at
  least the retention period ago: it counts them, clears their attributes and destroys their keys;
  every other subject row and key is untouched.\<close>

theorem retention_shreds_exactly_due:
  assumes "shred_expired now days subjects rows = (n, subjects', rows')"
  shows "n = length (filter (due (now - days * DAY)) subjects) \<and>
    subjects' = map (\<lambda>s. if due (now - days * DAY) s then s\<lparr>pii := None, shredded_at := Some now\<rparr> else s) subjects \<and>
    (\<forall>sid. find_key sid rows' = map_option (\<lambda>r.
       if sid \<in> s_id ` {s \<in> set subjects. due (now - days * DAY) s}
       then r\<lparr>wrapped_key := None, destroyed_at := Some now\<rparr> else r) (find_key sid rows))"
  using assms by (auto simp: shred_expired_def Let_def shred_subject_def find_key_destroy_all)

lemma retention_shreds_exactly_due_witness:
  "fst (shred_expired (10 * DAY) 9 [sample_row] []) = 1"
proof -
  have "due (10 * DAY - 9 * DAY) sample_row" by (simp add: due_def sample_row_def DAY_def)
  then show ?thesis
    using retention_shreds_exactly_due [of "10 * DAY" 9 "[sample_row]" "[]"]
    by (simp add: shred_expired_def Let_def)
qed

section \<open>The batch read\<close>

lemma find_key_filter: "distinct (map key_subject rows) \<Longrightarrow> find_key sid (filter P rows)
    = (case find_key sid rows of None \<Rightarrow> None | Some r \<Rightarrow> if P r then Some r else None)"
proof (induction rows)
  case (Cons r rows)
  have "find_key (key_subject r) rows = None"
  proof (rule ccontr)
    assume "find_key (key_subject r) rows \<noteq> None"
    then obtain x where "find_key (key_subject r) rows = Some x" by blast
    from find_key_subject [OF this] show False using Cons.prems by (metis distinct.simps(2) image_eqI list.simps(9) list.set_map)
  qed
  then show ?case using Cons by (auto simp: find_key_def)
qed (simp add: find_key_def)

text \<open>What one subject's entry is after the loop over the live subjects.\<close>

definition read_with :: "('p, 'c) aead \<Rightarrow> string option \<Rightarrow> 'c key_row list \<Rightarrow> 'c subject_row \<Rightarrow> 'p option" where
  "read_with A raw keys s = (case find_key (s_id s) keys of
       None \<Rightarrow> None
     | Some row \<Rightarrow> (case unwrap A raw (s_id s) (the (wrapped_key row)) of
           Inl _ \<Rightarrow> None
         | Inr k \<Rightarrow> (case unseal A k (snd (the (pii s))) (aad (s_id s) ''pii'') (fst (the (pii s))) of
               Some (JsonText v) \<Rightarrow> Some v | _ \<Rightarrow> None)))"

lemma get_pii_from_entries:
  assumes "get_pii_from A raw keys ss out = Inr out'" and "distinct (map s_id ss)"
  shows "(n \<notin> s_id ` set ss \<longrightarrow> map_of out' n = map_of out n) \<and>
    (\<forall>s \<in> set ss. map_of out' (s_id s) =
      (case read_with A raw keys s of None \<Rightarrow> map_of out (s_id s) | Some v \<Rightarrow> Some (Some v)))"
  using assms
proof (induction ss arbitrary: out n)
  case (Cons s ss)
  have fresh: "s_id s \<notin> s_id ` set ss" and d: "distinct (map s_id ss)" using Cons.prems(2) by auto
  define out1 where out1: "out1 = (case read_with A raw keys s of None \<Rightarrow> out | Some v \<Rightarrow> AList.update (s_id s) (Some v) out)"
  have run: "get_pii_from A raw keys ss out1 = Inr out'"
  proof (cases "find_key (s_id s) keys")
    case None
    then show ?thesis using Cons.prems(1) by (simp add: out1 read_with_def)
  next
    case (Some row)
    then obtain k where k: "unwrap A raw (s_id s) (the (wrapped_key row)) = Inr k"
      using Cons.prems(1) by (auto simp: and_then_Inr)
    obtain v where v: "unseal A k (snd (the (pii s))) (aad (s_id s) ''pii'') (fst (the (pii s))) = Some (JsonText v)"
      using Cons.prems(1) Some k by (auto split: option.splits plaintext.splits)
    show ?thesis using Cons.prems(1) Some k v by (simp add: out1 read_with_def)
  qed
  have same: "map_of out1 m = map_of out m" if "m \<noteq> s_id s" for m
    using that by (simp add: out1 update_conv' split: option.split)
  have rest: "\<forall>x \<in> set ss. map_of out' (s_id x) =
      (case read_with A raw keys x of None \<Rightarrow> map_of out1 (s_id x) | Some v \<Rightarrow> Some (Some v))"
    using Cons.IH [OF run d] by blast
  have "map_of out' (s_id s) = map_of out1 (s_id s)" using Cons.IH [OF run d, of "s_id s"] fresh by blast
  then have "map_of out' (s_id s) =
      (case read_with A raw keys s of None \<Rightarrow> map_of out (s_id s) | Some v \<Rightarrow> Some (Some v))"
    by (simp add: out1 update_conv' split: option.split)
  moreover have "map_of out1 (s_id x) = map_of out (s_id x)" if "x \<in> set ss" for x
    using fresh that same by (metis image_eqI)
  with rest have "\<forall>x \<in> set ss. map_of out' (s_id x) =
      (case read_with A raw keys x of None \<Rightarrow> map_of out (s_id x) | Some v \<Rightarrow> Some (Some v))"
    by (simp cong: option.case_cong)
  moreover have "n \<notin> s_id ` set (s # ss) \<longrightarrow> map_of out' n = map_of out n"
    using Cons.IH [OF run d, of n] same [of n] by auto
  ultimately show ?case by simp
qed simp

lemma initial_pii: "map_of (fold (\<lambda>s. AList.update (s_id s) None) ss out) n
    = (if n \<in> s_id ` set ss then Some None else map_of out n)"
  by (induction ss arbitrary: out) (auto simp: update_conv')

text \<open>Reading many subjects at once agrees with reading each: a subject's entry is its
  attributes when the single read returns them and None when the single read says shredded or has
  no key; a batch that succeeds hides no authentication failure.\<close>

theorem batch_read_agrees:
  assumes "get_subjects_pii A raw ss rows = Inr out" and "s \<in> set ss"
    and "distinct (map s_id ss)" and "distinct (map key_subject rows)"
  shows "map_of out (s_id s) = Some (case get_subject_pii A raw s rows of Inl _ \<Rightarrow> None | Inr v \<Rightarrow> Some v)"
proof -
  let ?alive = "filter live ss"
  let ?keys = "filter (\<lambda>r. key_subject r \<in> set (map s_id ?alive) \<and> wrapped_key r \<noteq> None) rows"
  let ?out0 = "fold (\<lambda>s. AList.update (s_id s) None) ss []"
  have run: "get_pii_from A raw ?keys ?alive ?out0 = Inr out"
    using assms(1) by (simp add: get_subjects_pii_def Let_def)
  have d: "distinct (map s_id ?alive)" using assms(3) by (rule distinct_map_filter)
  have start: "map_of ?out0 (s_id s) = Some None" using assms(2) by (simp add: initial_pii)
  note entries = get_pii_from_entries [OF run d, of "s_id s"]
  show ?thesis
  proof (cases "live s")
    case False
    have "s_id s \<notin> s_id ` set ?alive"
    proof
      assume "s_id s \<in> s_id ` set ?alive"
      then obtain x where "x \<in> set ss" "live x" "s_id x = s_id s" by auto
      then show False using False assms(2,3) by (auto simp: distinct_map dest: inj_onD)
    qed
    then show ?thesis using entries start False
      by (auto simp: live_def get_subject_pii_def split: option.splits)
  next
    case True
    then obtain ct n where pii: "pii s = Some (ct, n)" and sh: "shredded_at s = None"
      by (auto simp: live_def)
    have "s \<in> set ?alive" using True assms(2) by simp
    with entries start have "map_of out (s_id s) = Some (read_with A raw ?keys s)"
      by (auto split: option.splits)
    moreover have "read_with A raw ?keys s = (case get_subject_pii A raw s rows of Inl _ \<Rightarrow> None | Inr v \<Rightarrow> Some v)"
      using True assms(2) find_key_subject [of "s_id s" rows]
      by (auto simp: read_with_def find_key_filter [OF assms(4)] get_subject_pii_def pii sh
          decrypt_for_subject_def data_key_def key_row_of_def and_then_def
          split: option.splits plaintext.splits sum.splits)
    ultimately show ?thesis by simp
  qed
qed

lemma batch_read_agrees_witness:
  "\<exists>out. get_subjects_pii (tag_cipher :: (string, _) aead) sample_master [sample_row] [] = Inr out \<and> map_of out ''s1'' = Some None"
proof -
  have g: "get_subjects_pii (tag_cipher :: (string, _) aead) sample_master [sample_row] [] = Inr [(''s1'', None)]"
    by (simp add: get_subjects_pii_def sample_row_def live_def)
  have "s_id sample_row = ''s1''" by (simp add: sample_row_def)
  then show ?thesis using batch_read_agrees [OF g, of sample_row] g
    by (simp add: get_subject_pii_def sample_row_def)
qed

end
