(* ===== verification/Orchestrator.thy ===== *)
theory Orchestrator
  imports Prelude
begin

text \<open>
  \<open>app/pipeline/orchestrator.py\<close>: a run driven through an ordered list of stages, with a time
  budget per stage and per run, as both workers configure it. The database is a type variable:
  \<open>run_ops\<close> reads and writes the run's row, which is a \<open>VerificationRun\<close> or a \<open>ScreeningRun\<close>.

  A stage runs on its own session inside its own transaction, so its writes land exactly when it
  returns within its budget: \<open>execute\<close> yields the new database and context, or None for an
  exception. The clock is an input: \<open>timing\<close> says of each stage whether the run budget was spent
  when it was due, whether it overran its own budget and whether Celery's soft time limit struck
  while it ran. A context maps a key to an object identity and the entry's status, because the
  orchestrator compares entries with \<open>is\<close>.
\<close>

definition STAGE_COMPLETE :: string where "STAGE_COMPLETE = ''complete''"
definition STAGE_UNAVAILABLE :: string where "STAGE_UNAVAILABLE = ''unavailable''"
definition STAGE_PENDING :: string where "STAGE_PENDING = ''pending''"

definition OUTAGE_KINDS :: "string list" where
  "OUTAGE_KINDS = [''timeout'', ''unavailable'', ''rate_limited'']"

record 'e entry =
  identity :: nat
  entry_status :: "string option"
  payload :: 'e

type_synonym 'e run_context = "(string \<times> 'e entry) list"

record run_state =
  run_status :: string
  started_at :: "int option"
  finished_at :: "int option"
  failure_reason :: "string option"
  availability :: "(string \<times> string) list"

record 'd run_ops =
  get_run :: "'d \<Rightarrow> run_state option"
  put_run :: "run_state \<Rightarrow> 'd \<Rightarrow> 'd"

record ('d, 'e) stage =
  stage_name :: string
  always_run :: bool
  execute :: "'d \<Rightarrow> 'e run_context \<Rightarrow> ('d \<times> 'e run_context) option"

record timing =
  spent :: bool
  overran :: bool
  task_limit :: bool

definition stage_reported_outage :: "'e run_context \<Rightarrow> 'e run_context \<Rightarrow> bool" where
  "stage_reported_outage old_ctx new_ctx =
     list_ex (\<lambda>(key, value).
       (case map_of old_ctx key of Some old \<Rightarrow> identity old \<noteq> identity value | None \<Rightarrow> True)
       \<and> (case entry_status value of Some s \<Rightarrow> s \<in> set OUTAGE_KINDS | None \<Rightarrow> False)) new_ctx"

definition update_run :: "'d run_ops \<Rightarrow> (run_state \<Rightarrow> run_state) \<Rightarrow> 'd \<Rightarrow> 'd" where
  "update_run ops f db = (case get_run ops db of None \<Rightarrow> db | Some r \<Rightarrow> put_run ops (f r) db)"

definition update_stage_status :: "'d run_ops \<Rightarrow> string \<Rightarrow> string \<Rightarrow> 'd \<Rightarrow> 'd" where
  "update_stage_status ops name status =
     update_run ops (\<lambda>r. r\<lparr>availability := AList.update name status (availability r)\<rparr>)"

text \<open>The stages in order, each with its timing. The flag tells that the task limit struck.\<close>

fun run_stages :: "'d run_ops \<Rightarrow> (('d, 'e) stage \<times> timing) list \<Rightarrow> 'e run_context \<Rightarrow> 'd \<Rightarrow> 'd \<times> bool" where
  "run_stages ops [] ctx db = (db, False)"
| "run_stages ops ((s, t) # rest) ctx db =
    (if spent t \<and> \<not> always_run s
     then run_stages ops rest ctx (update_stage_status ops (stage_name s) STAGE_UNAVAILABLE db)
     else if task_limit t then (db, True)
     else if overran t
     then run_stages ops rest ctx (update_stage_status ops (stage_name s) STAGE_UNAVAILABLE db)
     else case execute s db ctx of
       None \<Rightarrow> run_stages ops rest ctx (update_stage_status ops (stage_name s) STAGE_UNAVAILABLE db)
     | Some (db', ctx') \<Rightarrow>
         run_stages ops rest ctx' (update_stage_status ops (stage_name s)
           (if stage_reported_outage ctx ctx' then STAGE_UNAVAILABLE else STAGE_COMPLETE) db'))"

text \<open>A stage fails, is cut off by the task limit, or is done.\<close>

definition stage_fails :: "('d, 'e) stage \<Rightarrow> timing \<Rightarrow> 'd \<Rightarrow> 'e run_context \<Rightarrow> bool" where
  "stage_fails s t db ctx = (spent t \<and> \<not> always_run s
     \<or> \<not> task_limit t \<and> (overran t \<or> execute s db ctx = None))"

definition stage_done :: "('d, 'e) stage \<Rightarrow> timing \<Rightarrow> 'd \<Rightarrow> 'e run_context \<Rightarrow> 'd \<Rightarrow> 'e run_context \<Rightarrow> bool" where
  "stage_done s t db ctx db' ctx' = (\<not> (spent t \<and> \<not> always_run s) \<and> \<not> task_limit t \<and> \<not> overran t
     \<and> execute s db ctx = Some (db', ctx'))"

lemma run_stages_fails: "stage_fails s t db ctx \<Longrightarrow> run_stages ops ((s, t) # rest) ctx db
    = run_stages ops rest ctx (update_stage_status ops (stage_name s) STAGE_UNAVAILABLE db)"
  by (auto simp: stage_fails_def)

lemma run_stages_done: "stage_done s t db ctx db' ctx' \<Longrightarrow> run_stages ops ((s, t) # rest) ctx db
    = run_stages ops rest ctx' (update_stage_status ops (stage_name s)
        (if stage_reported_outage ctx ctx' then STAGE_UNAVAILABLE else STAGE_COMPLETE) db')"
  by (auto simp: stage_done_def)

lemma run_stages_cases:
  "stage_fails s t db ctx \<or> (\<exists>db' ctx'. stage_done s t db ctx db' ctx')
   \<or> run_stages ops ((s, t) # rest) ctx db = (db, True) \<and> \<not> (spent t \<and> \<not> always_run s)"
proof (cases "spent t \<and> \<not> always_run s")
  case True then show ?thesis by (simp add: stage_fails_def)
next
  case False
  then show ?thesis
    by (cases "task_limit t"; cases "execute s db ctx"; cases "overran t")
      (auto simp: stage_fails_def stage_done_def)
qed

text \<open>One stage of a run as a step from the context and database before it to those after it; a
  run is a chain of such steps, cut short when the task limit strikes.\<close>

inductive stage_step :: "'d run_ops \<Rightarrow> ('d, 'e) stage \<Rightarrow> timing \<Rightarrow> 'e run_context \<times> 'd \<Rightarrow> 'e run_context \<times> 'd \<Rightarrow> bool"
  for ops :: "'d run_ops" and s :: "('d, 'e) stage" and t :: timing where
  fails: "stage_fails s t db ctx \<Longrightarrow>
    stage_step ops s t (ctx, db) (ctx, update_stage_status ops (stage_name s) STAGE_UNAVAILABLE db)"
| completes: "stage_done s t db ctx db' ctx' \<Longrightarrow>
    stage_step ops s t (ctx, db) (ctx', update_stage_status ops (stage_name s)
      (if stage_reported_outage ctx ctx' then STAGE_UNAVAILABLE else STAGE_COMPLETE) db')"

inductive_simps stage_step_iff: "stage_step ops s t (ctx, db) (ctx2, db2)"

lemma stage_stepE:
  assumes "stage_step ops s t (ctx, db) (ctx2, db2)"
  obtains (failed) "stage_fails s t db ctx" and "ctx2 = ctx"
      and "db2 = update_stage_status ops (stage_name s) STAGE_UNAVAILABLE db"
  | (finished) db' where "stage_done s t db ctx db' ctx2"
      and "db2 = update_stage_status ops (stage_name s)
        (if stage_reported_outage ctx ctx2 then STAGE_UNAVAILABLE else STAGE_COMPLETE) db'"
  using assms unfolding stage_step_iff by blast

lemma run_stages_step:
  assumes "run_stages ops ((s, t) # rest) ctx db = (db', stopped)"
  shows "stopped \<and> db' = db \<or> (\<exists>ctx2 db2. stage_step ops s t (ctx, db) (ctx2, db2) \<and> run_stages ops rest ctx2 db2 = (db', stopped))"
  using run_stages_cases [of s t db ctx ops rest]
proof (elim disjE exE conjE)
  assume f: "stage_fails s t db ctx"
  from assms show ?thesis unfolding run_stages_fails [OF f] using stage_step.fails [OF f] by blast
next
  fix db2 ctx2 assume d: "stage_done s t db ctx db2 ctx2"
  from assms show ?thesis unfolding run_stages_done [OF d] using stage_step.completes [OF d] by blast
qed (use assms in \<open>simp del: run_stages.simps\<close>)

lemma run_stages_no_limit:
  assumes "run_stages ops ((s, t) # rest) ctx db = (db', stopped)" and "\<not> task_limit t"
  shows "\<exists>ctx2 db2. stage_step ops s t (ctx, db) (ctx2, db2) \<and> run_stages ops rest ctx2 db2 = (db', stopped)"
proof (cases "stage_fails s t db ctx")
  case True
  from assms(1) show ?thesis unfolding run_stages_fails [OF True] using stage_step.fails [OF True] by blast
next
  case False
  then obtain db2 ctx2 where d: "stage_done s t db ctx db2 ctx2"
    using assms(2) by (auto simp: stage_fails_def stage_done_def)
  from assms(1) show ?thesis unfolding run_stages_done [OF d] using stage_step.completes [OF d] by blast
qed

definition finish_failed :: "'d run_ops \<Rightarrow> string \<Rightarrow> int \<Rightarrow> ('d \<Rightarrow> 'd) \<Rightarrow> 'd \<Rightarrow> 'd" where
  "finish_failed ops reason now finalize db = (case get_run ops db of
       None \<Rightarrow> db
     | Some r \<Rightarrow> finalize (put_run ops
         (r\<lparr>availability := map (\<lambda>(n, s). (n, if s = STAGE_PENDING then STAGE_UNAVAILABLE else s))
              (availability r),
            run_status := ''failed'', finished_at := Some now, failure_reason := Some reason\<rparr>) db))"

definition run_sync :: "'d run_ops \<Rightarrow> (('d, 'e) stage \<times> timing) list \<Rightarrow> int \<Rightarrow> int \<Rightarrow> ('d \<Rightarrow> 'd) \<Rightarrow> 'd \<Rightarrow> 'd" where
  "run_sync ops stages start finish finalize db = (case get_run ops db of
       None \<Rightarrow> db
     | Some r \<Rightarrow>
         let db1 = put_run ops (r\<lparr>run_status := ''running'', started_at := Some start,
               availability := fold (\<lambda>(s, _). AList.update (stage_name s) STAGE_PENDING) stages []\<rparr>) db
         in case run_stages ops stages [] db1 of
              (db2, True) \<Rightarrow> finish_failed ops ''Task time limit exceeded; partial report kept.''
                finish finalize db2
            | (db2, False) \<Rightarrow> update_run ops
                (\<lambda>r. r\<lparr>run_status := ''complete'', finished_at := Some finish\<rparr>) db2)"

section \<open>The row of a run\<close>

text \<open>Once the stages are through without interruption, each stage's entry is settled, and one
  that was skipped, overran or raised is unavailable.\<close>

definition must_fail :: "('d, 'e) stage \<Rightarrow> timing \<Rightarrow> bool" where
  "must_fail s t = (spent t \<and> \<not> always_run s \<or> overran t \<or> (\<forall>db ctx. execute s db ctx = None))"

text \<open>A run that exists always ends, complete or failed, with no entry pending. When it completes,
  every stage is settled and every stage that had to fail is unavailable.\<close>

definition settled :: "(('d, 'e) stage \<times> timing) list \<Rightarrow> run_state \<Rightarrow> bool" where
  "settled sts r = (run_status r \<in> {''complete'', ''failed''} \<and>
     (\<forall>n. map_of (availability r) n \<noteq> Some STAGE_PENDING) \<and>
     (run_status r = ''complete'' \<longrightarrow> (\<forall>(s, t) \<in> set sts.
        map_of (availability r) (stage_name s) \<in> {Some STAGE_COMPLETE, Some STAGE_UNAVAILABLE}
        \<and> (must_fail s t \<longrightarrow> map_of (availability r) (stage_name s) = Some STAGE_UNAVAILABLE))))"

lemma initial_entries: "n \<notin> stage_name ` fst ` set sts \<Longrightarrow>
    map_of (fold (\<lambda>(s, _). AList.update (stage_name s) STAGE_PENDING) sts av) n = map_of av n"
  by (induction sts arbitrary: av) (auto simp: update_conv' split: prod.splits)

lemma map_values: "map_of (map (\<lambda>(n, s). (n, f s)) xs) k = map_option f (map_of xs k)"
  by (induction xs) auto

lemma pending_unavailable: "STAGE_UNAVAILABLE \<noteq> STAGE_PENDING" "STAGE_COMPLETE \<noteq> STAGE_PENDING"
  by (simp_all add: STAGE_UNAVAILABLE_def STAGE_PENDING_def STAGE_COMPLETE_def)

text \<open>\<open>kept names written r r'\<close>: the status is the same, so are the entries of the stages \<open>names\<close>
  not in \<open>written\<close>, and other entries are the same or not pending.\<close>

definition kept :: "string set \<Rightarrow> string set \<Rightarrow> run_state \<Rightarrow> run_state \<Rightarrow> bool" where
  "kept names written r r' = (run_status r' = run_status r \<and>
     (\<forall>n \<in> names - written. map_of (availability r') n = map_of (availability r) n) \<and>
     (\<forall>n. n \<notin> names \<longrightarrow> map_of (availability r') n \<noteq> Some STAGE_PENDING
        \<or> map_of (availability r') n = map_of (availability r) n))"

lemma kept_refl [simp]: "kept names w r r"
  by (simp add: kept_def)

lemma kept_update:
  "n \<in> names \<Longrightarrow> kept names {n} r (r\<lparr>availability := AList.update n st (availability r)\<rparr>)"
  by (auto simp: kept_def update_conv')

lemma kept_trans: "kept names w r r' \<Longrightarrow> kept names w' r' r'' \<Longrightarrow> kept names (w \<union> w') r r''"
  by (auto simp: kept_def)

text \<open>An invariant of the database that does not depend on the run's row: a run keeps it when each of
  its stages does.\<close>

locale run_invariant =
  fixes ops :: "'d run_ops" and inv :: "'d \<Rightarrow> bool"
  assumes put_keeps: "inv db \<Longrightarrow> inv (put_run ops r db)"
begin

lemma update_run_keeps: "inv db \<Longrightarrow> inv (update_run ops f db)"
  by (simp add: update_run_def put_keeps split: option.split)

lemma status_keeps: "inv db \<Longrightarrow> inv (update_stage_status ops n st db)"
  by (simp add: update_stage_status_def update_run_keeps)

lemma run_stages_inv:
  assumes "\<forall>p \<in> set sts. \<forall>db ctx db' ctx'. inv db \<longrightarrow> execute (fst p) db ctx = Some (db', ctx') \<longrightarrow> inv db'"
    and "inv db"
  shows "inv (fst (run_stages ops sts ctx db))"
  using assms
proof (induction sts arbitrary: ctx db)
  case (Cons p sts)
  obtain s t where p: "p = (s, t)" by (cases p)
  obtain db' stopped where run: "run_stages ops ((s, t) # sts) ctx db = (db', stopped)" by fastforce
  have ih: "inv db2 \<Longrightarrow> inv (fst (run_stages ops sts ctx2 db2))" for ctx2 db2
    by (rule Cons.IH) (use Cons.prems(1) in \<open>meson list.set_intros(2)\<close>)
  from run_stages_step [OF run] show ?case
  proof (elim disjE exE conjE)
    assume "db' = db"
    then show ?thesis using Cons.prems(2) run by (simp only: p fst_conv)
  next
    fix ctx2 db2
    assume step: "stage_step ops s t (ctx, db) (ctx2, db2)" and rest: "run_stages ops sts ctx2 db2 = (db', stopped)"
    from step have "inv db2"
    proof (cases rule: stage_stepE)
      case failed
      then show ?thesis using Cons.prems(2) status_keeps by simp
    next
      case (finished db3)
      then have "inv db3" using Cons.prems by (auto simp: p stage_done_def)
      then show ?thesis using finished(2) status_keeps by simp
    qed
    from ih [OF this, of ctx2] show ?thesis by (simp only: p run rest fst_conv)
  qed
qed auto

lemma run_sync_keeps:
  assumes "\<forall>p \<in> set sts. \<forall>db ctx db' ctx'. inv db \<longrightarrow> execute (fst p) db ctx = Some (db', ctx') \<longrightarrow> inv db'"
    and "\<And>d. inv d \<Longrightarrow> inv (finalize d)" and "inv db"
  shows "inv (run_sync ops sts start finish finalize db)"
proof (cases "get_run ops db")
  case None
  then show ?thesis using assms(3) by (simp add: run_sync_def)
next
  case (Some r)
  let ?db1 = "put_run ops (r\<lparr>run_status := ''running'', started_at := Some start,
     availability := fold (\<lambda>(s, _). AList.update (stage_name s) STAGE_PENDING) sts []\<rparr>) db"
  obtain db2 stopped where rs: "run_stages ops sts [] ?db1 = (db2, stopped)" by fastforce
  have i2: "inv db2" using run_stages_inv [OF assms(1), of ?db1 "[]"] put_keeps assms(3) rs by auto
  then have "inv (finish_failed ops reason finish finalize db2)" for reason
    by (simp add: finish_failed_def assms(2) put_keeps split: option.split)
  then show ?thesis using Some rs i2 update_run_keeps by (cases stopped) (simp_all add: run_sync_def)
qed

end

text \<open>What the orchestrator needs of the row: what was written is read back.\<close>

locale run_row =
  fixes ops :: "'d run_ops"
  assumes get_put: "get_run ops db \<noteq> None \<Longrightarrow> get_run ops (put_run ops r db) = Some r"
begin

text \<open>A stage that leaves the run's row in place, its status and the entries of the stages; it
  may add entries of its own, none pending.\<close>

definition leaves_row :: "string set \<Rightarrow> ('d, 'e) stage \<Rightarrow> bool" where
  "leaves_row names s = (\<forall>db ctx db' ctx' r. get_run ops db = Some r \<longrightarrow> execute s db ctx = Some (db', ctx') \<longrightarrow>
     (\<exists>r'. get_run ops db' = Some r' \<and> kept names {} r r'))"

lemma stage_keeps:
  "leaves_row names s \<Longrightarrow> get_run ops db = Some r \<Longrightarrow> execute s db ctx = Some (db', ctx') \<Longrightarrow>
   \<exists>r'. get_run ops db' = Some r' \<and> kept names {} r r'"
  unfolding leaves_row_def by blast

lemma update_status_get:
  assumes "get_run ops db = Some r"
  shows "get_run ops (update_stage_status ops n st db)
     = Some (r\<lparr>availability := AList.update n st (availability r)\<rparr>)"
  using assms by (simp add: update_stage_status_def update_run_def get_put)

lemma run_stages_keep:
  assumes "\<forall>p \<in> set sts. leaves_row names (fst p)" and "get_run ops db = Some r"
    and "stage_name ` fst ` set sts \<subseteq> names"
  shows "\<exists>r'. get_run ops (fst (run_stages ops sts ctx db)) = Some r' \<and>
     kept names (stage_name ` fst ` set sts) r r'"
  using assms
proof (induction sts arbitrary: ctx db r)
  case (Cons p sts)
  obtain s t where p: "p = (s, t)" by (cases p)
  have prems: "\<forall>p \<in> set sts. leaves_row names (fst p)" "stage_name ` fst ` set sts \<subseteq> names" "stage_name s \<in> names"
    using Cons.prems(1,3) by (auto simp: p)
  let ?w = "stage_name ` fst ` set (p # sts)"
  have step: "\<exists>r'. get_run ops (fst (run_stages ops sts ctx'
        (update_stage_status ops (stage_name s) st db'))) = Some r' \<and> kept names ?w r r'"
    if a: "get_run ops db' = Some r2" and b: "kept names {} r r2" for ctx' st db' r2
  proof -
    obtain r' where r': "get_run ops (fst (run_stages ops sts ctx'
        (update_stage_status ops (stage_name s) st db'))) = Some r'"
      "kept names (stage_name ` fst ` set sts) (r2\<lparr>availability := AList.update (stage_name s) st (availability r2)\<rparr>) r'"
      using Cons.IH [OF prems(1) update_status_get [OF a] prems(2)] by blast
    from kept_trans [OF b kept_trans [OF kept_update [OF prems(3)] r'(2)]] r'(1)
    show ?thesis by (auto simp: p)
  qed
  show ?case
  using run_stages_cases [of s t db ctx ops sts]
  proof (elim disjE exE conjE)
    assume f: "stage_fails s t db ctx"
    show ?case unfolding p run_stages_fails [OF f] using step [OF Cons.prems(2) kept_refl] by (simp add: p)
  next
    fix db' ctx' assume d: "stage_done s t db ctx db' ctx'"
    then have e: "execute s db ctx = Some (db', ctx')" by (simp add: stage_done_def)
    have l: "leaves_row names s" using Cons.prems(1) by (simp add: p)
    obtain r2 where "get_run ops db' = Some r2" "kept names {} r r2"
      using stage_keeps [OF l Cons.prems(2) e] by blast
    then show ?case unfolding p run_stages_done [OF d] using step by (simp add: p)
  next
    assume "run_stages ops ((s, t) # sts) ctx db = (db, True)"
    then show ?case using Cons.prems(2) by (auto simp only: p fst_conv kept_refl)
  qed
qed auto

lemma run_stages_settle:
  assumes "\<forall>p \<in> set sts. leaves_row names (fst p)" and "get_run ops db = Some r"
    and "stage_name ` fst ` set sts \<subseteq> names" and "distinct (map (stage_name \<circ> fst) sts)"
    and "run_stages ops sts ctx db = (db', False)"
  shows "\<exists>r'. get_run ops db' = Some r' \<and>
    (\<forall>(s, t) \<in> set sts. map_of (availability r') (stage_name s) \<in> {Some STAGE_COMPLETE, Some STAGE_UNAVAILABLE}
       \<and> (must_fail s t \<longrightarrow> map_of (availability r') (stage_name s) = Some STAGE_UNAVAILABLE))"
  using assms
proof (induction sts arbitrary: ctx db r)
  case (Cons p sts)
  obtain s t where p: "p = (s, t)" by (cases p)
  have prems: "\<forall>p \<in> set sts. leaves_row names (fst p)" "stage_name ` fst ` set sts \<subseteq> names"
    "stage_name s \<in> names" "distinct (map (stage_name \<circ> fst) sts)"
    "stage_name s \<notin> stage_name ` fst ` set sts"
    using Cons.prems(1,3,4) by (auto simp: p image_comp comp_def)
  have step: ?case
    if run: "run_stages ops sts ctx' (update_stage_status ops (stage_name s) st db2) = (db', False)"
    and g: "get_run ops db2 = Some r2" and st: "st \<in> {STAGE_COMPLETE, STAGE_UNAVAILABLE}"
    and f: "must_fail s t \<longrightarrow> st = STAGE_UNAVAILABLE" for ctx' st db2 r2
  proof -
    note g' = update_status_get [OF g, of "stage_name s" st]
    obtain r' where r': "get_run ops db' = Some r'"
      "\<forall>(s, t) \<in> set sts. map_of (availability r') (stage_name s) \<in> {Some STAGE_COMPLETE, Some STAGE_UNAVAILABLE}
       \<and> (must_fail s t \<longrightarrow> map_of (availability r') (stage_name s) = Some STAGE_UNAVAILABLE)"
      using Cons.IH [OF prems(1) g' prems(2,4) run] by blast
    have "kept names (stage_name ` fst ` set sts) (r2\<lparr>availability := AList.update (stage_name s) st (availability r2)\<rparr>) r'"
      using run_stages_keep [OF prems(1) g' prems(2), of ctx'] r'(1) run by auto
    then have "map_of (availability r') (stage_name s) = Some st"
      using prems(3,5) by (simp add: kept_def update_conv')
    then show ?thesis using r' st f by (auto simp: p)
  qed
  show ?case
  using run_stages_cases [of s t db ctx ops sts]
  proof (elim disjE exE conjE)
    assume f: "stage_fails s t db ctx"
    from Cons.prems(5) show ?case
      unfolding p run_stages_fails [OF f] by (rule step [OF _ Cons.prems(2), unfolded p]) simp_all
  next
    fix db2 ctx' assume d: "stage_done s t db ctx db2 ctx'"
    then have e: "execute s db ctx = Some (db2, ctx')" by (simp add: stage_done_def)
    have l: "leaves_row names s" using Cons.prems(1) by (simp add: p)
    obtain r2 where r2: "get_run ops db2 = Some r2"
      using stage_keeps [OF l Cons.prems(2) e] by blast
    have "\<not> must_fail s t" using d by (auto simp: must_fail_def stage_done_def)
    with Cons.prems(5) show ?case
      unfolding p run_stages_done [OF d] by (intro step [OF _ r2, unfolded p]) auto
  next
    assume "run_stages ops ((s, t) # sts) ctx db = (db, True)"
    then show ?case using Cons.prems(5) by (simp only: p) simp
  qed
qed auto

lemma run_sync_settles:
  assumes rows: "\<forall>p \<in> set sts. leaves_row (stage_name ` fst ` set sts) (fst p)"
    and names: "distinct (map (stage_name \<circ> fst) sts)"
    and run: "get_run ops db = Some r0" and fin: "\<And>d. get_run ops (finalize d) = get_run ops d"
  shows "\<exists>r. get_run ops (run_sync ops sts start finish finalize db) = Some r \<and> settled sts r"
proof -
  let ?r1 = "r0\<lparr>run_status := ''running'', started_at := Some start,
     availability := fold (\<lambda>(s, _). AList.update (stage_name s) STAGE_PENDING) sts []\<rparr>"
  let ?db1 = "put_run ops ?r1 db"
  have g1: "get_run ops ?db1 = Some ?r1" by (rule get_put) (simp add: run)
  obtain db2 cut where rs: "run_stages ops sts [] ?db1 = (db2, cut)" by fastforce
  obtain r2 where r2: "get_run ops db2 = Some r2" "kept (stage_name ` fst ` set sts) (stage_name ` fst ` set sts) ?r1 r2"
    using run_stages_keep [OF rows g1 order_refl, of "[]"] rs by auto
  have other: "map_of (availability r2) n \<noteq> Some STAGE_PENDING" if "n \<notin> stage_name ` fst ` set sts" for n
    using r2(2) initial_entries [OF that, of "[]"] that by (auto simp: kept_def)
  show ?thesis
  proof (cases cut)
    case True
    let ?r3 = "r2\<lparr>availability := map (\<lambda>(n, s). (n, if s = STAGE_PENDING then STAGE_UNAVAILABLE else s)) (availability r2),
      run_status := ''failed'', finished_at := Some finish,
      failure_reason := Some ''Task time limit exceeded; partial report kept.''\<rparr>"
    have "get_run ops (run_sync ops sts start finish finalize db) = Some ?r3"
      using rs True r2(1) by (simp add: run_sync_def run finish_failed_def fin get_put)
    moreover have "map_of (availability ?r3) n \<noteq> Some STAGE_PENDING" for n
      using pending_unavailable(1) by (auto simp: map_values)
    ultimately show ?thesis by (auto simp: settled_def)
  next
    case False
    with rs have "run_stages ops sts [] ?db1 = (db2, False)" by simp
    from run_stages_settle [OF rows g1 order_refl names this]
    have "\<exists>r'. get_run ops db2 = Some r' \<and> (\<forall>(s, t) \<in> set sts.
       map_of (availability r') (stage_name s) \<in> {Some STAGE_COMPLETE, Some STAGE_UNAVAILABLE}
       \<and> (must_fail s t \<longrightarrow> map_of (availability r') (stage_name s) = Some STAGE_UNAVAILABLE))"
      .
    then have st: "\<forall>(s, t) \<in> set sts.
       map_of (availability r2) (stage_name s) \<in> {Some STAGE_COMPLETE, Some STAGE_UNAVAILABLE}
       \<and> (must_fail s t \<longrightarrow> map_of (availability r2) (stage_name s) = Some STAGE_UNAVAILABLE)"
      by (simp add: r2(1))
    have "map_of (availability r2) n \<noteq> Some STAGE_PENDING" for n
      using other [of n] st pending_unavailable by fastforce
    moreover have "get_run ops (run_sync ops sts start finish finalize db)
        = Some (r2\<lparr>run_status := ''complete'', finished_at := Some finish\<rparr>)"
      using rs False r2(1) by (simp add: run_sync_def run update_run_def get_put)
    ultimately show ?thesis using st by (auto simp: settled_def)
  qed
qed

end

end
