(* ===== verification/Screening_Db.thy ===== *)
theory Screening_Db
  imports Dispose Blocking Crypto Orchestrator
begin

text \<open>
  The tables of the screening product (\<open>app/screening/models.py\<close>, \<open>list_snapshot\<close> and
  \<open>watchlist_record\<close>), the versioned rules (\<open>app/screening/rules.py\<close>) and what the stages read
  (\<open>app/screening/stages.py\<close>). A table is the list of its rows in insertion order, \<open>env\<close> holds
  what comes from outside: the libraries, the master key setting, random bytes, the stream of
  generated identifiers, the clock and the configured sources.
\<close>

section \<open>Rows\<close>

record list_snapshot =
  snap_id :: string
  snap_source :: string
  snap_retrieved_at :: int
  snap_sha :: string
  snap_count :: int

record watch_row =
  wr_record :: watch_record
  wr_snapshot :: string
  wr_source :: string
  wr_entry :: string
  wr_primary :: string
  wr_program :: "string option"

record rule_row =
  rv_id :: string
  rv_version :: int
  rv_config :: rule
  rv_note :: "string option"
  rv_operator :: "string option"

record screening_run =
  sr_id :: string
  sr_subject :: string
  sr_rule :: "string option"
  sr_trigger :: string
  sr_snapshot :: "string option"
  sr_prior :: "string option"
  sr_created :: int
  sr_state :: run_state

record candidate_row =
  c_id :: string
  c_run :: string
  c_record :: string
  c_keys :: "string list"
  c_score :: "rat option"

record claim_row =
  cl_id :: string
  cl_run :: string
  cl_candidate :: "string option"
  cl_about :: string
  cl_field :: string
  cl_value :: "field_value option"
  cl_source :: string
  cl_locator :: string
  cl_retrieved_at :: int

record term_row =
  tr_run :: string
  tr_candidate :: string
  tr_name :: term_name
  tr_weight :: rat
  tr_claims :: "string list"

record 'c decision_row =
  dec_id :: string
  dec_run :: string
  dec_rule :: string
  dec_disposition :: disposition
  dec_auto_closed :: bool
  dec_snapshots :: "string list"
  dec_thresholds :: thresholds
  dec_terms :: "candidate_result list"
  dec_top_score :: "rat option"
  dec_frozen :: "'c \<times> string"
  dec_normalizer :: string
  dec_created :: int

text \<open>The JSON values that are encrypted: a subject's attributes and a decision's inputs.\<close>

datatype screening_payload = Pii subject | Frozen frozen_bundle

datatype audit_entry =
    Decided string string disposition bool int
  | MonitoringRescreen string string nat nat nat nat
  | Submitted string string string string string

record 'c screening_db =
  snapshots :: "list_snapshot list"
  watchlist :: "watch_row list"
  subjects :: "'c subject_row list"
  subject_keys :: "'c key_row list"
  rule_rows :: "rule_row list"
  runs :: "screening_run list"
  candidate_rows :: "candidate_row list"
  claims :: "claim_row list"
  term_rows :: "term_row list"
  decisions :: "'c decision_row list"
  audit :: "audit_entry list"
  next_id :: nat

record 'c screening_env =
  lib :: textlib
  cipher :: "(screening_payload, 'c) aead"
  master_setting :: "string option"
  random :: random_bytes
  uuid :: "nat \<Rightarrow> string"
  clock :: int
  required_setting :: "string option"
  max_list_age :: int

definition row_by :: "('r \<Rightarrow> string) \<Rightarrow> string \<Rightarrow> 'r list \<Rightarrow> 'r option" where
  \<comment> \<open>\<open>db.get\<close>\<close>
  "row_by key k rows = find (\<lambda>r. key r = k) rows"

definition update_row :: "('r \<Rightarrow> string) \<Rightarrow> string \<Rightarrow> ('r \<Rightarrow> 'r) \<Rightarrow> 'r list \<Rightarrow> 'r list" where
  "update_row key k f rows = map (\<lambda>r. if key r = k then f r else r) rows"

definition new_ids :: "'c screening_env \<Rightarrow> 'c screening_db \<Rightarrow> nat \<Rightarrow> string list" where
  "new_ids E db n = map (\<lambda>i. uuid E (next_id db + i)) [0..<n]"

lemma row_by_Some: "row_by key k rows = Some r \<Longrightarrow> r \<in> set rows \<and> key r = k"
  by (induction rows) (auto simp: row_by_def split: if_splits)

lemma row_by_update: "(\<And>r. key (f r) = key r) \<Longrightarrow>
    row_by key k (update_row key j f rows) = map_option (\<lambda>r. if k = j then f r else r) (row_by key k rows)"
  by (induction rows) (auto simp: row_by_def update_row_def)

section \<open>Versioned rules\<close>

definition latest_rule :: "rule_row list \<Rightarrow> rule_row option" where
  \<comment> \<open>\<open>order_by(version.desc()).first()\<close>\<close>
  "latest_rule rows = (case rows of [] \<Rightarrow> None
     | r # rs \<Rightarrow> Some (fold (\<lambda>x best. if rv_version best < rv_version x then x else best) rs r))"

definition current_rule :: "'c screening_env \<Rightarrow> 'c screening_db \<Rightarrow> rule_row \<times> 'c screening_db" where
  "current_rule E db = (case latest_rule (rule_rows db) of
       Some r \<Rightarrow> (r, db)
     | None \<Rightarrow>
         let r = \<lparr>rv_id = uuid E (next_id db), rv_version = 1, rv_config = DEFAULT_RULE,
                  rv_note = Some ''default rule'', rv_operator = None\<rparr>
         in (r, db\<lparr>rule_rows := rule_rows db @ [r], next_id := Suc (next_id db)\<rparr>))"

definition new_rule_version :: "'c screening_env \<Rightarrow> rule \<Rightarrow> string option \<Rightarrow> string option
    \<Rightarrow> 'c screening_db \<Rightarrow> rule_row \<times> 'c screening_db" where
  "new_rule_version E config note operator_id db =
    (let latest = (case latest_rule (rule_rows db) of None \<Rightarrow> 0 | Some r \<Rightarrow> rv_version r);
         r = \<lparr>rv_id = uuid E (next_id db), rv_version = latest + 1,
              rv_config = config\<lparr>version := latest + 1\<rparr>, rv_note = note, rv_operator = operator_id\<rparr>
     in (r, db\<lparr>rule_rows := rule_rows db @ [r], next_id := Suc (next_id db)\<rparr>))"

definition rules_ok :: "rule_row list \<Rightarrow> bool" where
  \<comment> \<open>versions grow in insertion order, start above zero, and each configuration names its version\<close>
  "rules_ok rows = (sorted_wrt (\<lambda>a b. rv_version a < rv_version b) rows \<and>
     list_all (\<lambda>r. 1 \<le> rv_version r \<and> version (rv_config r) = rv_version r) rows)"

lemma latest_fold: "sorted_wrt (\<lambda>a b. rv_version a < rv_version b) (r # rs) \<Longrightarrow>
    fold (\<lambda>x best. if rv_version best < rv_version x then x else best) rs r = last (r # rs)"
  by (induction rs arbitrary: r) auto

lemma latest_rule_last: "rules_ok rows \<Longrightarrow> latest_rule rows = (if rows = [] then None else Some (last rows))"
  using latest_fold by (cases rows) (fastforce simp: latest_rule_def rules_ok_def)+

lemma sorted_last: "sorted_wrt (\<lambda>a b. rv_version a < rv_version b) rows \<Longrightarrow> r \<in> set rows \<Longrightarrow>
    rv_version r \<le> rv_version (last rows)"
  by (induction rows) (auto split: if_splits intro: less_imp_le)

lemma rules_ok_append:
  assumes "rules_ok rows" and "\<forall>x \<in> set rows. rv_version x < rv_version r" and "1 \<le> rv_version r"
    and "version (rv_config r) = rv_version r"
  shows "rules_ok (rows @ [r])"
  using assms by (auto simp: rules_ok_def sorted_wrt_append)

section \<open>Lists and their coverage\<close>

definition with_records :: "'c screening_db \<Rightarrow> list_snapshot list" where
  "with_records db = filter (\<lambda>s. list_ex (\<lambda>w. wr_snapshot w = snap_id s) (watchlist db)) (snapshots db)"

definition latest_of :: "'c screening_db \<Rightarrow> string \<Rightarrow> list_snapshot option" where
  "latest_of db source =
    (let times = map snap_retrieved_at (filter (\<lambda>s. snap_source s = source) (with_records db))
     in if times = [] then None
        else case sort_key snap_id (filter (\<lambda>s. snap_source s = source
                 \<and> snap_retrieved_at s = fold max times (hd times)) (snapshots db)) of
            [] \<Rightarrow> None | s # _ \<Rightarrow> Some s)"

definition current_snapshot_ids :: "'c screening_db \<Rightarrow> string list" where
  "current_snapshot_ids db = sort (map snap_id
     (List.map_filter (latest_of db) (remdups (map snap_source (with_records db)))))"

definition DEFAULT_REQUIRED_SOURCES :: string where
  "DEFAULT_REQUIRED_SOURCES = ''ofac_sdn,un_consolidated,eu_fsf,uk_ofsi''"

definition required_sources :: "string option \<Rightarrow> string list" where
  "required_sources setting =
     filter (\<lambda>s. s \<noteq> []) (map str_strip (split_on CHR '',''
       (case setting of None \<Rightarrow> DEFAULT_REQUIRED_SOURCES | Some raw \<Rightarrow> raw)))"

definition fresh :: "'c screening_env \<Rightarrow> list_snapshot option \<Rightarrow> bool" where
  "fresh E snap = (case snap of None \<Rightarrow> False | Some s \<Rightarrow> clock E - snap_retrieved_at s \<le> max_list_age E)"

definition list_coverage :: "'c screening_env \<Rightarrow> 'c screening_db \<Rightarrow> string list \<Rightarrow> (string \<times> string) list" where
  "list_coverage E db ids =
    (let latest = map_of (rev (map (\<lambda>s. (snap_source s, s)) (filter (\<lambda>s. snap_id s \<in> set ids) (snapshots db))))
     in fold (\<lambda>source. AList.update (''list:'' @ source)
           (if fresh E (latest source) then STAGE_COMPLETE else STAGE_UNAVAILABLE))
         (required_sources (required_setting E)) [])"

lemma list_coverage_entries:
  "map_of (fold (\<lambda>source. AList.update (''list:'' @ source) (f source)) srcs av) k =
     (if \<exists>s \<in> set srcs. k = ''list:'' @ s then Some (f (drop 5 k)) else map_of av k)"
  by (induction srcs arbitrary: av) (auto simp: update_conv')

section \<open>The row of a screening run\<close>

definition screening_ops :: "string \<Rightarrow> 'c screening_db run_ops" where
  "screening_ops rid = \<lparr>
     get_run = (\<lambda>db. map_option sr_state (row_by sr_id rid (runs db))),
     put_run = (\<lambda>st db. db\<lparr>runs := update_row sr_id rid (\<lambda>r. r\<lparr>sr_state := st\<rparr>) (runs db)\<rparr>)\<rparr>"

interpretation screening_row: run_row "screening_ops rid" for rid
  by unfold_locales (auto simp: screening_ops_def row_by_update)

end
