(* ===== verification/Screening_Stages.thy ===== *)
theory Screening_Stages
  imports Screening_Db
begin

text \<open>
  The three stages of a screening run (\<open>app/screening/stages.py\<close>, \<open>DisposeStage\<close> of
  \<open>dispose.py\<close>) and their composition (\<open>app/screening/pipeline.py\<close>). A stage is a function of the
  environment, the run's identifier, the database and the context; None is an exception, after
  which the orchestrator discards the stage's writes. The process-wide index cache is a component
  of its own (\<open>load_index\<close>), proved transparent, so the stages build the index they use.
\<close>

section \<open>Reading a subject\<close>

definition as_pii :: "screening_payload outcome \<Rightarrow> subject option" where
  "as_pii x = (case x of Inr (Pii s) \<Rightarrow> Some s | _ \<Rightarrow> None)"

definition subject_pii :: "'c screening_env \<Rightarrow> 'c screening_db \<Rightarrow> string \<Rightarrow> subject option" where
  "subject_pii E db sid = do {
     row \<leftarrow> row_by s_id sid (subjects db);
     as_pii (get_subject_pii (cipher E) (master_setting E) row (subject_keys db))
   }"

definition subject_names :: "subject \<Rightarrow> string list" where
  "subject_names s = filter (\<lambda>n. n \<noteq> [])
     (text_or (subj_name s) '''' # text_or (original_script_name s) '''' # aliases s)"

section \<open>Blocking\<close>

definition index_input :: "'c screening_db \<Rightarrow> string list \<Rightarrow> (string \<times> string list) list" where
  "index_input db ids = map (\<lambda>w. (rec_id (wr_record w), rec_names (wr_record w)))
     (filter (\<lambda>w. wr_snapshot w \<in> set ids) (watchlist db))"

definition load_index :: "textlib \<Rightarrow> 'c screening_db \<Rightarrow> string list \<Rightarrow> (string list \<times> blocking_index) list
    \<Rightarrow> blocking_index \<times> (string list \<times> blocking_index) list" where
  "load_index L db ids cache = (case map_of cache ids of
       Some ix \<Rightarrow> (ix, cache)
     | None \<Rightarrow>
         let ix = build_index L (index_input db ids)
         in (ix, (if 4 \<le> length cache then tl cache else cache) @ [(ids, ix)]))"

definition cache_valid :: "textlib \<Rightarrow> 'c screening_db \<Rightarrow> (string list \<times> blocking_index) list \<Rightarrow> bool" where
  "cache_valid L db cache = list_all (\<lambda>(ids, ix). ix = build_index L (index_input db ids)) cache"

definition matched :: "textlib \<Rightarrow> blocking_index \<Rightarrow> string list \<Rightarrow> (string \<times> string list) list" where
  \<comment> \<open>\<open>sorted(matched.items())\<close>, each with its sorted keys\<close>
  "matched L ix names =
    (let hits = concat (map (\<lambda>n. candidates L ix (Some n) DEFAULT_CAP) names)
     in map (\<lambda>rid. (rid, sort (remdups (concat (map matched_keys
              (filter (\<lambda>c. cand_record_id c = rid) hits))))))
          (sort (remdups (map cand_record_id hits))))"

datatype stage_info = BlockingInfo "string list" nat | ScoringInfo int nat "rat option"
  | DecisionInfo disposition bool | NoInfo

definition put_entry :: "'c screening_db \<Rightarrow> string \<Rightarrow> string \<Rightarrow> stage_info
    \<Rightarrow> stage_info run_context \<Rightarrow> stage_info run_context" where
  \<comment> \<open>\<open>{**context, key: {"status": status, ...}}\<close>, a new dictionary object\<close>
  "put_entry db key status info ctx =
     AList.update key \<lparr>identity = next_id db, entry_status = Some status, payload = info\<rparr> ctx"

definition update_availability :: "string \<Rightarrow> (string \<times> string) list \<Rightarrow> 'c screening_db \<Rightarrow> 'c screening_db" where
  "update_availability rid cov db = update_run (screening_ops rid)
     (\<lambda>st. st\<lparr>availability := fold (\<lambda>(k, v). AList.update k v) cov (availability st)\<rparr>) db"

definition add_candidates :: "'c screening_env \<Rightarrow> string \<Rightarrow> (string \<times> string list) list
    \<Rightarrow> 'c screening_db \<Rightarrow> 'c screening_db" where
  "add_candidates E rid found db = db
     \<lparr>candidate_rows := candidate_rows db @ map2 (\<lambda>i (rec, keys).
        \<lparr>c_id = i, c_run = rid, c_record = rec, c_keys = keys, c_score = None\<rparr>)
        (new_ids E db (length found)) found,
      next_id := next_id db + length found\<rparr>"

definition block_candidates :: "'c screening_env \<Rightarrow> string \<Rightarrow> 'c screening_db \<Rightarrow> stage_info run_context
    \<Rightarrow> ('c screening_db \<times> stage_info run_context) option" where
  "block_candidates E rid db ctx = do {
     let ids = current_snapshot_ids db;
     run \<leftarrow> row_by sr_id rid (runs db);
     let db1 = update_availability rid (list_coverage E db ids) db;
     if ids = [] then Some (db1\<lparr>next_id := Suc (next_id db1)\<rparr>, put_entry db1 ''blocking'' STAGE_UNAVAILABLE NoInfo ctx)
     else do {
       person \<leftarrow> subject_pii E db1 (sr_subject run);
       let found = matched (lib E) (build_index (lib E) (index_input db1 ids)) (subject_names person);
       let db2 = add_candidates E rid found db1;
       Some (db2\<lparr>next_id := Suc (next_id db2)\<rparr>,
             put_entry db2 ''blocking'' STAGE_COMPLETE (BlockingInfo ids (length found)) ctx)
     }
   }"

section \<open>Scoring\<close>

definition run_candidates :: "string \<Rightarrow> 'c screening_db \<Rightarrow> candidate_row list" where
  "run_candidates rid db = filter (\<lambda>c. c_run c = rid) (candidate_rows db)"

definition record_of_row :: "'c screening_db \<Rightarrow> candidate_row \<Rightarrow> watch_row option" where
  "record_of_row db c = find (\<lambda>w. rec_id (wr_record w) = c_record c) (watchlist db)"

definition score_rows :: "textlib \<Rightarrow> rule \<Rightarrow> subject \<Rightarrow> watch_row list \<Rightarrow> (rat \<times> scored_term list) list option" where
  "score_rows L rule person records = do {
     scored \<leftarrow> option_map (\<lambda>w. score_pair L person (wr_record w) rule None) records;
     let frequency = name_frequency scored;
     if common_name_threshold rule \<le> frequency
     then option_map (\<lambda>w. score_pair L person (wr_record w) rule (Some frequency)) records
     else Some scored
   }"

definition record_locator :: "watch_row \<Rightarrow> string \<Rightarrow> string" where
  "record_locator w field = wr_source w @ '':'' @ wr_entry w @ ''@'' @ wr_snapshot w @ ''#'' @ field"

definition subject_locator :: "string \<Rightarrow> string \<Rightarrow> string" where
  "subject_locator sid field = ''screening_subject:'' @ sid @ ''#'' @ field"

text \<open>One term: the subject-side claim is shared per field, the record-side claim is its own, and
  the term row cites both.\<close>

definition store_term :: "'c screening_env \<Rightarrow> string \<Rightarrow> string \<Rightarrow> int \<Rightarrow> candidate_row \<Rightarrow> watch_row
    \<Rightarrow> scored_term \<Rightarrow> (string \<times> string) list \<times> 'c screening_db \<Rightarrow> (string \<times> string) list \<times> 'c screening_db" where
  "store_term E rid sid now cand w t state = (case state of (subject_claims, db) \<Rightarrow>
     let sfield = subject_field t;
         (subject_claims, db) = (case map_of subject_claims sfield of
             Some _ \<Rightarrow> (subject_claims, db)
           | None \<Rightarrow>
               let i = uuid E (next_id db)
               in (AList.update sfield i subject_claims,
                   db\<lparr>claims := claims db @ [\<lparr>cl_id = i, cl_run = rid, cl_candidate = None,
                        cl_about = ''subject'', cl_field = sfield, cl_value = None,
                        cl_source = ''subject_submission'', cl_locator = subject_locator sid sfield,
                        cl_retrieved_at = now\<rparr>],
                      next_id := Suc (next_id db)\<rparr>));
         i = uuid E (next_id db);
         rclaim = \<lparr>cl_id = i, cl_run = rid, cl_candidate = Some (c_id cand), cl_about = ''record'',
                   cl_field = record_field t, cl_value = Some (record_value t), cl_source = wr_source w,
                   cl_locator = record_locator w (record_field t), cl_retrieved_at = now\<rparr>
     in (subject_claims,
         db\<lparr>claims := claims db @ [rclaim],
            term_rows := term_rows db @ [\<lparr>tr_run = rid, tr_candidate = c_id cand, tr_name = t_name t,
              tr_weight = t_weight t, tr_claims = [the (map_of subject_claims sfield), i]\<rparr>],
            next_id := Suc (next_id db)\<rparr>))"

definition store_scored :: "'c screening_env \<Rightarrow> string \<Rightarrow> string \<Rightarrow> int
    \<Rightarrow> (candidate_row \<times> watch_row) \<times> (rat \<times> scored_term list)
    \<Rightarrow> (string \<times> string) list \<times> 'c screening_db \<Rightarrow> (string \<times> string) list \<times> 'c screening_db" where
  "store_scored E rid sid now item state = (case item of ((cand, w), (sc, terms)) \<Rightarrow>
     fold (store_term E rid sid now cand w) terms
       (fst state, (snd state)\<lparr>candidate_rows := update_row c_id (c_id cand)
          (\<lambda>c. c\<lparr>c_score := Some sc\<rparr>) (candidate_rows (snd state))\<rparr>))"

definition set_run_rule :: "string \<Rightarrow> string \<Rightarrow> 'c screening_db \<Rightarrow> 'c screening_db" where
  "set_run_rule rid rule_id db =
     db\<lparr>runs := update_row sr_id rid (\<lambda>r. r\<lparr>sr_rule := Some rule_id\<rparr>) (runs db)\<rparr>"

definition score_candidates :: "'c screening_env \<Rightarrow> string \<Rightarrow> 'c screening_db \<Rightarrow> stage_info run_context
    \<Rightarrow> ('c screening_db \<times> stage_info run_context) option" where
  "score_candidates E rid db ctx = do {
     let (rule, db1) = current_rule E db;
     run \<leftarrow> row_by sr_id rid (runs db1);
     let db2 = set_run_rule rid (rv_id rule) db1;
     person \<leftarrow> subject_pii E db2 (sr_subject run);
     let now = (case started_at (sr_state run) of Some t \<Rightarrow> t | None \<Rightarrow> clock E);
     let cands = run_candidates rid db2;
     records \<leftarrow> option_map (record_of_row db2) cands;
     scored \<leftarrow> score_rows (lib E) (rv_config rule) person records;
     let db3 = snd (fold (store_scored E rid (sr_subject run) now) (zip (zip cands records) scored) ([], db2));
     Some (db3\<lparr>next_id := Suc (next_id db3)\<rparr>,
           put_entry db3 ''scoring'' STAGE_COMPLETE
             (ScoringInfo (rv_version rule) (length cands) (top_score (map fst scored))) ctx)
   }"

section \<open>Disposition\<close>

definition bundle_of :: "subject \<Rightarrow> candidate_row list \<Rightarrow> watch_row list \<Rightarrow> rule
    \<Rightarrow> (string \<times> string) list \<Rightarrow> frozen_bundle" where
  "bundle_of person cands records config av =
     \<lparr>b_subject = person,
      b_candidates = map2 (\<lambda>c w. \<lparr>candidate_id = c_id c, record_of = wr_record w\<rparr>) cands records,
      b_rule = config, normalizer_version = NORMALIZER_VERSION,
      source_status = filter (\<lambda>(k, _). k \<noteq> ''dispose'') av\<rparr>"

definition run_rule :: "'c screening_env \<Rightarrow> screening_run \<Rightarrow> 'c screening_db \<Rightarrow> (rule_row \<times> 'c screening_db) option" where
  "run_rule E run db = (case sr_rule run of
       Some i \<Rightarrow> map_option (\<lambda>r. (r, db)) (row_by rv_id i (rule_rows db))
     | None \<Rightarrow> Some (current_rule E db))"

definition context_snapshots :: "stage_info run_context \<Rightarrow> string list" where
  "context_snapshots ctx = (case map_of ctx ''blocking'' of
       Some e \<Rightarrow> (case payload e of BlockingInfo ids _ \<Rightarrow> ids | _ \<Rightarrow> [])
     | None \<Rightarrow> [])"

definition freeze_inputs :: "'c screening_env \<Rightarrow> string \<Rightarrow> screening_run \<Rightarrow> 'c screening_db
    \<Rightarrow> (rule_row \<times> 'c screening_db \<times> frozen_bundle) option" where
  "freeze_inputs E rid run db = do {
     (rule, db1) \<leftarrow> run_rule E run db;
     let cands = sort_key c_record (run_candidates rid db1);
     records \<leftarrow> option_map (record_of_row db1) cands;
     person \<leftarrow> subject_pii E db1 (sr_subject run);
     Some (rule, db1, bundle_of person cands records (rv_config rule) (availability (sr_state run)))
   }"

definition store_decision :: "'c screening_env \<Rightarrow> string \<Rightarrow> rule_row \<Rightarrow> decision_result \<Rightarrow> 'c \<times> string
    \<Rightarrow> string list \<Rightarrow> 'c screening_db \<Rightarrow> 'c screening_db option" where
  \<comment> \<open>None: the unique constraint on \<open>run_id\<close>\<close>
  "store_decision E rid rule result sealed snaps db =
    (if list_ex (\<lambda>x. dec_run x = rid) (decisions db) then None
     else let i = uuid E (next_id db) in Some (db
       \<lparr>decisions := decisions db @ [\<lparr>dec_id = i, dec_run = rid, dec_rule = rv_id rule,
          dec_disposition = d_disposition result, dec_auto_closed = d_auto_closed result,
          dec_snapshots = snaps, dec_thresholds = rule_thresholds (rv_config rule),
          dec_terms = d_candidates result, dec_top_score = d_top_score result,
          dec_frozen = sealed, dec_normalizer = NORMALIZER_VERSION,
          dec_created = clock E\<rparr>],
        audit := audit db @ [Decided rid i (d_disposition result) (d_auto_closed result) (rv_version rule)],
        next_id := Suc (next_id db)\<rparr>))"

definition dispose :: "'c screening_env \<Rightarrow> string \<Rightarrow> 'c screening_db \<Rightarrow> stage_info run_context
    \<Rightarrow> ('c screening_db \<times> stage_info run_context) option" where
  "dispose E rid db ctx = do {
     run \<leftarrow> row_by sr_id rid (runs db);
     (rule, db1, b) \<leftarrow> freeze_inputs E rid run db;
     result \<leftarrow> decide (lib E) b;
     (keys, sealed) \<leftarrow> (case encrypt_for_subject (cipher E) (master_setting E) (random E) ''data''
           (sr_subject run) (Frozen b) (subject_keys db1) of Inl _ \<Rightarrow> None | Inr x \<Rightarrow> Some x);
     db2 \<leftarrow> store_decision E rid rule result sealed (context_snapshots ctx) (db1\<lparr>subject_keys := keys\<rparr>);
     Some (db2\<lparr>next_id := Suc (next_id db2)\<rparr>,
           put_entry db2 ''decision'' STAGE_COMPLETE
             (DecisionInfo (d_disposition result) (d_auto_closed result)) ctx)
   }"

definition block_stage :: "'c screening_env \<Rightarrow> string \<Rightarrow> ('c screening_db, stage_info) stage" where
  "block_stage E rid =
     \<lparr>stage_name = ''block_candidates'', always_run = False, execute = block_candidates E rid\<rparr>"

definition score_stage :: "'c screening_env \<Rightarrow> string \<Rightarrow> ('c screening_db, stage_info) stage" where
  "score_stage E rid =
     \<lparr>stage_name = ''score_candidates'', always_run = False, execute = score_candidates E rid\<rparr>"

definition dispose_stage :: "'c screening_env \<Rightarrow> string \<Rightarrow> ('c screening_db, stage_info) stage" where
  "dispose_stage E rid = \<lparr>stage_name = ''dispose'', always_run = True, execute = dispose E rid\<rparr>"

definition screening_stages :: "'c screening_env \<Rightarrow> string \<Rightarrow> ('c screening_db, stage_info) stage list" where
  "screening_stages E rid = [block_stage E rid, score_stage E rid, dispose_stage E rid]"

definition run_screening :: "'c screening_env \<Rightarrow> string \<Rightarrow> timing list \<Rightarrow> int \<Rightarrow> int \<Rightarrow> 'c screening_db \<Rightarrow> 'c screening_db" where
  "run_screening E rid timings start finish db =
     run_sync (screening_ops rid) (zip (screening_stages E rid) timings) start finish (\<lambda>d. d) db"

end
