(* ===== verification/Screening_Run.thy ===== *)
theory Screening_Run
  imports Screening_Stages Verdict
begin

text \<open>
  What a whole screening run guarantees, whatever the clock does to its stages: the effect of each
  stage on the run's row and on the decisions, and from these that a decision closed without a
  human had full coverage and cleared no exactly matching listed name for a weak reason only.
\<close>

section \<open>The effect of each stage\<close>

lemma run_of_ops: "get_run (screening_ops rid) db = map_option sr_state (row_by sr_id rid (runs db))"
  by (simp add: screening_ops_def)

lemma put_run_ops: "put_run (screening_ops rid) st db
    = db\<lparr>runs := update_row sr_id rid (\<lambda>r. r\<lparr>sr_state := st\<rparr>) (runs db)\<rparr>"
  by (simp add: screening_ops_def)

lemma update_run_tables [simp]:
  "decisions (update_run (screening_ops rid) f db) = decisions db"
  "candidate_rows (update_run (screening_ops rid) f db) = candidate_rows db"
  "watchlist (update_run (screening_ops rid) f db) = watchlist db"
  "subjects (update_run (screening_ops rid) f db) = subjects db"
  "subject_keys (update_run (screening_ops rid) f db) = subject_keys db"
  "rule_rows (update_run (screening_ops rid) f db) = rule_rows db"
  "snapshots (update_run (screening_ops rid) f db) = snapshots db"
  "claims (update_run (screening_ops rid) f db) = claims db"
  "term_rows (update_run (screening_ops rid) f db) = term_rows db"
  by (simp_all add: update_run_def put_run_ops split: option.split)

lemma update_run_row: "row_by sr_id k (runs (update_run (screening_ops rid) f db))
    = map_option (\<lambda>r. if k = rid then r\<lparr>sr_state := f (sr_state r)\<rparr> else r) (row_by sr_id k (runs db))"
proof (cases "row_by sr_id rid (runs db)")
  case None
  then show ?thesis by (auto simp: update_run_def run_of_ops split: option.split intro!: option.map_cong0
        [where f = "\<lambda>r. r", simplified option.map_ident] dest: row_by_Some)
next
  case (Some r)
  then show ?thesis
    by (auto simp: update_run_def run_of_ops put_run_ops row_by_update intro!: option.map_cong)
qed

lemma add_candidates_tables [simp]:
  "runs (add_candidates E rid found db) = runs db" "decisions (add_candidates E rid found db) = decisions db"
  "subjects (add_candidates E rid found db) = subjects db"
  "subject_keys (add_candidates E rid found db) = subject_keys db"
  "watchlist (add_candidates E rid found db) = watchlist db"
  "rule_rows (add_candidates E rid found db) = rule_rows db"
  by (simp_all add: add_candidates_def)

lemma block_effect:
  assumes "block_candidates E rid db ctx = Some (db', ctx')" and "row_by sr_id rid (runs db) = Some run"
  shows "row_by sr_id rid (runs db') = Some (run\<lparr>sr_state := (sr_state run)\<lparr>availability :=
      fold (\<lambda>(k, v). AList.update k v) (list_coverage E db (current_snapshot_ids db)) (availability (sr_state run))\<rparr>\<rparr>)
    \<and> decisions db' = decisions db \<and> rule_rows db' = rule_rows db \<and> watchlist db' = watchlist db
    \<and> subjects db' = subjects db \<and> subject_keys db' = subject_keys db"
  using assms by (auto simp: block_candidates_def Let_def update_availability_def update_run_row
      split: if_splits bind_splits)

lemma store_term_tables [simp]:
  "runs (snd (store_term E rid sid now cand w t st)) = runs (snd st)"
  "decisions (snd (store_term E rid sid now cand w t st)) = decisions (snd st)"
  "candidate_rows (snd (store_term E rid sid now cand w t st)) = candidate_rows (snd st)"
  "rule_rows (snd (store_term E rid sid now cand w t st)) = rule_rows (snd st)"
  "watchlist (snd (store_term E rid sid now cand w t st)) = watchlist (snd st)"
  "subjects (snd (store_term E rid sid now cand w t st)) = subjects (snd st)"
  "subject_keys (snd (store_term E rid sid now cand w t st)) = subject_keys (snd st)"
  by (cases st; simp add: store_term_def Let_def split: option.split)+

lemma store_terms_tables [simp]:
  "runs (snd (fold (store_term E rid sid now cand w) ts st)) = runs (snd st)"
  "decisions (snd (fold (store_term E rid sid now cand w) ts st)) = decisions (snd st)"
  "candidate_rows (snd (fold (store_term E rid sid now cand w) ts st)) = candidate_rows (snd st)"
  "rule_rows (snd (fold (store_term E rid sid now cand w) ts st)) = rule_rows (snd st)"
  "watchlist (snd (fold (store_term E rid sid now cand w) ts st)) = watchlist (snd st)"
  "subjects (snd (fold (store_term E rid sid now cand w) ts st)) = subjects (snd st)"
  "subject_keys (snd (fold (store_term E rid sid now cand w) ts st)) = subject_keys (snd st)"
  by (induction ts arbitrary: st) simp_all

text \<open>Scoring writes scores into the candidate rows and nothing else of them.\<close>

definition unscored :: "candidate_row \<Rightarrow> string \<times> string \<times> string \<times> string list" where
  "unscored c = (c_id c, c_run c, c_record c, c_keys c)"

lemma update_score_unscored [simp]:
  "map unscored (update_row c_id i (\<lambda>c. c\<lparr>c_score := sc\<rparr>) rows) = map unscored rows"
  by (auto simp: update_row_def unscored_def)

lemma store_scored_tables [simp]:
  "runs (snd (fold (store_scored E rid sid now) items st)) = runs (snd st)"
  "decisions (snd (fold (store_scored E rid sid now) items st)) = decisions (snd st)"
  "rule_rows (snd (fold (store_scored E rid sid now) items st)) = rule_rows (snd st)"
  "watchlist (snd (fold (store_scored E rid sid now) items st)) = watchlist (snd st)"
  "subjects (snd (fold (store_scored E rid sid now) items st)) = subjects (snd st)"
  "subject_keys (snd (fold (store_scored E rid sid now) items st)) = subject_keys (snd st)"
  "map unscored (candidate_rows (snd (fold (store_scored E rid sid now) items st)))
     = map unscored (candidate_rows (snd st))"
  by (induction items arbitrary: st) (auto simp: store_scored_def split: prod.splits)

lemma current_rule_tables:
  assumes "current_rule E db = (r, db')"
  shows "runs db' = runs db \<and> decisions db' = decisions db \<and> watchlist db' = watchlist db
    \<and> subjects db' = subjects db \<and> subject_keys db' = subject_keys db \<and> candidate_rows db' = candidate_rows db
    \<and> (rule_rows db' = rule_rows db \<and> r \<in> set (rule_rows db) \<or> rule_rows db' = rule_rows db @ [r] \<and> rv_config r = DEFAULT_RULE)"
proof -
  have mem: "fold (\<lambda>x best. if rv_version best < rv_version x then x else best) rs b \<in> set (b # rs)" for rs b
  proof (induction rs arbitrary: b)
    case (Cons x rs)
    show ?case using Cons.IH [of "if rv_version b < rv_version x then x else b"] by auto
  qed simp
  show ?thesis using assms mem
    by (cases "rule_rows db") (auto simp: current_rule_def latest_rule_def Let_def)
qed

lemma set_run_rule_row: "row_by sr_id k (runs (set_run_rule rid i db))
    = map_option (\<lambda>r. if k = rid then r\<lparr>sr_rule := Some i\<rparr> else r) (row_by sr_id k (runs db))"
  by (simp add: set_run_rule_def row_by_update)

lemma set_run_rule_tables [simp]:
  "decisions (set_run_rule rid i db) = decisions db" "watchlist (set_run_rule rid i db) = watchlist db"
  "subjects (set_run_rule rid i db) = subjects db" "subject_keys (set_run_rule rid i db) = subject_keys db"
  "candidate_rows (set_run_rule rid i db) = candidate_rows db" "rule_rows (set_run_rule rid i db) = rule_rows db"
  by (simp_all add: set_run_rule_def)

lemma score_effect:
  assumes "score_candidates E rid db ctx = Some (db', ctx')" and "row_by sr_id rid (runs db) = Some run"
  shows "\<exists>rule \<in> set (rule_rows db'). row_by sr_id rid (runs db') = Some (run\<lparr>sr_rule := Some (rv_id rule)\<rparr>)"
    and "decisions db' = decisions db \<and> watchlist db' = watchlist db \<and> subjects db' = subjects db
      \<and> subject_keys db' = subject_keys db \<and> map unscored (candidate_rows db') = map unscored (candidate_rows db)"
    and "rule_rows db' = rule_rows db \<or> (\<exists>r. rule_rows db' = rule_rows db @ [r] \<and> rv_config r = DEFAULT_RULE)"
proof -
  obtain rule db1 where cr: "current_rule E db = (rule, db1)" by fastforce
  note t = current_rule_tables [OF cr]
  note facts = assms(1) [unfolded score_candidates_def Let_def cr, simplified] t assms(2)
  show "\<exists>rule \<in> set (rule_rows db'). row_by sr_id rid (runs db') = Some (run\<lparr>sr_rule := Some (rv_id rule)\<rparr>)"
    using facts by (auto simp: set_run_rule_row split: bind_splits)
  show "decisions db' = decisions db \<and> watchlist db' = watchlist db \<and> subjects db' = subjects db
      \<and> subject_keys db' = subject_keys db \<and> map unscored (candidate_rows db') = map unscored (candidate_rows db)"
    using facts by (auto split: bind_splits)
  show "rule_rows db' = rule_rows db \<or> (\<exists>r. rule_rows db' = rule_rows db @ [r] \<and> rv_config r = DEFAULT_RULE)"
    using facts by (auto split: bind_splits)
qed

lemma subject_pii_cong: "subjects db' = subjects db \<Longrightarrow> subject_keys db' = subject_keys db \<Longrightarrow>
    subject_pii E db' sid = subject_pii E db sid"
  by (simp add: subject_pii_def)

lemma record_of_row_cong: "watchlist db' = watchlist db \<Longrightarrow> record_of_row db' = record_of_row db"
  by (rule ext) (simp add: record_of_row_def)

lemma run_rule_tables:
  assumes "run_rule E run db = Some (rule, db')"
  shows "runs db' = runs db \<and> decisions db' = decisions db \<and> watchlist db' = watchlist db
    \<and> subjects db' = subjects db \<and> subject_keys db' = subject_keys db \<and> candidate_rows db' = candidate_rows db
    \<and> (rule \<in> set (rule_rows db) \<or> rv_config rule = DEFAULT_RULE)
    \<and> (\<forall>i. sr_rule run = Some i \<longrightarrow> row_by rv_id i (rule_rows db) = Some rule)"
  using assms current_rule_tables [of E db rule db']
  by (auto simp: run_rule_def dest: row_by_Some split: option.splits)

text \<open>The inputs the last stage freezes, and the row it appends.\<close>

definition frozen_from :: "'c screening_env \<Rightarrow> string \<Rightarrow> 'c screening_db \<Rightarrow> screening_run \<Rightarrow> rule_row
    \<Rightarrow> frozen_bundle \<Rightarrow> bool" where
  "frozen_from E rid db run rule b = (\<exists>person records.
     let cands = sort_key c_record (run_candidates rid db)
     in option_map (record_of_row db) cands = Some records
        \<and> subject_pii E db (sr_subject run) = Some person
        \<and> b = bundle_of person cands records (rv_config rule) (availability (sr_state run))
        \<and> (rule \<in> set (rule_rows db) \<or> rv_config rule = DEFAULT_RULE))"

lemma freeze_effect:
  assumes "freeze_inputs E rid run db = Some (rule, db1, b)"
  shows "frozen_from E rid db run rule b \<and> runs db1 = runs db \<and> decisions db1 = decisions db
    \<and> subjects db1 = subjects db \<and> subject_keys db1 = subject_keys db"
proof -
  have rr: "run_rule E run db = Some (rule, db1)"
    using assms by (auto simp: freeze_inputs_def Let_def split: bind_splits)
  note t = run_rule_tables [OF rr]
  have cands: "run_candidates rid db1 = run_candidates rid db" using t by (simp add: run_candidates_def)
  have rows: "record_of_row db1 = record_of_row db" using t by (intro record_of_row_cong) simp
  have pii: "subject_pii E db1 sid = subject_pii E db sid" for sid using t by (intro subject_pii_cong) simp_all
  show ?thesis
    using assms t by (auto simp: freeze_inputs_def rr Let_def cands rows pii frozen_from_def split: bind_splits)
qed

definition decision_from :: "string \<Rightarrow> rule_row \<Rightarrow> decision_result \<Rightarrow> 'c decision_row \<Rightarrow> bool" where
  "decision_from rid rule result d = (dec_run d = rid \<and> dec_disposition d = d_disposition result
     \<and> dec_auto_closed d = d_auto_closed result \<and> dec_terms d = d_candidates result
     \<and> dec_thresholds d = rule_thresholds (rv_config rule))"

lemma store_decision_effect:
  assumes "store_decision E rid rule result sealed snaps db = Some db'"
  shows "\<exists>d. decision_from rid rule result d \<and> dec_frozen d = sealed \<and> decisions db' = decisions db @ [d]
    \<and> (\<forall>x \<in> set (decisions db). dec_run x \<noteq> rid) \<and> runs db' = runs db \<and> subjects db' = subjects db
    \<and> subject_keys db' = subject_keys db"
  using assms by (auto simp: store_decision_def decision_from_def Let_def list_ex_iff split: if_splits)

lemma dispose_effect:
  assumes "dispose E rid db ctx = Some (db', ctx')" and "row_by sr_id rid (runs db) = Some run"
  obtains rule b result d where "frozen_from E rid db run rule b" and "decide (lib E) b = Some result"
    and "decision_from rid rule result d" and "decisions db' = decisions db @ [d]"
    and "\<forall>x \<in> set (decisions db). dec_run x \<noteq> rid" and "subjects db' = subjects db" and "runs db' = runs db"
    and "encrypt_for_subject (cipher E) (master_setting E) (random E) ''data'' (sr_subject run)
      (Frozen b) (subject_keys db) = Inr (subject_keys db', dec_frozen d)"
proof -
  obtain rule db1 b where f: "freeze_inputs E rid run db = Some (rule, db1, b)"
    using assms by (auto simp: dispose_def split: bind_splits)
  obtain result where r: "decide (lib E) b = Some result"
    using assms f by (auto simp: dispose_def split: bind_splits)
  obtain keys sealed where enc: "encrypt_for_subject (cipher E) (master_setting E) (random E) ''data''
      (sr_subject run) (Frozen b) (subject_keys db1) = Inr (keys, sealed)"
    using assms f r by (auto simp: dispose_def split: bind_splits sum.splits)
  obtain db2 where st: "store_decision E rid rule result sealed (context_snapshots ctx) (db1\<lparr>subject_keys := keys\<rparr>) = Some db2"
    using assms f r enc by (auto simp: dispose_def split: bind_splits)
  have db': "db' = db2\<lparr>next_id := Suc (next_id db2)\<rparr>"
    using assms f r enc st by (simp add: dispose_def)
  from store_decision_effect [OF st] obtain d where d: "decision_from rid rule result d" "dec_frozen d = sealed"
    "decisions db2 = decisions db1 @ [d]" "\<forall>x \<in> set (decisions db1). dec_run x \<noteq> rid"
    "runs db2 = runs db1" "subjects db2 = subjects db1" "subject_keys db2 = keys" by auto
  show thesis
    by (rule that [of rule b result d]) (use freeze_effect [OF f] r d db' enc in auto)
qed

section \<open>The three stages under every clock\<close>

lemma status_update: "row_by sr_id rid (runs db) = Some run \<Longrightarrow>
    row_by sr_id rid (runs (update_stage_status (screening_ops rid) n st db))
      = Some (run\<lparr>sr_state := (sr_state run)\<lparr>availability := AList.update n st (availability (sr_state run))\<rparr>\<rparr>)"
  by (simp add: update_stage_status_def update_run_row)

lemma status_tables [simp]:
  "decisions (update_stage_status (screening_ops rid) n st db) = decisions db"
  "candidate_rows (update_stage_status (screening_ops rid) n st db) = candidate_rows db"
  "watchlist (update_stage_status (screening_ops rid) n st db) = watchlist db"
  "subjects (update_stage_status (screening_ops rid) n st db) = subjects db"
  "subject_keys (update_stage_status (screening_ops rid) n st db) = subject_keys db"
  "rule_rows (update_stage_status (screening_ops rid) n st db) = rule_rows db"
  "snapshots (update_stage_status (screening_ops rid) n st db) = snapshots db"
  by (simp_all add: update_stage_status_def)

definition avail :: "string \<Rightarrow> 'c screening_db \<Rightarrow> (string \<times> string) list" where
  "avail rid db = (case row_by sr_id rid (runs db) of None \<Rightarrow> [] | Some r \<Rightarrow> availability (sr_state r))"

definition subject_of :: "string \<Rightarrow> 'c screening_db \<Rightarrow> string option" where
  "subject_of rid db = map_option sr_subject (row_by sr_id rid (runs db))"

definition run_exists :: "string \<Rightarrow> 'c screening_db \<Rightarrow> bool" where
  "run_exists rid db = (row_by sr_id rid (runs db) \<noteq> None)"

lemma stage_fields [simp]:
  "stage_name (block_stage E rid) = ''block_candidates''" "execute (block_stage E rid) = block_candidates E rid"
  "stage_name (score_stage E rid) = ''score_candidates''" "execute (score_stage E rid) = score_candidates E rid"
  "stage_name (dispose_stage E rid) = ''dispose''" "execute (dispose_stage E rid) = dispose E rid"
  "always_run (block_stage E rid) = False" "always_run (score_stage E rid) = False"
  "always_run (dispose_stage E rid) = True"
  by (simp_all add: block_stage_def score_stage_def dispose_stage_def)

lemma status_subject [simp]: "subject_of rid (update_stage_status (screening_ops rid) n st db) = subject_of rid db"
  by (cases "row_by sr_id rid (runs db)")
    (simp_all add: subject_of_def update_stage_status_def update_run_row)

lemma status_avail: "run_exists rid db \<Longrightarrow>
    run_exists rid (update_stage_status (screening_ops rid) n st db) \<and>
    avail rid (update_stage_status (screening_ops rid) n st db) = AList.update n st (avail rid db)"
  by (auto simp: run_exists_def avail_def status_update)

text \<open>The facts that survive a stage: the tables the later stages read.\<close>

definition same_inputs :: "'c screening_db \<Rightarrow> 'c screening_db \<Rightarrow> bool" where
  "same_inputs db db' = (watchlist db' = watchlist db \<and> subjects db' = subjects db
     \<and> subject_keys db' = subject_keys db \<and> decisions db' = decisions db)"

definition ran_clean :: "('d, 'e) stage \<Rightarrow> timing \<Rightarrow> bool" where
  "ran_clean s t = (\<not> (spent t \<and> \<not> always_run s) \<and> \<not> task_limit t \<and> \<not> overran t)"

text \<open>The coverage a run records for a required source.\<close>

definition covered :: "'c screening_env \<Rightarrow> 'c screening_db \<Rightarrow> string \<Rightarrow> bool" where
  "covered E db src = fresh E (map_of (rev (map (\<lambda>s. (snap_source s, s))
     (filter (\<lambda>s. snap_id s \<in> set (current_snapshot_ids db)) (snapshots db)))) src)"

definition coverage_of :: "'c screening_env \<Rightarrow> 'c screening_db \<Rightarrow> string \<Rightarrow> string" where
  "coverage_of E db src = (if covered E db src then STAGE_COMPLETE else STAGE_UNAVAILABLE)"

lemma list_coverage_of: "map_of (list_coverage E db (current_snapshot_ids db)) k =
    (if \<exists>s \<in> set (required_sources (required_setting E)). k = ''list:'' @ s
     then Some (coverage_of E db (drop 5 k)) else None)"
  unfolding list_coverage_def Let_def list_coverage_entries coverage_of_def covered_def by simp

lemma list_coverage_distinct: "distinct (map fst (list_coverage E db ids))"
proof -
  have "distinct (map fst av) \<Longrightarrow> distinct (map fst (fold (\<lambda>source. AList.update (g source) (f source)) srcs av))"
    for f :: "string \<Rightarrow> string" and g :: "string \<Rightarrow> string" and srcs av
    by (induction srcs arbitrary: av) (simp_all add: distinct_update)
  then show ?thesis by (simp add: list_coverage_def Let_def)
qed

lemma fold_update_all: "distinct (map fst cs) \<Longrightarrow>
    map_of (fold (\<lambda>(k, v). AList.update k v) cs av) k = (case map_of cs k of None \<Rightarrow> map_of av k | Some v \<Rightarrow> Some v)"
proof (induction cs arbitrary: av)
  case (Cons p cs)
  obtain a b where p: "p = (a, b)" by (cases p)
  have "map_of cs a = None" using Cons.prems by (simp add: p map_of_eq_None_iff)
  then show ?case using Cons by (auto simp: p update_conv' split: option.splits)
qed simp

lemma list_key_not_stage: "''list:'' @ src \<notin> {''block_candidates'', ''score_candidates'', ''dispose''}"
  by (cases src) auto

lemma block_step:
  assumes "stage_step (screening_ops rid) (block_stage E rid) t (ctx, db) (ctx2, db2)" and "run_exists rid db"
  shows "run_exists rid db2 \<and> same_inputs db db2 \<and> subject_of rid db2 = subject_of rid db \<and> rule_rows db2 = rule_rows db \<and>
    (map_of (avail rid db2) ''block_candidates'' = Some STAGE_UNAVAILABLE \<or>
     (ran_clean (block_stage E rid) t \<and> (\<exists>db'. block_candidates E rid db ctx = Some (db', ctx2) \<and>
       db2 = update_stage_status (screening_ops rid) ''block_candidates'' STAGE_COMPLETE db' \<and>
       (\<forall>src \<in> set (required_sources (required_setting E)).
          map_of (avail rid db2) (''list:'' @ src) = Some (coverage_of E db src)))))"
  using assms(1)
proof (cases rule: stage_stepE)
  case failed
  then show ?thesis using status_avail [OF assms(2)] by (simp add: same_inputs_def update_conv')
next
  case (finished db')
  then have e: "block_candidates E rid db ctx = Some (db', ctx2)" by (simp add: stage_done_def)
  obtain run where run: "row_by sr_id rid (runs db) = Some run" using assms(2) by (auto simp: run_exists_def)
  note b = block_effect [OF e run]
  let ?st = "if stage_reported_outage ctx ctx2 then STAGE_UNAVAILABLE else STAGE_COMPLETE"
  have ex: "run_exists rid db'" using b by (simp add: run_exists_def)
  have av: "avail rid db2 = AList.update ''block_candidates'' ?st
      (fold (\<lambda>(k, v). AList.update k v) (list_coverage E db (current_snapshot_ids db)) (avail rid db))"
    using finished(2) status_avail [OF ex] b run by (simp add: avail_def)
  have "map_of (avail rid db2) (''list:'' @ src) = Some (coverage_of E db src)"
    if "src \<in> set (required_sources (required_setting E))" for src
    using that list_key_not_stage [of src]
    by (simp add: av update_conv' fold_update_all [OF list_coverage_distinct] list_coverage_of)
  moreover have "same_inputs db db2 \<and> subject_of rid db2 = subject_of rid db \<and> rule_rows db2 = rule_rows db"
    using b run by (simp add: finished(2) same_inputs_def) (simp add: subject_of_def)
  moreover have "run_exists rid db2" using finished(2) status_avail [OF ex] by simp
  moreover have "ran_clean (block_stage E rid) t" using finished(1) by (simp add: stage_done_def ran_clean_def)
  moreover have "map_of (avail rid db2) ''block_candidates'' = Some ?st" by (simp add: av update_conv')
  ultimately show ?thesis using e finished(2) by (cases "stage_reported_outage ctx ctx2") auto
qed

lemma score_step:
  assumes "stage_step (screening_ops rid) (score_stage E rid) t (ctx, db) (ctx2, db2)" and "run_exists rid db"
  shows "run_exists rid db2 \<and> same_inputs db db2 \<and> subject_of rid db2 = subject_of rid db \<and>
    map unscored (candidate_rows db2) = map unscored (candidate_rows db) \<and>
    (\<forall>n. n \<noteq> ''score_candidates'' \<longrightarrow> map_of (avail rid db2) n = map_of (avail rid db) n) \<and>
    (map_of (avail rid db2) ''score_candidates'' = Some STAGE_UNAVAILABLE \<or>
     ran_clean (score_stage E rid) t \<and> score_candidates E rid db ctx \<noteq> None) \<and>
    ((\<forall>r \<in> set (rule_rows db). rv_config r = DEFAULT_RULE) \<longrightarrow> (\<forall>r \<in> set (rule_rows db2). rv_config r = DEFAULT_RULE))"
  using assms(1)
proof (cases rule: stage_stepE)
  case failed
  then show ?thesis using status_avail [OF assms(2)] by (simp add: same_inputs_def update_conv')
next
  case (finished db')
  then have e: "score_candidates E rid db ctx = Some (db', ctx2)" by (simp add: stage_done_def)
  obtain run where run: "row_by sr_id rid (runs db) = Some run" using assms(2) by (auto simp: run_exists_def)
  obtain i where i: "row_by sr_id rid (runs db') = Some (run\<lparr>sr_rule := Some i\<rparr>)"
    using score_effect(1) [OF e run] by blast
  have "(\<forall>r \<in> set (rule_rows db). rv_config r = DEFAULT_RULE) \<longrightarrow> (\<forall>r \<in> set (rule_rows db'). rv_config r = DEFAULT_RULE)"
    using score_effect(3) [OF e run] by auto
  note b = i score_effect(2) [OF e run] this
  have ex: "run_exists rid db'" using b(1) by (simp add: run_exists_def)
  let ?st = "if stage_reported_outage ctx ctx2 then STAGE_UNAVAILABLE else STAGE_COMPLETE"
  have av: "avail rid db2 = AList.update ''score_candidates'' ?st (avail rid db)"
    using finished(2) status_avail [OF ex] b(1) run by (simp add: avail_def)
  have "ran_clean (score_stage E rid) t" using finished(1) by (simp add: stage_done_def ran_clean_def)
  moreover have "run_exists rid db2" using finished(2) status_avail [OF ex] by simp
  moreover have "\<forall>n. n \<noteq> ''score_candidates'' \<longrightarrow> map_of (avail rid db2) n = map_of (avail rid db) n"
    by (simp add: av update_conv')
  moreover have "subject_of rid db2 = subject_of rid db"
    using i run by (simp add: finished(2)) (simp add: subject_of_def)
  moreover have "same_inputs db db2" "candidate_rows db2 = candidate_rows db'" "rule_rows db2 = rule_rows db'"
    using b by (simp_all add: finished(2) same_inputs_def)
  ultimately show ?thesis using b e by auto
qed


section \<open>What a decision of a run was made from\<close>

text \<open>The entries of a run's row that the last stage sees, and leaves as they are.\<close>

definition undisposed :: "(string \<times> string) list \<Rightarrow> (string \<times> string) list" where
  "undisposed av = filter (\<lambda>(k, _). k \<noteq> ''dispose'') av"

lemma undisposed_update [simp]: "undisposed (AList.update ''dispose'' st av) = undisposed av"
  unfolding undisposed_def by (induction av) auto

lemma avail_row: "row_by sr_id rid (runs db) = Some run \<Longrightarrow> avail rid db = availability (sr_state run)"
  by (simp add: avail_def)

text \<open>The states in which the three stages were due, and the decision the last one appended.\<close>

definition traced :: "'c screening_env \<Rightarrow> string \<Rightarrow> timing list \<Rightarrow> 'c screening_db \<Rightarrow> 'c screening_db
    \<Rightarrow> 'c screening_db \<Rightarrow> 'c decision_row \<Rightarrow> bool" where
  "traced E rid ts db0 db1 db2 d = (\<exists>ctx1 ctx2 ctx3 db3.
     stage_step (screening_ops rid) (block_stage E rid) (ts ! 0) ([], db0) (ctx1, db1) \<and>
     stage_step (screening_ops rid) (score_stage E rid) (ts ! 1) (ctx1, db1) (ctx2, db2) \<and>
     dispose E rid db2 ctx2 = Some (db3, ctx3) \<and> decisions db3 = decisions db2 @ [d])"

lemma last_stage:
  assumes "run_stages (screening_ops rid) [(dispose_stage E rid, t)] ctx db = (db', stopped)"
    and "run_exists rid db" and "d \<in> set (decisions db')" and "dec_run d = rid"
    and "\<forall>x \<in> set (decisions db). dec_run x \<noteq> rid"
  shows "\<exists>db3 ctx3. dispose E rid db ctx = Some (db3, ctx3) \<and> decisions db3 = decisions db @ [d]
    \<and> \<not> stopped \<and> undisposed (avail rid db') = undisposed (avail rid db)"
proof -
  obtain run where run: "row_by sr_id rid (runs db) = Some run" using assms(2) by (auto simp: run_exists_def)
  have "d \<notin> set (decisions db)" using assms(4,5) by blast
  then obtain ctx2 db2 where step: "stage_step (screening_ops rid) (dispose_stage E rid) t (ctx, db) (ctx2, db2)"
    and "db' = db2" and "\<not> stopped"
    using run_stages_step [OF assms(1)] assms(3) by auto
  from step show ?thesis
  proof (cases rule: stage_stepE)
    case failed
    then show ?thesis using \<open>d \<notin> set (decisions db)\<close> \<open>db' = db2\<close> assms(3) by simp
  next
    case (finished db3)
    then have e: "dispose E rid db ctx = Some (db3, ctx2)" by (simp add: stage_done_def)
    obtain x where x: "decisions db3 = decisions db @ [x]" using dispose_effect [OF e run] by metis
    have runs3: "runs db3 = runs db" using dispose_effect [OF e run] by metis
    then have "run_exists rid db3" using run by (simp add: run_exists_def)
    from status_avail [OF this] have "undisposed (avail rid db2) = undisposed (avail rid db)"
      using runs3 by (simp add: finished(2) avail_def)
    then show ?thesis
      using x e finished(2) \<open>d \<notin> set (decisions db)\<close> \<open>db' = db2\<close> \<open>\<not> stopped\<close> assms(3) by auto
  qed
qed

lemma run_traced:
  assumes "row_by sr_id rid (runs db) = Some run" and "\<forall>x \<in> set (decisions db). dec_run x \<noteq> rid"
    and "d \<in> set (decisions (run_screening E rid ts start finish db))" and "dec_run d = rid"
    and "length ts = 3"
  obtains db0 db1 db2 where "traced E rid ts db0 db1 db2 d" and "run_exists rid db0"
    and "same_inputs db db0" and "snapshots db0 = snapshots db" and "rule_rows db0 = rule_rows db"
    and "candidate_rows db0 = candidate_rows db"
    and "\<exists>r0. row_by sr_id rid (runs db0) = Some r0 \<and> sr_subject r0 = sr_subject run"
    and "undisposed (avail rid (run_screening E rid ts start finish db)) = undisposed (avail rid db2)"
proof -
  obtain t1 t2 t3 where ts: "ts = [t1, t2, t3]" using assms(5) by (auto simp: numeral_3_eq_3 length_Suc_conv)
  let ?ops = "screening_ops rid :: 'a screening_db run_ops"
  let ?sts = "zip (screening_stages E rid) ts"
  let ?st = "(sr_state run)\<lparr>run_status := ''running'', started_at := Some start,
     availability := fold (\<lambda>(s, _). AList.update (stage_name s) STAGE_PENDING) ?sts []\<rparr>"
  define db0 where db0: "db0 = put_run ?ops ?st db"
  have sts: "?sts = [(block_stage E rid, t1), (score_stage E rid, t2), (dispose_stage E rid, t3)]"
    by (simp add: ts screening_stages_def)
  obtain db4 stopped where rs: "run_stages ?ops ?sts [] db0 = (db4, stopped)" by fastforce
  have "decisions (run_screening E rid ts start finish db) = decisions db4"
    using rs assms(1)
    by (auto simp: run_screening_def run_sync_def db0 run_of_ops finish_failed_def put_run_ops split: option.split bool.split)
  then have d4: "d \<in> set (decisions db4)" using assms(3) by simp
  have ex0: "run_exists rid db0" using assms(1) by (simp add: run_exists_def db0 put_run_ops row_by_update)
  have sub0: "\<exists>r0. row_by sr_id rid (runs db0) = Some r0 \<and> sr_subject r0 = sr_subject run"
    using assms(1) by (simp add: db0 put_run_ops row_by_update)
  have same0: "same_inputs db db0" "snapshots db0 = snapshots db" "rule_rows db0 = rule_rows db"
    "candidate_rows db0 = candidate_rows db"
    by (simp_all add: same_inputs_def db0 put_run_ops)
  have no: "d \<notin> set (decisions x)" if "same_inputs db0 x" for x
    using that same0(1) assms(2,4) by (auto simp: same_inputs_def)
  have self: "same_inputs db0 db0" by (simp add: same_inputs_def)
  obtain ctx1 db1 where s1: "stage_step ?ops (block_stage E rid) t1 ([], db0) (ctx1, db1)"
    and r1: "run_stages ?ops [(score_stage E rid, t2), (dispose_stage E rid, t3)] ctx1 db1 = (db4, stopped)"
    using run_stages_step [OF rs [unfolded sts]] d4 no [OF self] by blast
  have i1: "run_exists rid db1" "same_inputs db0 db1" using block_step [OF s1 ex0] by simp_all
  obtain ctx2 db2 where s2: "stage_step ?ops (score_stage E rid) t2 (ctx1, db1) (ctx2, db2)"
    and r2: "run_stages ?ops [(dispose_stage E rid, t3)] ctx2 db2 = (db4, stopped)"
    using run_stages_step [OF r1] d4 no [OF i1(2)] by blast
  have i2: "run_exists rid db2" "same_inputs db1 db2" using score_step [OF s2 i1(1)] by simp_all
  have "\<forall>x \<in> set (decisions db2). dec_run x \<noteq> rid"
    using i1(2) i2(2) same0(1) assms(2) by (simp add: same_inputs_def)
  from last_stage [OF r2 i2(1) d4 assms(4) this] s1 s2
  have tr: "traced E rid ts db0 db1 db2 d" and go: "\<not> stopped"
    and av: "undisposed (avail rid db4) = undisposed (avail rid db2)" by (auto simp: traced_def ts)
  have "run_screening E rid ts start finish db
      = update_run ?ops (\<lambda>r. r\<lparr>run_status := ''complete'', finished_at := Some finish\<rparr>) db4"
    using rs assms(1) go by (simp add: run_screening_def run_sync_def run_of_ops db0)
  then have "avail rid (run_screening E rid ts start finish db) = avail rid db4"
    by (cases "row_by sr_id rid (runs db4)") (simp_all add: avail_def update_run_row)
  then show thesis using av by (intro that [OF tr ex0 same0 sub0]) simp
qed

lemma frozen_status:
  "frozen_from E rid db run rule b \<Longrightarrow> row_by sr_id rid (runs db) = Some run \<Longrightarrow>
   source_status b = filter (\<lambda>(k, _). k \<noteq> ''dispose'') (avail rid db)"
  by (auto simp: frozen_from_def bundle_of_def avail_def Let_def)

lemma traced_decision:
  assumes "traced E rid ts db0 db1 db2 d" and "run_exists rid db0"
  obtains run rule b result where "row_by sr_id rid (runs db2) = Some run"
    and "frozen_from E rid db2 run rule b" and "decide (lib E) b = Some result"
    and "decision_from rid rule result d"
proof -
  obtain ctx1 ctx2 ctx3 db3 where
    s1: "stage_step (screening_ops rid) (block_stage E rid) (ts ! 0) ([], db0) (ctx1, db1)" and
    s2: "stage_step (screening_ops rid) (score_stage E rid) (ts ! 1) (ctx1, db1) (ctx2, db2)" and
    d: "dispose E rid db2 ctx2 = Some (db3, ctx3)" "decisions db3 = decisions db2 @ [d]"
    using assms(1) unfolding traced_def by blast
  have "run_exists rid db2" using block_step [OF s1 assms(2)] score_step [OF s2] by simp
  then obtain run where run: "row_by sr_id rid (runs db2) = Some run" by (auto simp: run_exists_def)
  obtain rule b result d' where "frozen_from E rid db2 run rule b" "decide (lib E) b = Some result"
    "decision_from rid rule result d'" "decisions db3 = decisions db2 @ [d']"
    using dispose_effect [OF d(1) run] by metis
  then show thesis using run d(2) by (intro that) simp_all
qed

lemma traced_CLEAR:
  assumes "traced E rid ts db0 db1 db2 d" and "run_exists rid db0" and "dec_disposition d \<notin> {REVIEW, MATCH}"
  shows "dec_auto_closed d"
proof -
  obtain run rule b result where dec: "decide (lib E) b = Some result" and d: "decision_from rid rule result d"
    using traced_decision [OF assms(1,2)] by metis
  show ?thesis using assms(3) d decide_CLEAR [OF dec]
    by (cases "dec_disposition d") (simp_all add: decision_from_def)
qed

lemma auto_closed_available:
  assumes "traced E rid ts db0 db1 db2 d" and "run_exists rid db0" and "dec_auto_closed d"
    and "n \<noteq> ''dispose''"
  shows "map_of (avail rid db2) n \<noteq> Some STAGE_UNAVAILABLE"
proof
  assume u: "map_of (avail rid db2) n = Some STAGE_UNAVAILABLE"
  obtain run rule b result where run: "row_by sr_id rid (runs db2) = Some run"
    and b: "frozen_from E rid db2 run rule b" "decide (lib E) b = Some result" "decision_from rid rule result d"
    using traced_decision [OF assms(1,2)] .
  have "(n, ''unavailable'') \<in> set (source_status b)"
    using map_of_SomeD [OF u] assms(4) by (simp add: frozen_status [OF b(1) run] STAGE_UNAVAILABLE_def)
  moreover have "d_auto_closed result" using b(3) assms(3) by (simp add: decision_from_def)
  ultimately show False using decide_auto_closed(1) [OF b(2)] by force
qed

lemma auto_closed_stages:
  assumes "traced E rid ts db0 db1 db2 d" and "run_exists rid db0" and "dec_auto_closed d"
  obtains ctx1 ctx2 db' where "ran_clean (block_stage E rid) (ts ! 0)" and "ran_clean (score_stage E rid) (ts ! 1)"
    and "block_candidates E rid db0 [] = Some (db', ctx1)"
    and "db1 = update_stage_status (screening_ops rid) ''block_candidates'' STAGE_COMPLETE db'"
    and "score_candidates E rid db1 ctx1 \<noteq> None"
    and "stage_step (screening_ops rid) (score_stage E rid) (ts ! 1) (ctx1, db1) (ctx2, db2)"
    and "\<forall>src \<in> set (required_sources (required_setting E)). covered E db0 src"
proof -
  obtain ctx1 ctx2 where
    s1: "stage_step (screening_ops rid) (block_stage E rid) (ts ! 0) ([], db0) (ctx1, db1)" and
    s2: "stage_step (screening_ops rid) (score_stage E rid) (ts ! 1) (ctx1, db1) (ctx2, db2)"
    using assms(1) unfolding traced_def by blast
  note b = block_step [OF s1 assms(2)]
  note c = score_step [OF s2 b [THEN conjunct1]]
  note un = auto_closed_available [OF assms]
  have keep: "map_of (avail rid db2) n = map_of (avail rid db1) n" if "n \<noteq> ''score_candidates''" for n
    using c that by blast
  have sc: "ran_clean (score_stage E rid) (ts ! 1) \<and> score_candidates E rid db1 ctx1 \<noteq> None"
    using c un [of "''score_candidates''"] by auto
  have "map_of (avail rid db1) ''block_candidates'' \<noteq> Some STAGE_UNAVAILABLE"
    using un [of "''block_candidates''"] keep [of "''block_candidates''"] by simp
  then obtain db' where db': "ran_clean (block_stage E rid) (ts ! 0)" "block_candidates E rid db0 [] = Some (db', ctx1)"
    "db1 = update_stage_status (screening_ops rid) ''block_candidates'' STAGE_COMPLETE db'"
    "\<forall>src \<in> set (required_sources (required_setting E)).
       map_of (avail rid db1) (''list:'' @ src) = Some (coverage_of E db0 src)"
    using b by blast
  have "covered E db0 src" if "src \<in> set (required_sources (required_setting E))" for src
  proof -
    have k: "''list:'' @ src \<noteq> ''score_candidates''" "''list:'' @ src \<noteq> ''dispose''"
      using list_key_not_stage [of src] by auto
    have "map_of (avail rid db2) (''list:'' @ src) = Some (coverage_of E db0 src)"
      using db'(4) that keep [OF k(1)] by simp
    then show ?thesis using un [OF k(2)] by (auto simp: coverage_of_def split: if_splits)
  qed
  then show thesis using that db' sc s2 by blast
qed

lemma current_snapshot_ids_cong:
  assumes "same_inputs db db'" and "snapshots db' = snapshots db"
  shows "current_snapshot_ids db' = current_snapshot_ids db"
proof -
  have w: "with_records db' = with_records db" using assms by (simp add: with_records_def same_inputs_def)
  then have "latest_of db' = latest_of db" unfolding latest_of_def w assms(2) by (intro ext refl)
  then show ?thesis using w by (simp add: current_snapshot_ids_def)
qed

text \<open>C8. No run is closed as CLEAR unless its coverage was complete: whatever the clock does, a
  decision is REVIEW or MATCH unless the run's blocking and scoring stages ran to the end in time
  and every required list had a snapshot with records no older than the configured age.\<close>

theorem clear_needs_coverage:
  assumes "row_by sr_id rid (runs db) = Some run" and "\<forall>x \<in> set (decisions db). dec_run x \<noteq> rid"
    and "d \<in> set (decisions (run_screening E rid ts start finish db))" and "dec_run d = rid"
    and "length ts = 3"
  shows "dec_disposition d \<in> {REVIEW, MATCH} \<or>
    \<not> overran (ts ! 0) \<and> \<not> spent (ts ! 0) \<and> \<not> overran (ts ! 1) \<and> \<not> spent (ts ! 1) \<and>
    (\<forall>src \<in> set (required_sources (required_setting E)). \<exists>s \<in> set (snapshots db).
       snap_source s = src \<and> snap_id s \<in> set (current_snapshot_ids db)
       \<and> clock E - snap_retrieved_at s \<le> max_list_age E)"
proof (cases "dec_disposition d \<in> {REVIEW, MATCH}")
  case False
  obtain db0 db1 db2 where t: "traced E rid ts db0 db1 db2 d" and ex: "run_exists rid db0"
    and same: "same_inputs db db0" "snapshots db0 = snapshots db"
    using run_traced [OF assms(1-5)] by metis
  note ids = current_snapshot_ids_cong [OF same]
  obtain ctx1 ctx2 db' where clean: "ran_clean (block_stage E rid) (ts ! 0)" "ran_clean (score_stage E rid) (ts ! 1)"
    and cov: "\<forall>src \<in> set (required_sources (required_setting E)). covered E db0 src"
    using auto_closed_stages [OF t ex traced_CLEAR [OF t ex False]] by metis
  have "\<exists>s \<in> set (snapshots db). snap_source s = src \<and> snap_id s \<in> set (current_snapshot_ids db)
       \<and> clock E - snap_retrieved_at s \<le> max_list_age E" if "covered E db0 src" for src
    using that same(2) ids
    by (auto simp: covered_def fresh_def split: option.splits dest!: map_of_rev_in_set)
  then show ?thesis using clean cov by (auto simp: ran_clean_def)
qed simp

section \<open>A listed name in a run\<close>

lemma matched_complete:
  "c \<in> set (candidates L ix (Some n) DEFAULT_CAP) \<Longrightarrow> n \<in> set names \<Longrightarrow>
   cand_record_id c \<in> fst ` set (matched L ix names)"
  by (force simp: matched_def Let_def image_image)

lemma add_candidates_rows:
  "r \<in> fst ` set found \<Longrightarrow>
   \<exists>c \<in> set (candidate_rows (add_candidates E rid found db)). c_run c = rid \<and> c_record c = r"
proof -
  assume "r \<in> fst ` set found"
  then obtain i where i: "i < length found" "fst (found ! i) = r" by (auto simp: in_set_conv_nth)
  let ?new = "map2 (\<lambda>i (rec, keys). \<lparr>c_id = i, c_run = rid, c_record = rec, c_keys = keys, c_score = None\<rparr>)
        (new_ids E db (length found)) found"
  have "?new ! i \<in> set ?new" using i(1) by (intro nth_mem) (simp add: new_ids_def)
  moreover have "c_run (?new ! i) = rid" "c_record (?new ! i) = r"
    using i by (simp_all add: new_ids_def split: prod.split) (metis fst_conv)
  moreover have "candidate_rows (add_candidates E rid found db) = candidate_rows db @ ?new"
    by (simp add: add_candidates_def)
  ultimately show ?thesis by (intro bexI [of _ "?new ! i"]) (simp_all only: set_append UnI2)
qed

lemma block_found:
  assumes "block_candidates E rid db ctx = Some (db', ctx')" and "row_by sr_id rid (runs db) = Some run"
    and "subject_pii E db (sr_subject run) = Some person" and "current_snapshot_ids db \<noteq> []"
    and "r \<in> fst ` set (matched (lib E) (build_index (lib E) (index_input db (current_snapshot_ids db))) (subject_names person))"
  shows "\<exists>c \<in> set (candidate_rows db'). c_run c = rid \<and> c_record c = r"
proof -
  let ?db1 = "update_availability rid (list_coverage E db (current_snapshot_ids db)) db"
  have pii: "subject_pii E ?db1 sid = subject_pii E db sid" for sid
    by (rule subject_pii_cong) (simp_all add: update_availability_def)
  have input: "index_input ?db1 ids = index_input db ids" for ids
    by (simp add: index_input_def update_availability_def)
  show ?thesis
    using assms(1-4) add_candidates_rows [OF assms(5), of E rid ?db1]
    by (auto simp: block_candidates_def Let_def pii input)
qed

lemma name_rank_exact: "name_rank t = 0 \<Longrightarrow> t \<in> set NAME_TERMS \<Longrightarrow> t = name_exact_normalized"
  by (auto simp: name_rank_def NAME_TERMS_def TERM_CATALOG_def split: if_splits)

lemma rank_of_exact [simp]: "name_rank name_exact_normalized = 0"
  by (simp add: name_rank_def NAME_TERMS_def TERM_CATALOG_def)

lemma compare_names_exact:
  assumes "v \<in> set rs" and "tokens L (Some n) = tokens L (Some v)" and "tokens L (Some n) \<noteq> []"
  shows "\<exists>w. compare_names L n rs = Some (name_exact_normalized, w)"
proof -
  have "compare_tokens L (tokens L (Some n)) (tokens L (Some v)) = Some name_exact_normalized"
    using assms(2,3) by (simp add: compare_tokens_def)
  from compare_names_best [OF assms(1) this] obtain u w
    where u: "compare_names L n rs = Some (u, w)" "name_rank u = 0" by auto
  then have "u \<in> set NAME_TERMS" using compare_names_range [OF u(1)] compare_tokens_range by blast
  then show ?thesis using name_rank_exact [OF u(2)] u(1) by blast
qed

lemma found_exact:
  assumes "subj_name s = Some n" and "n \<noteq> []" and "v \<in> set (rec_names w)"
    and "tokens L (Some n) = tokens L (Some v)" and "tokens L (Some n) \<noteq> []"
  shows "name_exact_normalized \<in> set (expected_terms L s w rule freq)"
proof -
  obtain x where x: "compare_names L n (rec_names w) = Some (name_exact_normalized, x)"
    using compare_names_exact [OF assms(3-5)] by blast
  let ?g = "\<lambda>name. if name = [] then None
         else map_option (\<lambda>(t, record_name). (t, record_name, name)) (compare_names L name (rec_names w))"
  have "n \<in> set (text_or (subj_name s) '''' # aliases s)" using assms(1,2) by (simp add: text_or_def)
  moreover have "?g n = Some (name_exact_normalized, x, n)" using x assms(2) by simp
  ultimately have "\<exists>u y. best_name L s w = Some (u, y) \<and> name_rank u \<le> name_rank name_exact_normalized"
    unfolding best_name_def by (rule fold_keep_best_minimal)
  then obtain u rn sn where u: "best_name L s w = Some (u, rn, sn)" "name_rank u = 0" by auto
  then have "u \<in> set NAME_TERMS" using best_name_range(4) [OF u(1)] compare_tokens_range by blast
  then have "u = name_exact_normalized" using name_rank_exact u(2) by blast
  then show ?thesis by (simp add: expected_terms_def found_terms_def u(1) opt_list_def)
qed

lemma option_map_member:
  "option_map f xs = Some ys \<Longrightarrow> x \<in> set xs \<Longrightarrow> \<exists>i < length xs. xs ! i = x \<and> length ys = length xs \<and> f x = Some (ys ! i)"
  using option_map_nth [of f xs ys] by (auto simp: in_set_conv_nth)

lemma unscored_member:
  assumes "map unscored rows' = map unscored rows" and "c \<in> set rows"
  shows "\<exists>c' \<in> set rows'. unscored c' = unscored c"
proof -
  have "unscored c \<in> set (map unscored rows)" using assms(2) by simp
  then have "unscored c \<in> set (map unscored rows')" by (simp only: assms(1))
  then show ?thesis by auto
qed

lemma find_unique:
  "distinct (map f xs) \<Longrightarrow> x \<in> set xs \<Longrightarrow> find (\<lambda>y. f y = f x) xs = Some x"
  by (induction xs) auto

lemma frozen_candidate:
  assumes "frozen_from E rid db run rule b" and "c \<in> set (candidate_rows db)" and "c_run c = rid"
    and "w \<in> set (watchlist db)" and "rec_id (wr_record w) = c_record c"
    and "distinct (map (rec_id \<circ> wr_record) (watchlist db))"
  shows "\<exists>cand \<in> set (b_candidates b). record_of cand = wr_record w"
proof -
  let ?cands = "sort_key c_record (run_candidates rid db)"
  obtain person records where records: "option_map (record_of_row db) ?cands = Some records"
    and b: "b = bundle_of person ?cands records (rv_config rule) (availability (sr_state run))"
    using assms(1) by (auto simp: frozen_from_def Let_def)
  have "c \<in> set ?cands" using assms(2,3) by (simp add: run_candidates_def)
  then obtain i where i: "i < length ?cands" "?cands ! i = c" "length records = length ?cands"
    "record_of_row db c = Some (records ! i)"
    using option_map_member [OF records] by blast
  have "record_of_row db c = Some w"
    using find_unique [of "rec_id \<circ> wr_record" "watchlist db" w] assms(4-6)
    by (simp add: record_of_row_def)
  then have w: "records ! i = w" using i(4) by simp
  have "b_candidates b ! i \<in> set (b_candidates b)" using i by (intro nth_mem) (simp add: b bundle_of_def)
  moreover have "record_of (b_candidates b ! i) = wr_record w"
    using i w by (simp add: b bundle_of_def)
  ultimately show ?thesis by blast
qed

lemma listed_in_index:
  assumes "w \<in> set (watchlist db)" and "wr_snapshot w \<in> set ids" and "v \<in> set (rec_names (wr_record w))"
    and "tokens L (Some n) = tokens L (Some v)" and "t \<in> set (tokens L (Some n))" and "2 \<le> length t"
  shows "rec_id (wr_record w)
    \<in> cand_record_id ` set (candidates L (build_index L (index_input db ids)) (Some n) cap)"
proof (rule full_hit_returned)
  let ?rs = "index_input db ids"
  have "(rec_id (wr_record w), rec_names (wr_record w)) \<in> set ?rs" using assms(1,2) by (auto simp: index_input_def)
  from name_keys_record [OF this assms(3), of L]
  have sub: "name_keys L (Some n) \<subseteq> record_keys L ?rs (rec_id (wr_record w))"
    by (simp add: name_keys_def assms(4))
  have le: "token_keys L u \<subseteq> name_keys L (Some n)" if "u \<in> set (tokens L (Some n))" for u
    using that by (auto simp: name_keys_def)
  have "token_keys L t \<noteq> {}" using assms(6) by simp
  then show "name_keys L (Some n) \<inter> record_keys L ?rs (rec_id (wr_record w)) \<noteq> {}"
    using le [OF assms(5)] sub by blast
  show "\<forall>g \<in> set (token_key_groups L (Some n)). g \<inter> record_keys L ?rs (rec_id (wr_record w)) \<noteq> {}"
    using le sub unfolding token_key_groups_def by auto
qed

text \<open>What the decision's state still shares with the run's start.\<close>

lemma traced_state:
  assumes "traced E rid ts db0 db1 db2 d" and "run_exists rid db0"
    and "subject_of rid db0 = Some sid" and "\<forall>r \<in> set (rule_rows db0). rv_config r = DEFAULT_RULE"
  shows "same_inputs db0 db2 \<and> subject_of rid db2 = Some sid \<and> (\<forall>r \<in> set (rule_rows db2). rv_config r = DEFAULT_RULE)"
proof -
  obtain ctx1 ctx2 where
    s1: "stage_step (screening_ops rid) (block_stage E rid) (ts ! 0) ([], db0) (ctx1, db1)" and
    s2: "stage_step (screening_ops rid) (score_stage E rid) (ts ! 1) (ctx1, db1) (ctx2, db2)"
    using assms(1) unfolding traced_def by blast
  note b1 = block_step [OF s1 assms(2)]
  note b2 = score_step [OF s2 b1 [THEN conjunct1]]
  show ?thesis using b1 b2 assms(3,4) by (simp add: same_inputs_def)
qed

lemma traced_candidate:
  assumes tr: "traced E rid ts db0 db1 db2 d" and ex: "run_exists rid db0" and closed: "dec_auto_closed d"
    and sub: "subject_of rid db0 = Some sid" and pii: "subject_pii E db0 sid = Some person"
    and listed: "r \<in> fst ` set (matched (lib E)
      (build_index (lib E) (index_input db0 (current_snapshot_ids db0))) (subject_names person))"
    and snaps: "current_snapshot_ids db0 \<noteq> []"
  shows "\<exists>c \<in> set (candidate_rows db2). c_run c = rid \<and> c_record c = r"
proof -
  obtain ctx1 ctx2 db' where block: "block_candidates E rid db0 [] = Some (db', ctx1)"
    and db1: "db1 = update_stage_status (screening_ops rid) ''block_candidates'' STAGE_COMPLETE db'"
    and s2: "stage_step (screening_ops rid) (score_stage E rid) (ts ! 1) (ctx1, db1) (ctx2, db2)"
    using auto_closed_stages [OF tr ex closed] by metis
  obtain run0 where run0: "row_by sr_id rid (runs db0) = Some run0" "sr_subject run0 = sid"
    using sub by (auto simp: subject_of_def)
  have "run_exists rid db1"
    using block_effect [OF block run0(1)] status_avail [of rid db'] by (simp add: run_exists_def db1)
  note b2 = score_step [OF s2 this]
  obtain c where c: "c \<in> set (candidate_rows db')" "c_run c = rid" "c_record c = r"
    using block_found [OF block run0(1) _ snaps listed] pii run0(2) by blast
  have "map unscored (candidate_rows db2) = map unscored (candidate_rows db')" using b2 by (simp add: db1)
  from unscored_member [OF this c(1)] show ?thesis using c(2,3) by (auto simp: unscored_def)
qed

lemma cleared_exact_candidate:
  assumes "decide L b = Some result" and "d_auto_closed result" and "b_rule b = DEFAULT_RULE"
    and "cand \<in> set (b_candidates b)" and "subj_name (b_subject b) = Some n" and "n \<noteq> []"
    and "v \<in> set (rec_names (record_of cand))" and "tokens L (Some n) = tokens L (Some v)"
    and "t \<in> set (tokens L (Some n))"
  shows "\<exists>c \<in> set (d_candidates result). r_record_id c = rec_id (record_of cand)
    \<and> name_exact_normalized \<in> p_name ` set (r_terms c) \<and> weak_clear (map p_name (r_terms c))"
proof -
  obtain freq sc tms where sp: "score_pair L (b_subject b) (record_of cand) DEFAULT_RULE freq = Some (sc, tms)"
    and mem: "candidate_result_of DEFAULT_RULE cand (sc, tms) \<in> set (d_candidates result)"
    using decide_covers [OF assms(1,4)] assms(3) by metis
  have tok: "tokens L (Some n) \<noteq> []" using assms(9) by auto
  let ?c = "candidate_result_of DEFAULT_RULE cand (sc, tms)"
  have exact: "name_exact_normalized \<in> set (map p_name (r_terms ?c))"
    unfolding candidate_result_simps(2) score_pair_names(1) [OF sp] by (rule found_exact [OF assms(5-8) tok])
  have "r_band ?c = CLEAR" using decide_auto_closed(2) [OF assms(1,2)] mem by blast
  then have "weak_clear (map p_name (r_terms ?c))"
    using default_candidate [OF assms(1) mem assms(3)] exact by (simp add: profile_ok_def)
  moreover have "name_exact_normalized \<in> p_name ` set (r_terms ?c)" using exact by (simp only: set_map)
  ultimately show ?thesis using mem by (intro bexI [of _ ?c]) simp_all
qed

text \<open>C7. From the lists to the verdict: under the default rule, when a current list entry has a name
  with the tokens of the subject's name, the run's decision is REVIEW or MATCH, unless that entry was
  a candidate of the decision, scored as an exact name match, and cleared only because the
  common-name penalty and a nationality conflict both applied to it.\<close>

theorem listed_name_not_cleared:
  assumes "row_by sr_id rid (runs db) = Some run" and "\<forall>x \<in> set (decisions db). dec_run x \<noteq> rid"
    and "d \<in> set (decisions (run_screening E rid ts start finish db))" and "dec_run d = rid"
    and "length ts = 3"
    and "\<forall>r \<in> set (rule_rows db). rv_config r = DEFAULT_RULE"
    and "distinct (map (rec_id \<circ> wr_record) (watchlist db))"
    and "subject_pii E db (sr_subject run) = Some person" and "subj_name person = Some n"
    and "w \<in> set (watchlist db)" and "wr_snapshot w \<in> set (current_snapshot_ids db)"
    and "v \<in> set (rec_names (wr_record w))" and "tokens (lib E) (Some n) = tokens (lib E) (Some v)"
    and "t \<in> set (tokens (lib E) (Some n))" and "2 \<le> length t"
  shows "dec_disposition d \<in> {REVIEW, MATCH} \<or>
    (\<exists>c \<in> set (dec_terms d). r_record_id c = rec_id (wr_record w)
    \<and> name_exact_normalized \<in> p_name ` set (r_terms c) \<and> weak_clear (map p_name (r_terms c)))"
proof (cases "dec_disposition d \<in> {REVIEW, MATCH}")
  case False
  obtain db0 db1 db2 where tr: "traced E rid ts db0 db1 db2 d" and ex: "run_exists rid db0"
    and same0: "same_inputs db db0" "snapshots db0 = snapshots db" "rule_rows db0 = rule_rows db"
    and sub0: "subject_of rid db0 = Some (sr_subject run)"
    using run_traced [OF assms(1-5)] unfolding subject_of_def by (metis option.simps(9))
  note auto_closed = traced_CLEAR [OF tr ex False]
  note ids = current_snapshot_ids_cong [OF same0(1,2)]
  have st: "same_inputs db db2" "subject_of rid db2 = Some (sr_subject run)"
    "\<forall>r \<in> set (rule_rows db2). rv_config r = DEFAULT_RULE"
    using traced_state [OF tr ex sub0] same0 assms(6) by (simp_all add: same_inputs_def)
  have pii: "subject_pii E x sid = subject_pii E db sid" if "same_inputs db x" for x sid
    using that by (intro subject_pii_cong) (simp_all add: same_inputs_def)
  have n: "n \<noteq> []" "n \<in> set (subject_names person)"
    using assms(9,14) by (auto simp: tokens_def subject_names_def text_or_def)
  have input: "index_input db0 i = index_input db i" for i
    using same0(1) by (simp add: index_input_def same_inputs_def)
  have listed: "rec_id (wr_record w) \<in> fst ` set (matched (lib E)
      (build_index (lib E) (index_input db0 (current_snapshot_ids db0))) (subject_names person))"
    using listed_in_index [OF assms(10-15)] matched_complete [OF _ n(2)] unfolding ids input by fastforce
  have snaps: "current_snapshot_ids db0 \<noteq> []" using assms(11) ids by auto
  have pii0: "subject_pii E db0 (sr_subject run) = Some person" using assms(8) pii [OF same0(1)] by simp
  obtain c2 where c2: "c2 \<in> set (candidate_rows db2)" "c_run c2 = rid" "rec_id (wr_record w) = c_record c2"
    using traced_candidate [OF tr ex auto_closed sub0 pii0 listed snaps] by metis
  obtain run2 rule b result where run2: "row_by sr_id rid (runs db2) = Some run2"
    and b: "frozen_from E rid db2 run2 rule b" and dec: "decide (lib E) b = Some result"
    and d: "decision_from rid rule result d"
    using traced_decision [OF tr ex] .
  have wl: "w \<in> set (watchlist db2)" "distinct (map (rec_id \<circ> wr_record) (watchlist db2))"
    using st(1) assms(7,10) by (simp_all add: same_inputs_def)
  obtain cand where cand: "cand \<in> set (b_candidates b)" "record_of cand = wr_record w"
    using frozen_candidate [OF b c2(1,2) wl(1) c2(3) wl(2)] by blast
  have "sr_subject run2 = sr_subject run" using run2 st(2) by (simp add: subject_of_def)
  then have subj: "b_subject b = person" and rule: "b_rule b = DEFAULT_RULE"
    using b pii [OF st(1)] st(3) assms(8) by (auto simp: frozen_from_def bundle_of_def Let_def)
  have closed: "d_auto_closed result" using d auto_closed by (simp add: decision_from_def)
  obtain c where "c \<in> set (d_candidates result)" "r_record_id c = rec_id (record_of cand)"
    "name_exact_normalized \<in> p_name ` set (r_terms c)" "weak_clear (map p_name (r_terms c))"
    using cleared_exact_candidate [OF dec closed rule cand(1), of n v t] assms(9,12-14) n(1)
    unfolding subj cand(2) by blast
  then show ?thesis using cand(2) d by (auto simp: decision_from_def)
qed simp

end
