(* ===== verification/Screening_Live.thy ===== *)
theory Screening_Live
  imports Screening_Run Samples
begin

text \<open>
  Liveness of a screening run: each stage leaves the run's row as the orchestrator's locale
  requires, so the run always ends with a settled row, and a run whose rows are in place when it
  starts always receives a decision. The last section is a small database on which the properties
  of the runs are exercised.
\<close>

section \<open>Every run gets a decision\<close>

lemma encrypt_readable:
  assumes "subject_pii E db sid = Some person"
  shows "\<exists>keys sealed. encrypt_for_subject (cipher E) (master_setting E) rnd purpose sid v (subject_keys db) = Inr (keys, sealed)"
proof -
  obtain row where row: "row_by s_id sid (subjects db) = Some row"
    and get: "as_pii (get_subject_pii (cipher E) (master_setting E) row (subject_keys db)) = Some person"
    using assms by (auto simp: subject_pii_def split: bind_splits)
  have sid: "s_id row = sid" using row_by_Some [OF row] by simp
  have "\<exists>v. get_subject_pii (cipher E) (master_setting E) row (subject_keys db) = Inr v"
    using get by (cases "get_subject_pii (cipher E) (master_setting E) row (subject_keys db)") (auto simp: as_pii_def)
  then obtain k where k: "data_key (cipher E) (master_setting E) (subject_keys db) sid = Inr k"
    by (auto simp: get_subject_pii_def decrypt_for_subject_def and_then_Inr sid split: if_splits option.splits prod.splits)
  then have "find_key sid (subject_keys db) \<noteq> None"
    by (auto simp: data_key_def key_row_of_def split: option.splits)
  then show ?thesis using k by (auto simp: encrypt_for_subject_def ensure_subject_key_def)
qed

definition rules_complete :: "'c screening_db \<Rightarrow> bool" where
  "rules_complete db = (\<forall>r \<in> set (rule_rows db). \<forall>t. weights (rv_config r) t \<noteq> None)"

definition records_known :: "string \<Rightarrow> 'c screening_db \<Rightarrow> bool" where
  "records_known rid db = (\<forall>c \<in> set (run_candidates rid db). record_of_row db c \<noteq> None)"

definition rule_known :: "string \<Rightarrow> 'c screening_db \<Rightarrow> bool" where
  "rule_known rid db = (\<forall>run i. row_by sr_id rid (runs db) = Some run \<longrightarrow> sr_rule run = Some i \<longrightarrow>
     row_by rv_id i (rule_rows db) \<noteq> None)"

lemma default_complete: "weights DEFAULT_RULE t \<noteq> None"
  by (simp add: DEFAULT_RULE_def)

lemma freeze_defined:
  assumes "row_by sr_id rid (runs db) = Some run" and "subject_pii E db (sr_subject run) = Some person"
    and "records_known rid db" and "rule_known rid db"
  shows "\<exists>rule db1 b. freeze_inputs E rid run db = Some (rule, db1, b)"
proof -
  obtain rule db1 where rr: "run_rule E run db = Some (rule, db1)"
    using assms(1,4) by (cases "sr_rule run"; cases "current_rule E db") (auto simp: run_rule_def rule_known_def)
  note t = run_rule_tables [OF rr]
  have cands: "run_candidates rid db1 = run_candidates rid db" using t by (simp add: run_candidates_def)
  have rows: "record_of_row db1 = record_of_row db" using t by (intro record_of_row_cong) simp
  have pii: "subject_pii E db1 sid = subject_pii E db sid" for sid using t by (intro subject_pii_cong) simp_all
  have "option_map (record_of_row db) (sort_key c_record (run_candidates rid db)) \<noteq> None"
    using assms(3) by (auto simp: option_map_None records_known_def)
  then show ?thesis by (auto simp: freeze_inputs_def rr Let_def cands rows pii assms(2))
qed

lemma dispose_defined:
  assumes "row_by sr_id rid (runs db) = Some run" and "subject_pii E db (sr_subject run) = Some person"
    and "records_known rid db" and "rule_known rid db" and "rules_complete db"
    and "\<forall>x \<in> set (decisions db). dec_run x \<noteq> rid"
  shows "\<exists>db' ctx' d. dispose E rid db ctx = Some (db', ctx') \<and> decisions db' = decisions db @ [d] \<and> dec_run d = rid"
proof -
  obtain rule db1 b where f: "freeze_inputs E rid run db = Some (rule, db1, b)"
    using freeze_defined [OF assms(1-4)] by blast
  note e = freeze_effect [OF f]
  have "b_rule b = rv_config rule" "rule \<in> set (rule_rows db) \<or> rv_config rule = DEFAULT_RULE"
    using e by (auto simp: frozen_from_def bundle_of_def Let_def)
  then have "\<forall>t. weights (b_rule b) t \<noteq> None" using assms(5) default_complete by (auto simp: rules_complete_def)
  then obtain result where r: "decide (lib E) b = Some result" using decide_defined [of b "lib E"] by auto
  obtain keys sealed where enc: "encrypt_for_subject (cipher E) (master_setting E) (random E) ''data''
      (sr_subject run) (Frozen b) (subject_keys db) = Inr (keys, sealed)"
    using encrypt_readable [OF assms(2)] by blast
  obtain db2 where st: "store_decision E rid rule result sealed (context_snapshots ctx) (db1\<lparr>subject_keys := keys\<rparr>) = Some db2"
    using e assms(6) by (auto simp: store_decision_def Let_def list_ex_iff)
  have "dispose E rid db ctx = Some (db2\<lparr>next_id := Suc (next_id db2)\<rparr>,
           put_entry db2 ''decision'' STAGE_COMPLETE (DecisionInfo (d_disposition result) (d_auto_closed result)) ctx)"
    using assms(1) f r enc st e by (simp add: dispose_def)
  then show ?thesis using store_decision_effect [OF st] e by (auto simp: decision_from_def)
qed

text \<open>What a run needs at its start for its last stage to find everything; each stage keeps it.\<close>

definition ready :: "'c screening_env \<Rightarrow> string \<Rightarrow> subject \<Rightarrow> 'c screening_db \<Rightarrow> bool" where
  "ready E rid person db = (\<exists>run. row_by sr_id rid (runs db) = Some run \<and>
     subject_pii E db (sr_subject run) = Some person \<and> records_known rid db \<and> rule_known rid db \<and>
     rules_complete db \<and> (\<forall>x \<in> set (decisions db). dec_run x \<noteq> rid))"

lemma ready_status: "ready E rid person db \<Longrightarrow> ready E rid person (update_stage_status (screening_ops rid) n st db)"
proof -
  assume r: "ready E rid person db"
  have "record_of_row (update_stage_status (screening_ops rid) n st db) = record_of_row db"
    by (rule record_of_row_cong) simp
  moreover have "subject_pii E (update_stage_status (screening_ops rid) n st db) sid = subject_pii E db sid" for sid
    by (rule subject_pii_cong) simp_all
  moreover have "run_candidates rid (update_stage_status (screening_ops rid) n st db) = run_candidates rid db"
    by (simp add: run_candidates_def)
  ultimately show ?thesis using r
    by (auto simp: ready_def records_known_def rule_known_def rules_complete_def status_update)
qed

lemma availability_candidates [simp]: "candidate_rows (update_availability rid cov db) = candidate_rows db"
  by (simp add: update_availability_def)

lemma index_ids: "name_keys L n \<inter> record_keys L rs rid \<noteq> {} \<Longrightarrow> rid \<in> fst ` set rs"
  by (force simp: record_keys_def split: if_splits)

lemma matched_known:
  "r \<in> fst ` set (matched L (build_index L rs) names) \<Longrightarrow> r \<in> fst ` set rs"
  by (auto simp: matched_def Let_def) (metis hits_shape index_ids)

lemma block_rows:
  assumes "block_candidates E rid db ctx = Some (db', ctx')"
  shows "\<exists>new. candidate_rows db' = candidate_rows db @ new \<and>
    (\<forall>c \<in> set new. c_run c = rid \<and> c_record c \<in> (rec_id \<circ> wr_record) ` set (watchlist db))"
proof -
  let ?db1 = "update_availability rid (list_coverage E db (current_snapshot_ids db)) db"
  have known: "r \<in> fst ` set (matched (lib E) (build_index (lib E) (index_input db ids)) names) \<Longrightarrow>
      r \<in> (rec_id \<circ> wr_record) ` set (watchlist db)" for r ids names
    by (drule matched_known) (auto simp: index_input_def)
  have input: "index_input ?db1 ids = index_input db ids" for ids
    by (simp add: index_input_def update_availability_def)
  have new: "\<forall>c \<in> set (map2 (\<lambda>i (rec, keys). \<lparr>c_id = i, c_run = rid, c_record = rec, c_keys = keys, c_score = None\<rparr>)
        is found). c_run c = rid \<and> c_record c \<in> fst ` set found" for "is" and found :: "(string \<times> string list) list"
    by (auto dest!: set_zip_rightD) (metis fst_conv image_eqI)
  show ?thesis
  proof (cases "current_snapshot_ids db = []")
    case True
    then have "candidate_rows db' = candidate_rows db"
      using assms by (auto simp: block_candidates_def Let_def split: bind_splits)
    then show ?thesis by simp
  next
    case False
    then obtain person where cand: "candidate_rows db' = candidate_rows (add_candidates E rid
        (matched (lib E) (build_index (lib E) (index_input db (current_snapshot_ids db))) (subject_names person)) ?db1)"
      using assms by (auto simp: block_candidates_def Let_def input split: bind_splits)
    show ?thesis unfolding cand using new known by (simp add: add_candidates_def) blast
  qed
qed

lemma record_of_row_defined:
  "record_of_row db c \<noteq> None \<longleftrightarrow> c_record c \<in> (rec_id \<circ> wr_record) ` set (watchlist db)"
  by (force simp: record_of_row_def find_None_iff)

lemma ready_block:
  assumes "ready E rid person db" and "block_candidates E rid db ctx = Some (db', ctx')"
  shows "ready E rid person db'"
proof -
  obtain run where run: "row_by sr_id rid (runs db) = Some run" using assms(1) by (auto simp: ready_def)
  note b = block_effect [OF assms(2) run]
  obtain new where new: "candidate_rows db' = candidate_rows db @ new"
    "\<forall>c \<in> set new. c_run c = rid \<and> c_record c \<in> (rec_id \<circ> wr_record) ` set (watchlist db)"
    using block_rows [OF assms(2)] by blast
  have "record_of_row db' = record_of_row db" using b by (intro record_of_row_cong) simp
  moreover have "subject_pii E db' sid = subject_pii E db sid" for sid using b by (intro subject_pii_cong) simp_all
  ultimately show ?thesis
    using assms(1) run b new record_of_row_defined [of db]
    by (auto simp: ready_def records_known_def run_candidates_def rule_known_def rules_complete_def)
qed

lemma ready_score:
  assumes "ready E rid person db" and "score_candidates E rid db ctx = Some (db', ctx')"
  shows "ready E rid person db'"
proof -
  obtain run where run: "row_by sr_id rid (runs db) = Some run" using assms(1) by (auto simp: ready_def)
  obtain rule where rule: "rule \<in> set (rule_rows db')"
    "row_by sr_id rid (runs db') = Some (run\<lparr>sr_rule := Some (rv_id rule)\<rparr>)"
    using score_effect(1) [OF assms(2) run] by blast
  note b = score_effect(2) [OF assms(2) run]
  have known: "rule_known rid db'"
    using rule by (auto simp: rule_known_def row_by_def find_None_iff)
  have complete: "rules_complete db'"
    using score_effect(3) [OF assms(2) run] assms(1) default_complete by (auto simp: ready_def rules_complete_def)
  have rows: "record_of_row db' = record_of_row db" using b by (intro record_of_row_cong) simp
  have "\<exists>c' \<in> set (run_candidates rid db). c_record c' = c_record c" if "c \<in> set (run_candidates rid db')" for c
  proof -
    have "map unscored (candidate_rows db) = map unscored (candidate_rows db')" using b by simp
    from unscored_member [OF this, of c] that show ?thesis by (auto simp: run_candidates_def unscored_def)
  qed
  then have "records_known rid db'"
    using assms(1) by (fastforce simp: ready_def records_known_def record_of_row_def rows)
  moreover have "subject_pii E db' sid = subject_pii E db sid" for sid using b by (intro subject_pii_cong) simp_all
  ultimately show ?thesis using assms(1) run rule(2) b known complete by (auto simp: ready_def)
qed

lemma ready_step:
  assumes "stage_step (screening_ops rid) s t (ctx, db) (ctx2, db2)" and "ready E rid person db"
    and "s = block_stage E rid \<or> s = score_stage E rid"
  shows "ready E rid person db2"
  using assms(1)
proof (cases rule: stage_stepE)
  case failed
  then show ?thesis using ready_status [OF assms(2)] by simp
next
  case (finished db')
  then have "execute s db ctx = Some (db', ctx2)" by (simp add: stage_done_def)
  then have "ready E rid person db'" using assms(2,3) ready_block ready_score by auto
  then show ?thesis unfolding finished(2) by (rule ready_status)
qed

lemma last_stage_decides:
  assumes "ready E rid person db" and "\<not> task_limit t" and "\<not> overran t"
    and "run_stages (screening_ops rid) [(dispose_stage E rid, t)] ctx db = (db', stopped)"
  shows "\<not> stopped \<and> (\<exists>d \<in> set (decisions db'). dec_run d = rid)"
proof -
  obtain db3 ctx3 d where e: "dispose E rid db ctx = Some (db3, ctx3)" "decisions db3 = decisions db @ [d]" "dec_run d = rid"
    using assms(1) dispose_defined [of rid db _ E person ctx] unfolding ready_def by blast
  have dn: "stage_done (dispose_stage E rid) t db ctx db3 ctx3" using assms(2,3) e(1) by (simp add: stage_done_def)
  from assms(4) show ?thesis unfolding run_stages_done [OF dn] using e(2,3) by auto
qed

lemma run_decided:
  assumes "ready E rid person db" and "length ts = 3" and "\<forall>t \<in> set ts. \<not> task_limit t" and "\<not> overran (ts ! 2)"
  shows "\<exists>d \<in> set (decisions (run_screening E rid ts start finish db)). dec_run d = rid"
proof -
  obtain t1 t2 t3 where ts: "ts = [t1, t2, t3]" using assms(2) by (auto simp: numeral_3_eq_3 length_Suc_conv)
  obtain run where run: "row_by sr_id rid (runs db) = Some run" using assms(1) by (auto simp: ready_def)
  let ?ops = "screening_ops rid :: 'a screening_db run_ops"
  let ?sts = "zip (screening_stages E rid) ts"
  define db0 where db0: "db0 = put_run ?ops ((sr_state run)\<lparr>run_status := ''running'', started_at := Some start,
     availability := fold (\<lambda>(s, _). AList.update (stage_name s) STAGE_PENDING) ?sts []\<rparr>) db"
  have sts: "?sts = [(block_stage E rid, t1), (score_stage E rid, t2), (dispose_stage E rid, t3)]"
    by (simp add: ts screening_stages_def)
  have "record_of_row db0 = record_of_row db" by (rule record_of_row_cong) (simp add: db0 put_run_ops)
  moreover have "subject_pii E db0 sid = subject_pii E db sid" for sid
    by (rule subject_pii_cong) (simp_all add: db0 put_run_ops)
  ultimately have r0: "ready E rid person db0" using assms(1) run
    by (auto simp: ready_def records_known_def run_candidates_def rule_known_def rules_complete_def db0
        put_run_ops row_by_update)
  obtain db4 stopped where rs: "run_stages ?ops ?sts [] db0 = (db4, stopped)" by fastforce
  obtain ctx1 db1 where s1: "stage_step ?ops (block_stage E rid) t1 ([], db0) (ctx1, db1)"
    and k1: "run_stages ?ops [(score_stage E rid, t2), (dispose_stage E rid, t3)] ctx1 db1 = (db4, stopped)"
    using run_stages_no_limit [OF rs [unfolded sts]] assms(3) ts by auto
  obtain ctx2 db2 where s2: "stage_step ?ops (score_stage E rid) t2 (ctx1, db1) (ctx2, db2)"
    and k2: "run_stages ?ops [(dispose_stage E rid, t3)] ctx2 db2 = (db4, stopped)"
    using run_stages_no_limit [OF k1] assms(3) ts by auto
  have "ready E rid person db2" using ready_step [OF s2 ready_step [OF s1 r0]] by simp
  from last_stage_decides [OF this _ _ k2] have d: "\<not> stopped \<and> (\<exists>d \<in> set (decisions db4). dec_run d = rid)"
    using assms(3,4) ts by simp
  then have "run_screening E rid ts start finish db
      = update_run ?ops (\<lambda>r. r\<lparr>run_status := ''complete'', finished_at := Some finish\<rparr>) db4"
    using rs run by (simp add: run_screening_def run_sync_def run_of_ops db0)
  then show ?thesis using d by simp
qed


section \<open>Every run ends\<close>

definition stage_names :: "string set" where
  "stage_names = {''block_candidates'', ''score_candidates'', ''dispose''}"

lemma distinct_coverage: "distinct (map fst av) \<Longrightarrow>
    distinct (map fst (fold (\<lambda>source. AList.update (''list:'' @ source) (f source)) srcs av))"
  by (induction srcs arbitrary: av) (simp_all add: distinct_update)

lemma coverage_entries: "n \<in> stage_names \<Longrightarrow>
    map_of (fold (\<lambda>(k, v). AList.update k v) (list_coverage E db ids) av) n = map_of av n"
  "map_of (fold (\<lambda>(k, v). AList.update k v) (list_coverage E db ids) av) k = Some STAGE_PENDING \<Longrightarrow>
    map_of av k = Some STAGE_PENDING"
proof -
  have fold: "map_of (fold (\<lambda>(k, v). AList.update k v) cov av) k
      = (case map_of (rev cov) k of None \<Rightarrow> map_of av k | Some v \<Rightarrow> Some v)" for cov av k
    by (induction cov arbitrary: av) (auto simp: update_conv' map_add_def split: option.splits)
  have dist: "distinct (map fst (list_coverage E db ids))"
    unfolding list_coverage_def Let_def
    using distinct_coverage [of "[]"] by simp
  have rev: "map_of (rev (list_coverage E db ids)) k = map_of (list_coverage E db ids) k" for k
    using dist map_of_inject_set [of "rev (list_coverage E db ids)" "list_coverage E db ids"]
    by (simp add: rev_map [symmetric])
  have cov: "v \<noteq> STAGE_PENDING \<and> k \<notin> stage_names" if "map_of (list_coverage E db ids) k = Some v" for k v
    using that pending_unavailable unfolding list_coverage_def Let_def list_coverage_entries
    by (auto simp: stage_names_def split: if_splits)
  show "map_of (fold (\<lambda>(k, v). AList.update k v) (list_coverage E db ids) av) n = map_of av n" if "n \<in> stage_names"
    using that cov [of n] unfolding fold rev by (auto split: option.splits)
  show "map_of av k = Some STAGE_PENDING"
    if "map_of (fold (\<lambda>(k, v). AList.update k v) (list_coverage E db ids) av) k = Some STAGE_PENDING"
    using that cov [of k] unfolding fold rev by (auto split: option.splits)
qed

lemma kept_coverage: "kept stage_names {} st
    (st\<lparr>availability := fold (\<lambda>(k, v). AList.update k v) (list_coverage E db ids) (availability st)\<rparr>)"
  using coverage_entries [where E = E and db = db and ids = ids and av = "availability st"]
  by (auto simp: kept_def)

lemma stages_leave_row:
  assumes "s = block_stage E rid \<or> s = score_stage E rid \<or> s = dispose_stage E rid"
  shows "screening_row.leaves_row rid stage_names s"
  unfolding screening_row.leaves_row_def
proof (intro allI impI)
  fix db ctx db' ctx' r
  assume g: "get_run (screening_ops rid) db = Some r" and e: "execute s db ctx = Some (db', ctx')"
  obtain run where run: "row_by sr_id rid (runs db) = Some run" "r = sr_state run"
    using g by (auto simp: run_of_ops)
  have "\<exists>run'. row_by sr_id rid (runs db') = Some run' \<and> kept stage_names {} r (sr_state run')"
    using assms
  proof (elim disjE)
    assume "s = block_stage E rid"
    then have "block_candidates E rid db ctx = Some (db', ctx')" using e by (simp add: block_stage_def)
    from block_effect [OF this run(1), THEN conjunct1] show ?thesis
      unfolding run(2) by (intro exI conjI) (assumption, simp add: kept_coverage)
  next
    assume "s = score_stage E rid"
    then have "score_candidates E rid db ctx = Some (db', ctx')" using e by (simp add: score_stage_def)
    from score_effect(1) [OF this run(1)] show ?thesis by (auto simp: run(2))
  next
    assume "s = dispose_stage E rid"
    then have "dispose E rid db ctx = Some (db', ctx')" using e by (simp add: dispose_stage_def)
    from dispose_effect [OF this run(1)] have "runs db' = runs db" .
    then show ?thesis using run by simp
  qed
  then show "\<exists>r'. get_run (screening_ops rid) db' = Some r' \<and> kept stage_names {} r r'"
    by (auto simp: run_of_ops)
qed

lemma run_row_settles:
  assumes "row_by sr_id rid (runs db) = Some run" and "length ts = 3"
  shows "\<exists>run'. row_by sr_id rid (runs (run_screening E rid ts start finish db)) = Some run' \<and>
    settled (zip (screening_stages E rid) ts) (sr_state run')"
proof -
  obtain t1 t2 t3 where ts: "ts = [t1, t2, t3]" using assms(2) by (auto simp: numeral_3_eq_3 length_Suc_conv)
  let ?sts = "zip (screening_stages E rid) ts"
  have names: "stage_name ` fst ` set ?sts = stage_names"
    by (simp add: ts screening_stages_def block_stage_def score_stage_def dispose_stage_def stage_names_def)
  have rows: "\<forall>p \<in> set ?sts. screening_row.leaves_row rid (stage_name ` fst ` set ?sts) (fst p)"
    unfolding names using stages_leave_row by (auto simp: ts screening_stages_def)
  have dist: "distinct (map (stage_name \<circ> fst) ?sts)"
    by (simp add: ts screening_stages_def block_stage_def score_stage_def dispose_stage_def)
  have get: "get_run (screening_ops rid) db = Some (sr_state run)" by (simp add: run_of_ops assms(1))
  from screening_row.run_sync_settles [OF rows dist get, of "\<lambda>d. d" start finish]
  show ?thesis by (auto simp: run_of_ops run_screening_def)
qed

text \<open>C10. Every screening run that starts ends: its row has the status complete or failed and no
  entry is pending, and when it is complete, each of the three stages is complete or unavailable,
  unavailable in any case when it was skipped, overran or raised.\<close>

theorem screening_run_settles:
  assumes "row_by sr_id rid (runs db) = Some run" and "length ts = 3"
  shows "\<exists>run'. row_by sr_id rid (runs (run_screening E rid ts start finish db)) = Some run' \<and>
    settled (zip (screening_stages E rid) ts) (sr_state run')"
  by (rule run_row_settles [OF assms])

section \<open>A small database\<close>

text \<open>One subject, listed by name in the only list that was ever fetched, and a second list that is
  required and missing.\<close>

type_synonym tagged = "string \<times> string \<times> string \<times> screening_payload plaintext"

definition sample_stored :: "tagged subject_row \<times> tagged key_row list" where
  "sample_stored = (case set_subject_pii tag_cipher sample_master sample_random (Pii sample_subject) sample_row [] of
     Inl _ \<Rightarrow> (sample_row, []) | Inr x \<Rightarrow> x)"

definition sample_env :: "tagged screening_env" where
  "sample_env = \<lparr>lib = plain_lib, cipher = tag_cipher, master_setting = sample_master,
     random = sample_random, uuid = (\<lambda>n. replicate n CHR ''x''), clock = 100,
     required_setting = Some ''ofac_sdn, eu_fsf'', max_list_age = 10\<rparr>"

definition sample_run :: screening_run where
  "sample_run = \<lparr>sr_id = ''run1'', sr_subject = ''s1'', sr_rule = None, sr_trigger = ''intake'',
     sr_snapshot = None, sr_prior = None, sr_created = 1,
     sr_state = \<lparr>run_status = ''pending'', started_at = None, finished_at = None,
       failure_reason = None, availability = []\<rparr>\<rparr>"

definition sample_watch :: watch_row where
  "sample_watch = \<lparr>wr_record = sample_record, wr_snapshot = ''n1'', wr_source = ''ofac_sdn'', wr_entry = ''77'',
     wr_primary = ''PETROV, Ivan'', wr_program = None\<rparr>"

definition sample_db :: "tagged screening_db" where
  "sample_db = \<lparr>snapshots = [\<lparr>snap_id = ''n1'', snap_source = ''ofac_sdn'', snap_retrieved_at = 95,
       snap_sha = ''ab'', snap_count = 1\<rparr>],
     watchlist = [sample_watch],
     subjects = [fst sample_stored], subject_keys = snd sample_stored, rule_rows = [],
     runs = [sample_run], candidate_rows = [], claims = [], term_rows = [], decisions = [], audit = [],
     next_id = 1\<rparr>"

definition on_time :: timing where
  "on_time = \<lparr>spent = False, overran = False, task_limit = False\<rparr>"

lemma sample_tables [simp]:
  "row_by sr_id ''run1'' (runs sample_db) = Some sample_run" "decisions sample_db = []" "rule_rows sample_db = []"
  "run_candidates rid sample_db = []"
  "watchlist sample_db = [sample_watch]"
  by (simp_all add: sample_db_def row_by_def sample_run_def run_candidates_def)

lemma sample_readable: "subject_pii sample_env sample_db ''s1'' = Some sample_subject"
proof -
  obtain s' rows' where w: "set_subject_pii tag_cipher sample_master sample_random (Pii sample_subject) sample_row []
      = Inr (s', rows')" "s_id s' = ''s1''" "get_subject_pii tag_cipher sample_master s' rows' = Inr (Pii sample_subject)"
    using sample_set_pii [of "Pii sample_subject"] by blast
  then show ?thesis
    by (simp add: subject_pii_def sample_db_def sample_stored_def row_by_def sample_env_def as_pii_def)
qed

lemma sample_ready: "ready sample_env ''run1'' sample_subject sample_db"
  using sample_readable
  by (simp add: ready_def records_known_def rule_known_def rules_complete_def sample_run_def)

lemma sample_snapshot: "current_snapshot_ids sample_db = [''n1'']"
  unfolding sample_db_def sample_watch_def by code_simp

abbreviation sample_final :: "tagged screening_db" where
  "sample_final \<equiv> run_screening sample_env ''run1'' [on_time, on_time, on_time] 1 2 sample_db"

lemma sample_decided: "\<exists>d \<in> set (decisions sample_final). dec_run d = ''run1''"
  by (rule run_decided [OF sample_ready]) (simp_all add: on_time_def)


lemma screening_run_settles_witness:
  "\<exists>run'. row_by sr_id ''run1'' (runs sample_final) = Some run' \<and>
     settled (zip (screening_stages sample_env ''run1'') [on_time, on_time, on_time]) (sr_state run')"
  by (rule screening_run_settles [OF sample_tables(1)]) simp

lemma sample_required: "''eu_fsf'' \<in> set (required_sources (required_setting sample_env))"
  unfolding sample_env_def screening_env.simps by code_simp

lemma clear_needs_coverage_witness:
  "\<exists>d \<in> set (decisions sample_final). dec_run d = ''run1'' \<and> dec_disposition d \<in> {REVIEW, MATCH}"
proof -
  obtain d where d: "d \<in> set (decisions sample_final)" "dec_run d = ''run1''" using sample_decided by blast
  have none: "\<forall>x \<in> set (decisions sample_db). dec_run x \<noteq> ''run1''" by simp
  have missing: "snap_source s \<noteq> ''eu_fsf''" if "s \<in> set (snapshots sample_db)" for s
    using that by (simp add: sample_db_def)
  have "dec_disposition d \<in> {REVIEW, MATCH}"
    using clear_needs_coverage [OF sample_tables(1) none d, of] sample_required missing by auto
  then show ?thesis using d by blast
qed

lemma sample_listed_tokens: "tokens plain_lib (Some ''Ivan Petrov'') = [''ivan'', ''petrov'']"
  by code_simp

lemma listed_name_not_cleared_witness:
  "\<exists>d \<in> set (decisions sample_final). dec_run d = ''run1'' \<and> (dec_disposition d \<in> {REVIEW, MATCH} \<or>
     (\<exists>c \<in> set (dec_terms d). r_record_id c = ''r1'' \<and> name_exact_normalized \<in> p_name ` set (r_terms c)))"
proof -
  obtain d where d: "d \<in> set (decisions sample_final)" "dec_run d = ''run1''" using sample_decided by blast
  have none: "\<forall>x \<in> set (decisions sample_db). dec_run x \<noteq> ''run1''"
    and rules: "\<forall>r \<in> set (rule_rows sample_db). rv_config r = DEFAULT_RULE" by simp_all
  have entry: "sample_watch \<in> set (watchlist sample_db)" by simp
  have uniq: "distinct (map (rec_id \<circ> wr_record) (watchlist sample_db))" by simp
  have person: "subject_pii sample_env sample_db (sr_subject sample_run) = Some sample_subject"
    using sample_readable by (simp add: sample_run_def)
  have name: "subj_name sample_subject = Some ''Ivan Petrov''" by (simp add: sample_subject_def)
  have snap: "wr_snapshot sample_watch \<in> set (current_snapshot_ids sample_db)" by (simp add: sample_snapshot sample_watch_def)
  have rec_name: "''Ivan Petrov'' \<in> set (rec_names (wr_record sample_watch))" by (simp add: sample_record_def sample_watch_def)
  have tok: "''petrov'' \<in> set (tokens (lib sample_env) (Some ''Ivan Petrov''))"
    by (simp add: sample_env_def sample_listed_tokens)
  have three: "length [on_time, on_time, on_time] = 3" and long: "2 \<le> length ''petrov''" by simp_all
  have r1: "rec_id (wr_record sample_watch) = ''r1''" by (simp add: sample_rec_ids sample_watch_def)
  from listed_name_not_cleared [OF sample_tables(1) none d three rules uniq person name entry snap rec_name refl tok long]
  have "dec_disposition d \<in> {REVIEW, MATCH} \<or> (\<exists>c \<in> set (dec_terms d). r_record_id c = ''r1''
      \<and> name_exact_normalized \<in> p_name ` set (r_terms c))" unfolding r1 by blast
  with d show ?thesis by blast
qed

end
