(* ===== verification/Replay.thy ===== *)
theory Replay
  imports Screening_Live
begin

text \<open>
  \<open>app/screening/replay.py\<close>: a stored decision is recomputed from its frozen inputs and compared
  with what was stored. None is an exception other than the one that reports a shredded subject.
\<close>

record replay_view =
  v_disposition :: disposition
  v_auto_closed :: bool
  v_candidates :: "(string \<times> rat \<times> disposition) list"

definition candidate_view :: "candidate_result \<Rightarrow> string \<times> rat \<times> disposition" where
  "candidate_view c = (r_candidate_id c, r_score c, r_band c)"

definition original_view :: "'c decision_row \<Rightarrow> replay_view" where
  "original_view d = \<lparr>v_disposition = dec_disposition d, v_auto_closed = dec_auto_closed d,
     v_candidates = map candidate_view (dec_terms d)\<rparr>"

definition replayed_view :: "decision_result \<Rightarrow> replay_view" where
  "replayed_view r = \<lparr>v_disposition = d_disposition r, v_auto_closed = d_auto_closed r,
     v_candidates = map candidate_view (d_candidates r)\<rparr>"

datatype difference =
    Disposition_differs disposition disposition
  | Closing_differs bool bool
  | Candidate_differs string "(rat \<times> disposition) option" "(rat \<times> disposition) option"
  | Score_differs string rat rat
  | Band_differs string disposition disposition

definition compare_candidate :: "(string \<Rightarrow> (rat \<times> disposition) option) \<Rightarrow> (string \<Rightarrow> (rat \<times> disposition) option)
    \<Rightarrow> string \<Rightarrow> difference list" where
  "compare_candidate earlier later cid = (case (earlier cid, later cid) of
       (Some (s, b), Some (s', b')) \<Rightarrow>
         (if s \<noteq> s' then [Score_differs cid s s'] else []) @ (if b \<noteq> b' then [Band_differs cid b b'] else [])
     | (a, b) \<Rightarrow> [Candidate_differs cid a b])"

definition compare_results :: "replay_view \<Rightarrow> replay_view \<Rightarrow> difference list" where
  "compare_results original replayed =
    (let earlier = map_of (rev (v_candidates original)); later = map_of (rev (v_candidates replayed))
     in (if v_disposition original \<noteq> v_disposition replayed
         then [Disposition_differs (v_disposition original) (v_disposition replayed)] else [])
      @ (if v_auto_closed original \<noteq> v_auto_closed replayed
         then [Closing_differs (v_auto_closed original) (v_auto_closed replayed)] else [])
      @ concat (map (compare_candidate earlier later)
          (sort (remdups (map fst (v_candidates original) @ map fst (v_candidates replayed))))))"

record replay_report =
  reproduced :: "bool option"
  shredded :: bool
  original :: replay_view
  replayed :: "replay_view option"
  differences :: "difference list"

definition replay_decision :: "'c screening_env \<Rightarrow> 'c screening_db \<Rightarrow> 'c decision_row \<Rightarrow> replay_report option" where
  "replay_decision E db d = do {
     run \<leftarrow> row_by sr_id (dec_run d) (runs db);
     (case decrypt_for_subject (cipher E) (master_setting E) ''data'' (sr_subject run) (dec_frozen d) (subject_keys db) of
        Inl SubjectShredded \<Rightarrow>
          Some \<lparr>reproduced = None, shredded = True, original = original_view d, replayed = None, differences = []\<rparr>
      | Inr (Frozen b) \<Rightarrow> do {
          result \<leftarrow> decide (lib E) b;
          let diffs = compare_results (original_view d) (replayed_view result);
          Some \<lparr>reproduced = Some (diffs = []), shredded = False, original = original_view d,
                replayed = Some (replayed_view result), differences = diffs\<rparr>
        }
      | _ \<Rightarrow> None)
   }"

section \<open>What a comparison tells\<close>

lemma compare_candidate_same: "compare_candidate m m cid = [] \<longleftrightarrow> m cid \<noteq> None"
  by (cases "m cid") (auto simp: compare_candidate_def)

lemma compare_candidate_Nil: "compare_candidate m m' cid = [] \<Longrightarrow> m cid = m' cid"
  by (cases "m cid"; cases "m' cid") (auto simp: compare_candidate_def split: if_splits)

lemma map_of_rev_dom: "map_of (rev xs) k \<noteq> None \<longleftrightarrow> k \<in> fst ` set xs"
  using map_of_eq_None_iff [of "rev xs" k] by auto

text \<open>A replay comparison is exact: it reports nothing exactly when disposition and closing agree and
  every candidate has the same score and band on both sides.\<close>

theorem comparison_is_exact:
  "compare_results a b = [] \<longleftrightarrow> v_disposition a = v_disposition b \<and> v_auto_closed a = v_auto_closed b \<and>
     map_of (rev (v_candidates a)) = map_of (rev (v_candidates b))"
proof
  let ?m = "map_of (rev (v_candidates a))" and ?m' = "map_of (rev (v_candidates b))"
  assume nil: "compare_results a b = []"
  have "?m k = ?m' k" for k
  proof (cases "k \<in> fst ` set (v_candidates a) \<union> fst ` set (v_candidates b)")
    case True
    then have "compare_candidate ?m ?m' k = []"
      using nil by (auto simp: compare_results_def Let_def split: if_splits)
    then show ?thesis by (rule compare_candidate_Nil)
  next
    case False
    then have "?m k = None" "?m' k = None"
      using map_of_rev_dom [of "v_candidates a" k] map_of_rev_dom [of "v_candidates b" k] by blast+
    then show ?thesis by simp
  qed
  then show "v_disposition a = v_disposition b \<and> v_auto_closed a = v_auto_closed b \<and> ?m = ?m'"
    using nil by (auto simp: compare_results_def Let_def split: if_splits)
next
  assume same: "v_disposition a = v_disposition b \<and> v_auto_closed a = v_auto_closed b \<and>
     map_of (rev (v_candidates a)) = map_of (rev (v_candidates b))"
  let ?m = "map_of (rev (v_candidates a))"
  have "compare_candidate ?m ?m k = []" if "k \<in> fst ` set (v_candidates a) \<union> fst ` set (v_candidates b)" for k
    unfolding compare_candidate_same using that same map_of_rev_dom [of "v_candidates a" k]
      map_of_rev_dom [of "v_candidates b" k] by auto
  then show "compare_results a b = []" using same by (auto simp: compare_results_def Let_def)
qed

lemma compare_same: "compare_results a a = []"
proof -
  have "compare_candidate (map_of (rev (v_candidates a))) (map_of (rev (v_candidates a))) k = []"
    if "k \<in> fst ` set (v_candidates a)" for k
    unfolding compare_candidate_same map_of_rev_dom using that .
  then show ?thesis by (auto simp: compare_results_def Let_def)
qed

section \<open>Replaying a decision\<close>

text \<open>C15. Decisions replay: whatever happened since to the lists, the rules and every other table, a
  decision written by the last stage is reproduced from its frozen inputs without a difference
  while its subject's key row is unchanged, and once that key is destroyed the replay reports the
  shredding and nothing else.\<close>

theorem decision_replays:
  assumes "authentic (cipher E)" and "dispose E rid db ctx = Some (db', ctx')"
    and "row_by sr_id rid (runs db) = Some run"
    and "d \<in> set (decisions db')" and "dec_run d = rid"
    and "row_by sr_id rid (runs later) = Some run'" and "sr_subject run' = sr_subject run"
  shows "(find_key (sr_subject run) (subject_keys later) = find_key (sr_subject run) (subject_keys db') \<longrightarrow>
      (\<exists>r. replay_decision E later d = Some r \<and> reproduced r = Some True \<and> differences r = []))
    \<and> (destroyed (subject_keys later) (sr_subject run) \<longrightarrow>
      (\<exists>r. replay_decision E later d = Some r \<and> reproduced r = None \<and> shredded r \<and> replayed r = None))"
proof -
  obtain rule b result d' where b: "decide (lib E) b = Some result" "decision_from rid rule result d'"
    "decisions db' = decisions db @ [d']" "\<forall>x \<in> set (decisions db). dec_run x \<noteq> rid"
    and e: "encrypt_for_subject (cipher E) (master_setting E) (random E) ''data'' (sr_subject run)
      (Frozen b) (subject_keys db) = Inr (subject_keys db', dec_frozen d')"
    using dispose_effect [OF assms(2,3)] by metis
  have d: "d = d'" using assms(4,5) b(3,4) by auto
  have view: "original_view d = replayed_view result"
    using b(2) by (simp add: d decision_from_def original_view_def replayed_view_def)
  note dec = encrypt_decrypt [OF assms(1) e]
  have run: "row_by sr_id (dec_run d) (runs later) = Some run'" using assms(5,6) by simp
  show ?thesis
  proof (intro conjI impI)
    assume same: "find_key (sr_subject run) (subject_keys later) = find_key (sr_subject run) (subject_keys db')"
    have "decrypt_for_subject (cipher E) (master_setting E) ''data'' (sr_subject run) (dec_frozen d) (subject_keys later)
        = Inr (Frozen b)"
      using dec by (simp add: d decrypt_cong [OF same])
    then show "\<exists>r. replay_decision E later d = Some r \<and> reproduced r = Some True \<and> differences r = []"
      by (simp add: replay_decision_def run assms(7) b(1) view compare_same)
  next
    assume gone: "destroyed (subject_keys later) (sr_subject run)"
    show "\<exists>r. replay_decision E later d = Some r \<and> reproduced r = None \<and> shredded r \<and> replayed r = None"
      by (simp add: replay_decision_def run assms(7) decrypt_destroyed [OF gone])
  qed
qed

lemma sample_disposed: "\<exists>db' ctx' d. dispose sample_env ''run1'' sample_db [] = Some (db', ctx')
    \<and> d \<in> set (decisions db') \<and> dec_run d = ''run1'' \<and> runs db' = runs sample_db"
proof -
  have s1: "subject_pii sample_env sample_db (sr_subject sample_run) = Some sample_subject"
    using sample_readable by (simp add: sample_run_def)
  have "records_known ''run1'' sample_db" "rule_known ''run1'' sample_db" "rules_complete sample_db"
    by (simp_all add: records_known_def rule_known_def rules_complete_def sample_run_def)
  from dispose_defined [OF sample_tables(1) s1 this, of "[]"]
  obtain db' ctx' d where d: "dispose sample_env ''run1'' sample_db [] = Some (db', ctx')"
    "decisions db' = decisions sample_db @ [d]" "dec_run d = ''run1''"
    by auto
  moreover have "runs db' = runs sample_db" using dispose_effect [OF d(1) sample_tables(1)] .
  ultimately show ?thesis by auto
qed

lemma decision_replays_witness:
  "\<exists>db' ctx' d r. dispose sample_env ''run1'' sample_db [] = Some (db', ctx') \<and> d \<in> set (decisions db')
     \<and> replay_decision sample_env (db'\<lparr>watchlist := []\<rparr>) d = Some r \<and> reproduced r = Some True"
proof -
  obtain db' ctx' d where d: "dispose sample_env ''run1'' sample_db [] = Some (db', ctx')"
    "d \<in> set (decisions db')" "dec_run d = ''run1''" "runs db' = runs sample_db"
    using sample_disposed by blast
  have auth: "authentic (cipher sample_env)" using tag_cipher_authentic by (simp add: sample_env_def)
  have run: "row_by sr_id ''run1'' (runs (db'\<lparr>watchlist := []\<rparr>)) = Some sample_run"
    using d(4) by simp
  have keys: "find_key (sr_subject sample_run) (subject_keys (db'\<lparr>watchlist := []\<rparr>))
      = find_key (sr_subject sample_run) (subject_keys db')" by simp
  from decision_replays [OF auth d(1) sample_tables(1) d(2,3) run refl] keys
  obtain r where "replay_decision sample_env (db'\<lparr>watchlist := []\<rparr>) d = Some r" "reproduced r = Some True"
    by blast
  with d show ?thesis by blast
qed

end
