(* ===== verification/Monitoring.thy ===== *)
theory Monitoring
  imports Screening_Live
begin

text \<open>
  Continuous monitoring: \<open>app/lists/delta.py\<close>, \<open>app/screening/monitor.py\<close>, the ingest of a list
  (\<open>ingest_source\<close> of \<open>app/lists/ingest.py\<close>) and the process-wide index cache. The fetched text and
  its parsed records are inputs; a digest function stands for SHA-256.
\<close>

section \<open>The difference between two snapshots\<close>

record snapshot_delta =
  added_entry_ids :: "string list"
  changed_entry_ids :: "string list"
  removed_entry_ids :: "string list"
  new_records :: "watch_row list"

definition by_entry :: "'c screening_db \<Rightarrow> string option \<Rightarrow> string \<Rightarrow> watch_row option" where
  "by_entry db snap = (case snap of None \<Rightarrow> (\<lambda>_. None)
     | Some sid \<Rightarrow> map_of (rev (map (\<lambda>w. (wr_entry w, w)) (filter (\<lambda>w. wr_snapshot w = sid) (watchlist db)))))"

definition entry_ids :: "'c screening_db \<Rightarrow> string option \<Rightarrow> string list" where
  "entry_ids db snap = (case snap of None \<Rightarrow> []
     | Some sid \<Rightarrow> sort (remdups (map wr_entry (filter (\<lambda>w. wr_snapshot w = sid) (watchlist db)))))"

definition compared :: "watch_row \<Rightarrow> string list \<times> dob list \<times> string list \<times> string list \<times> document list" where
  "compared w = (rec_names (wr_record w), rec_dobs (wr_record w), rec_pobs (wr_record w),
     rec_nationalities (wr_record w), rec_documents (wr_record w))"

definition diff_snapshots :: "'c screening_db \<Rightarrow> string option \<Rightarrow> string \<Rightarrow> snapshot_delta" where
  "diff_snapshots db old_id new_id =
    (let old = by_entry db old_id; new = by_entry db (Some new_id); ids = entry_ids db (Some new_id);
         is_added = (\<lambda>e. old e = None);
         is_changed = (\<lambda>e. old e \<noteq> None \<and> map_option compared (new e) \<noteq> map_option compared (old e))
     in \<lparr>added_entry_ids = filter is_added ids, changed_entry_ids = filter is_changed ids,
         removed_entry_ids = filter (\<lambda>e. new e = None) (entry_ids db old_id),
         new_records = List.map_filter new (filter (\<lambda>e. is_added e \<or> is_changed e) ids)\<rparr>)"

lemma by_entry_Some: "by_entry db (Some sid) e = Some w \<Longrightarrow> w \<in> set (watchlist db) \<and> wr_snapshot w = sid \<and> wr_entry w = e"
  by (auto simp: by_entry_def dest!: map_of_rev_in_set)

lemma by_entry_None: "by_entry db snap e = None \<longleftrightarrow> e \<notin> set (entry_ids db snap)"
proof (cases snap)
  case (Some sid)
  have "map_of (rev xs) k = None \<longleftrightarrow> k \<notin> fst ` set xs" for xs :: "(string \<times> watch_row) list" and k
    using map_of_eq_None_iff [of "rev xs" k] by simp
  then show ?thesis by (auto simp: Some by_entry_def entry_ids_def image_image)
qed (simp add: by_entry_def entry_ids_def)

lemma by_entry_ex: "(\<exists>w. by_entry db snap e = Some w) \<longleftrightarrow> e \<in> set (entry_ids db snap)"
  using by_entry_None [of db snap e] by auto

text \<open>The delta of two snapshots is exact: an entry is added when only the new snapshot has it, removed
  when only the old one has it, and changed when both have it with different compared attributes;
  the records to screen are exactly the new snapshot's records of added and changed entries.\<close>

theorem delta_is_exact:
  "(let d = diff_snapshots db old_id new_id; old = set (entry_ids db old_id); new = set (entry_ids db (Some new_id))
    in set (added_entry_ids d) = new - old \<and> set (removed_entry_ids d) = old - new \<and>
      set (changed_entry_ids d) = {e \<in> new \<inter> old. map_option compared (by_entry db (Some new_id) e)
        \<noteq> map_option compared (by_entry db old_id e)} \<and>
      Some ` set (new_records d) = by_entry db (Some new_id) ` (set (added_entry_ids d) \<union> set (changed_entry_ids d)))"
proof -
  let ?d = "diff_snapshots db old_id new_id" and ?new = "by_entry db (Some new_id)"
  have defined: "?new e \<noteq> None" if "e \<in> set (entry_ids db (Some new_id))" for e
    using that by_entry_None [of db "Some new_id" e] by blast
  have parts: "set (filter (\<lambda>e. P e \<or> Q e) xs) = set (filter P xs) \<union> set (filter Q xs)" for P Q and xs :: "string list"
    by auto
  have mf: "Some ` set (List.map_filter f xs) = f ` set xs" if "\<forall>x \<in> set xs. f x \<noteq> None" for f :: "string \<Rightarrow> watch_row option" and xs
    using that by (force simp: map_filter_def image_image)
  have "Some ` set (new_records ?d) = ?new ` (set (added_entry_ids ?d) \<union> set (changed_entry_ids ?d))"
    unfolding diff_snapshots_def Let_def snapshot_delta.simps parts [symmetric]
    by (rule mf) (use defined in auto)
  moreover have "set (added_entry_ids ?d) = set (entry_ids db (Some new_id)) - set (entry_ids db old_id)"
    "set (removed_entry_ids ?d) = set (entry_ids db old_id) - set (entry_ids db (Some new_id))"
    "set (changed_entry_ids ?d) = {e \<in> set (entry_ids db (Some new_id)) \<inter> set (entry_ids db old_id).
       map_option compared (by_entry db (Some new_id) e) \<noteq> map_option compared (by_entry db old_id e)}"
    by (auto simp: diff_snapshots_def Let_def by_entry_None by_entry_ex)
  ultimately show ?thesis unfolding Let_def by (intro conjI)
qed

section \<open>Rescreening\<close>

definition latest_before :: "'c screening_db \<Rightarrow> list_snapshot \<Rightarrow> string option" where
  \<comment> \<open>\<open>_previous_snapshot_id\<close>: the newest earlier snapshot of the same source\<close>
  "latest_before db snap =
    (case filter (\<lambda>s. snap_source s = snap_source snap \<and> snap_retrieved_at s < snap_retrieved_at snap) (snapshots db) of
       [] \<Rightarrow> None
     | s # ss \<Rightarrow> Some (snap_id (fold (\<lambda>x best. if snap_retrieved_at best < snap_retrieved_at x then x else best) ss s)))"

definition latest_run :: "'c screening_db \<Rightarrow> string \<Rightarrow> screening_run option" where
  "latest_run db sid = (case filter (\<lambda>r. sr_subject r = sid) (runs db) of
       [] \<Rightarrow> None
     | r # rs \<Rightarrow> Some (fold (\<lambda>x best. if (sr_created best, sr_id best) < (sr_created x, sr_id x) then x else best) rs r))"

definition monitored :: "'c subject_row \<Rightarrow> bool" where
  "monitored s = (shredded_at s = None \<and> relationship_ended_at s = None)"

definition new_run :: "'c screening_env \<Rightarrow> string \<Rightarrow> string \<Rightarrow> 'c screening_db \<Rightarrow> screening_run" where
  "new_run E snp sid db = \<lparr>sr_id = uuid E (next_id db), sr_subject = sid, sr_rule = None,
     sr_trigger = ''monitoring'', sr_snapshot = Some snp, sr_prior = map_option sr_id (latest_run db sid),
     sr_created = clock E,
     sr_state = \<lparr>run_status = ''pending'', started_at = None, finished_at = None, failure_reason = None,
       availability = []\<rparr>\<rparr>"

definition hit_by :: "textlib \<Rightarrow> blocking_index \<Rightarrow> subject \<Rightarrow> bool" where
  "hit_by L ix person = list_ex (\<lambda>n. candidates L ix (Some n) DEFAULT_CAP \<noteq> []) (subject_names person)"

definition rescreen_subject :: "'c screening_env \<Rightarrow> string \<Rightarrow> blocking_index \<Rightarrow> 'c subject_row
    \<Rightarrow> 'c screening_db \<times> string list \<Rightarrow> ('c screening_db \<times> string list) option" where
  \<comment> \<open>one turn of the loop: a shredded or unreadable subject is skipped, a missing master key raises\<close>
  "rescreen_subject E snp ix s state = (case state of (db, created) \<Rightarrow>
     (case get_subject_pii (cipher E) (master_setting E) s (subject_keys db) of
        Inl CryptoNotConfigured \<Rightarrow> None
      | Inl _ \<Rightarrow> Some (db, created)
      | Inr (Frozen _) \<Rightarrow> None
      | Inr (Pii person) \<Rightarrow>
          if \<not> hit_by (lib E) ix person then Some (db, created)
          else let r = new_run E snp (s_id s) db
            in Some (db\<lparr>runs := runs db @ [r], next_id := Suc (next_id db)\<rparr>, created @ [sr_id r])))"

fun rescreen_all :: "'c screening_env \<Rightarrow> string \<Rightarrow> blocking_index \<Rightarrow> 'c subject_row list
    \<Rightarrow> 'c screening_db \<times> string list \<Rightarrow> ('c screening_db \<times> string list) option" where
  "rescreen_all E snp ix [] state = Some state"
| "rescreen_all E snp ix (s # ss) state =
     do { state' \<leftarrow> rescreen_subject E snp ix s state; rescreen_all E snp ix ss state' }"

definition rescreen_for_snapshot :: "'c screening_env \<Rightarrow> string \<Rightarrow> 'c screening_db \<Rightarrow> ('c screening_db \<times> string list) option" where
  "rescreen_for_snapshot E sid db = do {
     snap \<leftarrow> row_by snap_id sid (snapshots db);
     let delta = diff_snapshots db (latest_before db snap) sid;
     let ix = build_index (lib E) (map (\<lambda>w. (rec_id (wr_record w), rec_names (wr_record w))) (new_records delta));
     (db1, created) \<leftarrow> (if new_records delta = [] then Some (db, [])
        else rescreen_all E sid ix (filter monitored (subjects db)) (db, []));
     Some (db1\<lparr>audit := audit db1 @ [MonitoringRescreen sid (snap_source snap) (length (added_entry_ids delta))
          (length (changed_entry_ids delta)) (length (removed_entry_ids delta)) (length created)]\<rparr>, created)
   }"

section \<open>Ingesting a list\<close>

datatype ingest_result = FetchFailed | Unchanged string | ParseFailed | Ingested string nat

definition newest_snapshot :: "'c screening_db \<Rightarrow> string \<Rightarrow> list_snapshot option" where
  "newest_snapshot db src = (case filter (\<lambda>s. snap_source s = src) (snapshots db) of
       [] \<Rightarrow> None
     | s # ss \<Rightarrow> Some (fold (\<lambda>x best. if snap_retrieved_at best < snap_retrieved_at x then x else best) ss s))"

definition store_records :: "'c screening_env \<Rightarrow> list_snapshot \<Rightarrow> (string \<Rightarrow> watch_row) list \<Rightarrow> 'c screening_db \<Rightarrow> 'c screening_db" where
  \<comment> \<open>a parsed person becomes a row once it is given an identifier\<close>
  "store_records E snap persons db = db\<lparr>watchlist := watchlist db @
       map2 (\<lambda>i p. (p i)\<lparr>wr_snapshot := snap_id snap\<rparr>)
         (new_ids E db (length persons)) persons,
     next_id := next_id db + length persons\<rparr>"

definition record_snapshot :: "'c screening_env \<Rightarrow> string \<Rightarrow> string \<Rightarrow> nat \<Rightarrow> 'c screening_db \<Rightarrow> list_snapshot \<times> 'c screening_db" where
  "record_snapshot E src digest n db =
    (let snap = \<lparr>snap_id = uuid E (next_id db), snap_source = src, snap_retrieved_at = clock E,
                 snap_sha = digest, snap_count = int n\<rparr>
     in (snap, db\<lparr>snapshots := snapshots db @ [snap], next_id := Suc (next_id db)\<rparr>))"

definition ingest_records :: "'c screening_env \<Rightarrow> (string \<Rightarrow> string) \<Rightarrow> (string \<Rightarrow> 'c screening_db \<Rightarrow> 'c screening_db option)
    \<Rightarrow> string \<Rightarrow> string \<Rightarrow> (string \<Rightarrow> watch_row) list option \<Rightarrow> 'c screening_db
    \<Rightarrow> (ingest_result \<times> 'c screening_db) option" where
  "ingest_records E digest on_new src text persons db = (case persons of
       None \<Rightarrow> Some (ParseFailed, db)
     | Some ps \<Rightarrow> do {
         let (snap, db1) = record_snapshot E src (digest text) (length ps) db;
         db2 \<leftarrow> on_new (snap_id snap) (store_records E snap ps db1);
         Some (Ingested (snap_id snap) (length ps), db2)
       })"

definition ingest_source :: "'c screening_env \<Rightarrow> (string \<Rightarrow> string) \<Rightarrow> (string \<Rightarrow> (string \<Rightarrow> watch_row) list option)
    \<Rightarrow> (string \<Rightarrow> 'c screening_db \<Rightarrow> 'c screening_db option) \<Rightarrow> string \<Rightarrow> string option \<Rightarrow> 'c screening_db
    \<Rightarrow> (ingest_result \<times> 'c screening_db) option" where
  \<comment> \<open>the outer None is an exception of the callback\<close>
  "ingest_source E digest parse on_new src fetched db = (case fetched of
       None \<Rightarrow> Some (FetchFailed, db)
     | Some text \<Rightarrow>
         (case (newest_snapshot db src, parse text) of
            (Some s, persons) \<Rightarrow>
              if snap_sha s = digest text then Some (Unchanged (snap_id s), db)
              else ingest_records E digest on_new src text persons db
          | (None, persons) \<Rightarrow> ingest_records E digest on_new src text persons db))"

section \<open>What is rescreened\<close>

lemma rescreen_all_append: "rescreen_all E sid ix (xs @ ys) st = rescreen_all E sid ix xs st \<bind> rescreen_all E sid ix ys"
  by (induction xs arbitrary: st) (auto split: bind_splits)

text \<open>What a run of the loop keeps: the tables it reads and the runs and identifiers already there.\<close>

lemma rescreen_subject_keeps:
  assumes "rescreen_subject E sid ix s (db, created) = Some (db', created')"
  shows "subjects db' = subjects db \<and> subject_keys db' = subject_keys db \<and>
    (\<exists>new. runs db' = runs db @ new \<and> created' = created @ map sr_id new \<and>
      (\<forall>r \<in> set new. sr_subject r = s_id s \<and> sr_trigger r = ''monitoring'' \<and> sr_snapshot r = Some sid
         \<and> run_status (sr_state r) = ''pending''))"
  using assms by (auto simp: rescreen_subject_def new_run_def Let_def split: sum.splits crypto_error.splits
      screening_payload.splits if_splits)

lemma rescreen_all_keeps:
  assumes "rescreen_all E sid ix ss (db, created) = Some (db', created')"
  shows "subjects db' = subjects db \<and> subject_keys db' = subject_keys db \<and>
    (\<exists>new. runs db' = runs db @ new \<and> created' = created @ map sr_id new \<and>
      (\<forall>r \<in> set new. sr_subject r \<in> s_id ` set ss \<and> sr_trigger r = ''monitoring'' \<and> sr_snapshot r = Some sid
         \<and> run_status (sr_state r) = ''pending''))"
  using assms
proof (induction ss arbitrary: db created)
  case (Cons s ss)
  obtain db1 created1 where one: "rescreen_subject E sid ix s (db, created) = Some (db1, created1)"
    and rest: "rescreen_all E sid ix ss (db1, created1) = Some (db', created')"
    using Cons.prems by (auto split: bind_splits)
  obtain new1 where n1: "runs db1 = runs db @ new1" "created1 = created @ map sr_id new1"
    "\<forall>r \<in> set new1. sr_subject r = s_id s \<and> sr_trigger r = ''monitoring'' \<and> sr_snapshot r = Some sid
       \<and> run_status (sr_state r) = ''pending''"
    using rescreen_subject_keeps [OF one] by blast
  obtain new2 where n2: "runs db' = runs db1 @ new2" "created' = created1 @ map sr_id new2"
    "\<forall>r \<in> set new2. sr_subject r \<in> s_id ` set ss \<and> sr_trigger r = ''monitoring'' \<and> sr_snapshot r = Some sid
       \<and> run_status (sr_state r) = ''pending''"
    using Cons.IH [OF rest] by blast
  have "runs db' = runs db @ (new1 @ new2)" "created' = created @ map sr_id (new1 @ new2)"
    using n1 n2 by simp_all
  then show ?case using rescreen_subject_keeps [OF one] Cons.IH [OF rest] n1(3) n2(3)
    by (intro conjI exI [of _ "new1 @ new2"]) auto
qed simp

lemma rescreen_subject_hit:
  assumes "rescreen_subject E sid ix s (db, created) = Some (db', created')"
    and "get_subject_pii (cipher E) (master_setting E) s (subject_keys db) = Inr (Pii person)"
    and "hit_by (lib E) ix person"
  shows "\<exists>r. runs db' = runs db @ [r] \<and> sr_subject r = s_id s"
  using assms by (auto simp: rescreen_subject_def new_run_def Let_def)

lemma rescreen_all_created:
  assumes "rescreen_all E sid ix ss (db, created) = Some (db', created')" and "s \<in> set ss"
    and "get_subject_pii (cipher E) (master_setting E) s (subject_keys db) = Inr (Pii person)"
    and "hit_by (lib E) ix person" and "runs db' = runs db @ new"
  shows "s_id s \<in> sr_subject ` set new"
proof -
  obtain xs ys where ss: "ss = xs @ s # ys" using assms(2) by (auto simp: in_set_conv_decomp)
  obtain db1 created1 where a: "rescreen_all E sid ix xs (db, created) = Some (db1, created1)"
    and b: "rescreen_all E sid ix (s # ys) (db1, created1) = Some (db', created')"
    using assms(1) by (auto simp: ss rescreen_all_append split: bind_splits)
  obtain db2 created2 where c: "rescreen_subject E sid ix s (db1, created1) = Some (db2, created2)"
    and e: "rescreen_all E sid ix ys (db2, created2) = Some (db', created')"
    using b by (auto split: bind_splits)
  have "subject_keys db1 = subject_keys db" using rescreen_all_keeps [OF a] by simp
  then obtain r where "runs db2 = runs db1 @ [r]" "sr_subject r = s_id s"
    using rescreen_subject_hit [OF c _ assms(4)] assms(3) by auto
  moreover obtain n1 where "runs db1 = runs db @ n1" using rescreen_all_keeps [OF a] by blast
  moreover obtain n2 where "runs db' = runs db2 @ n2" using rescreen_all_keeps [OF e] by blast
  ultimately have "new = n1 @ [r] @ n2" using assms(5) by simp
  then show ?thesis using \<open>sr_subject r = s_id s\<close> by force
qed

lemma listed_hits:
  assumes "w \<in> set ws" and "v \<in> set (rec_names (wr_record w))" and "subj_name person = Some n"
    and "tokens L (Some n) = tokens L (Some v)" and "t \<in> set (tokens L (Some n))" and "2 \<le> length t"
  shows "hit_by L (build_index L (map (\<lambda>w. (rec_id (wr_record w), rec_names (wr_record w))) ws)) person"
proof -
  let ?rs = "map (\<lambda>w. (rec_id (wr_record w), rec_names (wr_record w))) ws"
  have "rec_id (wr_record w) \<in> cand_record_id ` set (candidates L (build_index L ?rs) (Some n) DEFAULT_CAP)"
  proof (rule full_hit_returned)
    have "(rec_id (wr_record w), rec_names (wr_record w)) \<in> set ?rs" using assms(1) by auto
    from name_keys_record [OF this assms(2), of L]
    have sub: "name_keys L (Some n) \<subseteq> record_keys L ?rs (rec_id (wr_record w))"
      by (simp add: name_keys_def assms(4))
    have le: "token_keys L u \<subseteq> name_keys L (Some n)" if "u \<in> set (tokens L (Some n))" for u
      using that by (auto simp: name_keys_def)
    have "token_keys L t \<noteq> {}" using assms(6) by simp
    then show "name_keys L (Some n) \<inter> record_keys L ?rs (rec_id (wr_record w)) \<noteq> {}"
      using le [OF assms(5)] sub by blast
    show "\<forall>g \<in> set (token_key_groups L (Some n)). g \<inter> record_keys L ?rs (rec_id (wr_record w)) \<noteq> {}"
      using le sub unfolding token_key_groups_def by auto
  qed
  then have "candidates L (build_index L ?rs) (Some n) DEFAULT_CAP \<noteq> []" by auto
  moreover have "n \<in> set (subject_names person)"
    using assms(3,5) by (auto simp: tokens_def subject_names_def text_or_def)
  ultimately show ?thesis by (auto simp: hit_by_def list_ex_iff)
qed


text \<open>Two snapshots of the list, the second of which lists the sample subject for the first time.\<close>

definition earlier_snapshot :: list_snapshot where
  "earlier_snapshot = \<lparr>snap_id = ''n0'', snap_source = ''ofac_sdn'', snap_retrieved_at = 90, snap_sha = ''aa'', snap_count = 0\<rparr>"

definition monitor_db :: "tagged screening_db" where
  "monitor_db = sample_db\<lparr>snapshots := earlier_snapshot # snapshots sample_db,
     subjects := [(fst sample_stored)\<lparr>relationship_ended_at := None\<rparr>]\<rparr>"

lemma sample_readable_row: "s_id (fst sample_stored) = ''s1'' \<and> shredded_at (fst sample_stored) = None
    \<and> get_subject_pii tag_cipher sample_master (fst sample_stored) (snd sample_stored) = Inr (Pii sample_subject)"
proof -
  obtain s rows where w: "set_subject_pii tag_cipher sample_master sample_random (Pii sample_subject) sample_row []
      = Inr (s, rows)" "s_id s = ''s1''" "get_subject_pii tag_cipher sample_master s rows = Inr (Pii sample_subject)"
    using sample_set_pii [of "Pii sample_subject"] by blast
  then have "shredded_at s = None" by (auto simp: get_subject_pii_def split: if_splits)
  with w show ?thesis by (simp add: sample_stored_def)
qed

lemma monitor_pii: "get_subject_pii tag_cipher sample_master ((fst sample_stored)\<lparr>relationship_ended_at := None\<rparr>)
    (snd sample_stored) = Inr (Pii sample_subject)"
  using sample_readable_row by (auto simp: get_subject_pii_def split: option.splits)

lemma monitor_new: "new_records (diff_snapshots monitor_db (Some ''n0'') ''n1'') = [sample_watch]"
  by (simp add: diff_snapshots_def Let_def monitor_db_def by_entry_def entry_ids_def sample_watch_def map_filter_def)

lemma monitor_latest: "latest_before monitor_db (snapshots sample_db ! 0) = Some ''n0''"
  by (simp add: latest_before_def monitor_db_def sample_db_def earlier_snapshot_def)

lemma monitor_snapshot: "row_by snap_id ''n1'' (snapshots monitor_db) = Some (snapshots sample_db ! 0)"
  by (simp add: monitor_db_def sample_db_def row_by_def earlier_snapshot_def)


section \<open>What an ingest leaves behind\<close>

text \<open>A failed or unchanged ingest leaves the database as it was: the last good snapshot stays,
  with its retrieval time, so the age of a list counts from the last change of its text. Only a new
  text that parses adds a snapshot, retrieved now, with all its records.\<close>

theorem ingest_keeps_last_good:
  assumes "ingest_source E digest parse (\<lambda>_ d. Some d) src fetched db = Some (result, db')"
  shows "case result of
      Ingested i n \<Rightarrow> (\<exists>snap new. snapshots db' = snapshots db @ [snap] \<and> snap_id snap = i \<and> snap_source snap = src
        \<and> snap_retrieved_at snap = clock E \<and> watchlist db' = watchlist db @ new \<and> length new = n
        \<and> wr_snapshot ` set new \<subseteq> {i})
    | _ \<Rightarrow> db' = db"
proof -
  have new: "length (map2 (\<lambda>i p. (p i)\<lparr>wr_snapshot := sid\<rparr>) (new_ids E d (length ps)) ps) = length ps"
    "wr_snapshot ` set (map2 (\<lambda>i p. (p i)\<lparr>wr_snapshot := sid\<rparr>) (new_ids E d (length ps)) ps) \<subseteq> {sid}"
    for ps :: "(string \<Rightarrow> watch_row) list" and d :: "'a screening_db" and sid
    by (auto simp: new_ids_def)
  show ?thesis using assms new
    by (auto simp: ingest_source_def ingest_records_def record_snapshot_def store_records_def Let_def
        split: option.splits if_splits)
qed

lemma ingest_keeps_last_good_witness:
  "\<exists>r. ingest_source sample_env (\<lambda>_. ''ab'') (\<lambda>_. None) (\<lambda>_ d. Some d) ''ofac_sdn'' (Some ''text'') sample_db
     = Some (r, sample_db)"
proof -
  have "ingest_source sample_env (\<lambda>_. ''ab'') (\<lambda>_. None) (\<lambda>_ d. Some d) ''ofac_sdn'' (Some ''text'') sample_db
      = Some (Unchanged ''n1'', sample_db)"
    by (simp add: ingest_source_def newest_snapshot_def sample_db_def)
  from ingest_keeps_last_good [OF this] this show ?thesis by auto
qed

section \<open>The index cache\<close>

text \<open>The index cache is transparent: as long as its entries are the indexes of the snapshots they are
  filed under, loading an index gives the index of the requested snapshots, the entries stay right,
  also the evicting of the oldest one, and there are never more than four.\<close>

theorem index_cache_transparent:
  assumes "cache_valid L db cache" and "length cache \<le> 4" and "load_index L db snaps cache = (ix, cache')"
  shows "ix = build_index L (index_input db snaps) \<and> cache_valid L db cache' \<and> length cache' \<le> 4"
proof (cases "map_of cache snaps")
  case None
  have "cache_valid L db (tl cache)" using assms(1) by (cases cache) (simp_all add: cache_valid_def)
  then show ?thesis using assms None by (auto simp: load_index_def cache_valid_def Let_def split: if_splits)
next
  case (Some i)
  then have "(snaps, i) \<in> set cache" by (rule map_of_SomeD)
  then show ?thesis using assms Some by (auto simp: load_index_def cache_valid_def list_all_iff)
qed

lemma index_cache_transparent_witness:
  "\<exists>ix cache'. load_index plain_lib sample_db [''n1''] [] = (ix, cache') \<and> cache_valid plain_lib sample_db cache'"
proof -
  obtain ix cache' where l: "load_index plain_lib sample_db [''n1''] [] = (ix, cache')" by fastforce
  have "cache_valid plain_lib sample_db []" "length ([] :: (string list \<times> blocking_index) list) \<le> 4"
    by (simp_all add: cache_valid_def)
  from index_cache_transparent [OF this l] l show ?thesis by blast
qed

section \<open>Rule versions\<close>

text \<open>Rules are append-only: a new version keeps every stored version, has the next number, in its row and
  in its configuration, leaves the versions strictly increasing, and is the one the next run uses.\<close>

theorem rules_append_only:
  assumes "rules_ok (rule_rows db)" and "new_rule_version E config note operator db = (r, db')"
  shows "rule_rows db' = rule_rows db @ [r] \<and> rules_ok (rule_rows db') \<and> version (rv_config r) = rv_version r
    \<and> list_all (\<lambda>x. rv_version x < rv_version r) (rule_rows db) \<and> current_rule E db' = (r, db')"
proof -
  let ?rows = "rule_rows db"
  have rows: "rule_rows db' = ?rows @ [r]" and v: "version (rv_config r) = rv_version r"
    and rv: "rv_version r = (case latest_rule ?rows of None \<Rightarrow> 0 | Some x \<Rightarrow> rv_version x) + 1"
    using assms(2) by (auto simp: new_rule_version_def Let_def)
  have less: "\<forall>x \<in> set ?rows. rv_version x < rv_version r"
  proof
    fix x assume x: "x \<in> set ?rows"
    have "sorted_wrt (\<lambda>a b. rv_version a < rv_version b) ?rows" using assms(1) by (simp add: rules_ok_def)
    from sorted_last [OF this x] show "rv_version x < rv_version r"
      using x rv latest_rule_last [OF assms(1)] by auto
  qed
  have "1 \<le> rv_version (last ?rows)" if "?rows \<noteq> []"
    using assms(1) last_in_set [OF that] by (auto simp: rules_ok_def list_all_iff)
  then have "1 \<le> rv_version r"
    using rv latest_rule_last [OF assms(1)] by (cases "?rows = []") auto
  then have ok: "rules_ok (?rows @ [r])" using rules_ok_append [OF assms(1) less _ v] by simp
  have "current_rule E db' = (r, db')"
    using latest_rule_last [OF ok] by (simp add: current_rule_def rows)
  then show ?thesis using rows ok v less by (simp add: list_all_iff)
qed

lemma rules_append_only_witness:
  "\<exists>r db'. new_rule_version sample_env DEFAULT_RULE None None sample_db = (r, db') \<and> current_rule sample_env db' = (r, db')"
proof -
  obtain r db' where n: "new_rule_version sample_env DEFAULT_RULE None None sample_db = (r, db')" by fastforce
  have "rules_ok (rule_rows sample_db)" by (simp add: rules_ok_def)
  from rules_append_only [OF this n] n show ?thesis by blast
qed

end
