(* ===== verification/Explain.thy ===== *)
theory Explain
  imports Screening_Live
begin

text \<open>
  The trail behind a decision: the claims and terms the scoring stage stores, and
  \<open>app/screening/explain.py\<close>, which explains a decision from stored rows. A reason's text is a fixed
  sentence with the score, thresholds, disposition or gaps inserted; the model gives its code and
  those values. Rows the caller looked up are functions from identifiers.
\<close>

section \<open>Claims and terms\<close>

definition cites :: "claim_row list \<Rightarrow> term_row \<Rightarrow> bool" where
  "cites cs t = (tr_claims t \<noteq> [] \<and> (\<forall>i \<in> set (tr_claims t). \<exists>c \<in> set cs. cl_id c = i \<and> cl_run c = tr_run t))"

definition valueless :: "claim_row \<Rightarrow> bool" where
  "valueless c = (cl_about c \<noteq> ''subject'' \<or> cl_value c = None)"

definition trail_ok :: "'c screening_db \<Rightarrow> bool" where
  "trail_ok db = (list_all (cites (claims db)) (term_rows db) \<and> list_all valueless (claims db))"

lemma cites_mono: "cites cs t \<Longrightarrow> set cs \<subseteq> set cs' \<Longrightarrow> cites cs' t"
  unfolding cites_def by blast

text \<open>During the loop, the subject-side claims collected so far are stored claims of the run.\<close>

definition collected :: "string \<Rightarrow> (string \<times> string) list \<times> 'c screening_db \<Rightarrow> bool" where
  "collected rid st = (trail_ok (snd st) \<and> (\<forall>(f, i) \<in> set (fst st). \<exists>c \<in> set (claims (snd st)). cl_id c = i \<and> cl_run c = rid))"

definition claimed :: "string \<Rightarrow> claim_row list \<Rightarrow> string \<Rightarrow> bool" where
  "claimed rid cs i = (\<exists>c \<in> set cs. cl_id c = i \<and> cl_run c = rid)"

lemma claimed_append: "claimed rid (cs @ new) i \<longleftrightarrow> claimed rid cs i \<or> claimed rid new i"
  by (auto simp: claimed_def)

lemma store_term_effect:
  assumes "store_term E rid sid now cand w t (sc, db) = (sc', db')"
  shows "\<exists>new i j. claims db' = claims db @ new \<and> list_all valueless new \<and> claimed rid new j
    \<and> map_of sc' (subject_field t) = Some i
    \<and> (map_of sc (subject_field t) = Some i \<and> sc' = sc \<or> claimed rid new i \<and> sc' = AList.update (subject_field t) i sc)
    \<and> term_rows db' = term_rows db @ [\<lparr>tr_run = rid, tr_candidate = c_id cand, tr_name = t_name t,
        tr_weight = t_weight t, tr_claims = [i, j]\<rparr>]"
proof (cases "map_of sc (subject_field t)")
  case (Some i)
  then show ?thesis using assms
    by (auto simp: store_term_def Let_def valueless_def claimed_def)
next
  case None
  then show ?thesis using assms
    by (auto simp: store_term_def Let_def valueless_def claimed_def update_conv')
qed

lemma store_term_collected:
  assumes "collected rid st"
  shows "collected rid (store_term E rid sid now cand w t st)"
proof -
  obtain sc db where st: "st = (sc, db)" by (cases st)
  obtain sc' db' where st': "store_term E rid sid now cand w t (sc, db) = (sc', db')" by fastforce
  obtain new i j where new: "claims db' = claims db @ new" "list_all valueless new" "claimed rid new j"
    and i: "map_of sc (subject_field t) = Some i \<and> sc' = sc \<or> claimed rid new i \<and> sc' = AList.update (subject_field t) i sc"
    and row: "term_rows db' = term_rows db @ [\<lparr>tr_run = rid, tr_candidate = c_id cand, tr_name = t_name t,
        tr_weight = t_weight t, tr_claims = [i, j]\<rparr>]"
    using store_term_effect [OF st'] by blast
  have sc: "\<forall>(f, k) \<in> set sc. claimed rid (claims db) k" and trail: "trail_ok db"
    using assms by (auto simp: collected_def st claimed_def)
  have ki: "claimed rid (claims db') i"
    using i sc by (auto simp: new(1) claimed_append dest!: map_of_SomeD)
  have "set sc' \<subseteq> set sc \<union> {(subject_field t, i)}" using i update_sub by fastforce
  then have "\<forall>(f, k) \<in> set sc'. claimed rid (claims db') k"
    using sc ki by (auto simp: new(1) claimed_append)
  moreover have "list_all (cites (claims db')) (term_rows db)"
    using trail cites_mono by (fastforce simp: trail_ok_def list_all_iff new(1))
  moreover have "cites (claims db') \<lparr>tr_run = rid, tr_candidate = c_id cand, tr_name = t_name t,
        tr_weight = t_weight t, tr_claims = [i, j]\<rparr>"
    using ki new(3) by (auto simp: cites_def claimed_def new(1))
  ultimately show ?thesis
    using trail new by (auto simp: collected_def st st' trail_ok_def row claimed_def)
qed

lemma store_scored_collected:
  assumes "collected rid st"
  shows "collected rid (store_scored E rid sid now item st)"
proof -
  have terms: "collected rid st' \<Longrightarrow> collected rid (fold (store_term E rid sid now cand w) ts st')" for st' cand w ts
    by (induction ts arbitrary: st') (simp_all add: store_term_collected)
  have "collected rid (fst st, (snd st)\<lparr>candidate_rows := rows\<rparr>)" for rows
    using assms by (simp add: collected_def trail_ok_def)
  from terms [OF this] show ?thesis by (simp add: store_scored_def split: prod.split)
qed

lemma scored_collected: "collected rid st \<Longrightarrow> collected rid (fold (store_scored E rid sid now) items st)"
  by (induction items arbitrary: st) (simp_all add: store_scored_collected)

lemma scoring_trail:
  assumes "trail_ok db" and "score_candidates E rid db ctx = Some (db', ctx')"
  shows "trail_ok db'"
proof -
  obtain rule db1 where r: "current_rule E db = (rule, db1)" by fastforce
  have "term_rows db1 = term_rows db \<and> claims db1 = claims db"
    using r by (auto simp: current_rule_def Let_def split: option.splits)
  then have start: "collected rid ([], set_run_rule rid i db1)" for i
    using assms(1) by (simp add: collected_def trail_ok_def set_run_rule_def)
  show ?thesis
    using assms(2) scored_collected [OF start] r
    by (auto simp: score_candidates_def Let_def collected_def trail_ok_def split: bind_splits)
qed

text \<open>The other stages write neither claims nor terms.\<close>

lemma trail_cong: "claims db' = claims db \<Longrightarrow> term_rows db' = term_rows db \<Longrightarrow> trail_ok db' = trail_ok db"
  by (simp add: trail_ok_def)

lemma trail_put: "trail_ok db \<Longrightarrow> trail_ok (put_run (screening_ops rid) r db)"
  by (simp add: put_run_ops trail_ok_def)

lemma blocking_trail: "trail_ok db \<Longrightarrow> block_candidates E rid db ctx = Some (db', ctx') \<Longrightarrow> trail_ok db'"
  by (rule trail_cong [THEN iffD2, of _ db])
    (auto simp: block_candidates_def Let_def update_availability_def add_candidates_def split: bind_splits if_splits)

lemma dispose_trail: "trail_ok db \<Longrightarrow> dispose E rid db ctx = Some (db', ctx') \<Longrightarrow> trail_ok db'"
  by (rule trail_cong [THEN iffD2, of _ db])
    (auto simp: dispose_def freeze_inputs_def run_rule_def current_rule_def store_decision_def Let_def
      split: bind_splits if_splits option.splits sum.splits)

interpretation trail: run_invariant "screening_ops rid" trail_ok for rid
  by unfold_locales (rule trail_put)

lemma run_trail: "trail_ok db \<Longrightarrow> trail_ok (run_screening E rid ts start finish db)"
  unfolding run_screening_def
proof (rule trail.run_sync_keeps)
  show "\<forall>p \<in> set (zip (screening_stages E rid) ts). \<forall>db ctx db' ctx'. trail_ok db \<longrightarrow>
      execute (fst p) db ctx = Some (db', ctx') \<longrightarrow> trail_ok db'"
    by (auto simp: screening_stages_def block_stage_def score_stage_def dispose_stage_def
        dest!: set_zip_leftD) (rule blocking_trail scoring_trail dispose_trail; assumption)+
qed

text \<open>C17. Every term has a trail: a screening run, whatever fails in it, keeps the rule that every stored
  term cites at least one claim, that each cited claim is a stored claim of the same run, and that
  no claim about the subject carries a value.\<close>

theorem run_keeps_trail:
  assumes "trail_ok db"
  shows "trail_ok (run_screening E rid ts start finish db)"
  by (rule run_trail [OF assms])

lemma run_keeps_trail_witness: "trail_ok sample_final"
  by (rule run_keeps_trail) (simp add: trail_ok_def sample_db_def)

section \<open>Locators\<close>

definition field_tail :: "string \<Rightarrow> string option" where
  \<comment> \<open>\<open>(?P<field>.+)$\<close>: one line, a final newline left out\<close>
  "field_tail s = (let f = (if s \<noteq> [] \<and> last s = CHR ''\<newline>'' then butlast s else s)
     in if f \<noteq> [] \<and> CHR ''\<newline>'' \<notin> set f then Some f else None)"

definition snap_tail :: "string \<Rightarrow> (string \<times> string) option" where
  \<comment> \<open>\<open>(?P<snap>[^#]+)#(?P<field>.+)$\<close>\<close>
  "snap_tail s = (let snap = takeWhile (\<lambda>c. c \<noteq> CHR ''#'') s; rest = dropWhile (\<lambda>c. c \<noteq> CHR ''#'') s
     in if snap = [] \<or> rest = [] then None else map_option (\<lambda>f. (snap, f)) (field_tail (tl rest)))"

definition entry_at :: "string \<Rightarrow> nat \<Rightarrow> (string \<times> string \<times> string) option" where
  "entry_at s i = (if s ! i = CHR ''@'' \<and> CHR ''\<newline>'' \<notin> set (take i s)
     then map_option (\<lambda>(snap, f). (take i s, snap, f)) (snap_tail (drop (Suc i) s)) else None)"

definition parse_record_locator :: "string \<Rightarrow> (string \<times> string \<times> string \<times> string) option" where
  \<comment> \<open>the greedy \<open>.*\<close> takes the last \<open>@\<close> from which the rest matches\<close>
  "parse_record_locator s = (let source = takeWhile (\<lambda>c. c \<noteq> CHR '':'') s; rest = dropWhile (\<lambda>c. c \<noteq> CHR '':'') s
     in if source = [] \<or> rest = [] then None
        else case List.map_filter (entry_at (tl rest)) (rev [0..<length (tl rest)]) of
            [] \<Rightarrow> None
          | (entry, snap, f) # _ \<Rightarrow> Some (source, entry, snap, f))"

definition parse_subject_locator :: "string \<Rightarrow> string option" where
  "parse_subject_locator s = (if take 18 s = ''screening_subject:''
     then map_option snd (snap_tail (drop 18 s)) else None)"

lemma split_at_first: "c \<notin> set xs \<Longrightarrow> takeWhile (\<lambda>x. x \<noteq> c) (xs @ c # ys) = xs \<and> dropWhile (\<lambda>x. x \<noteq> c) (xs @ c # ys) = c # ys"
  by (induction xs) auto

lemma parse_subject: "CHR ''#'' \<notin> set sid \<Longrightarrow> sid \<noteq> [] \<Longrightarrow> field_tail f = Some g \<Longrightarrow>
    parse_subject_locator (subject_locator sid f) = Some g"
  by (simp add: parse_subject_locator_def subject_locator_def snap_tail_def split_at_first Let_def)

lemma field_tail_line: "f \<noteq> [] \<Longrightarrow> CHR ''\<newline>'' \<notin> set f \<Longrightarrow> field_tail f = Some f"
proof -
  assume f: "f \<noteq> []" "CHR ''\<newline>'' \<notin> set f"
  then have "last f \<noteq> CHR ''\<newline>''" using last_in_set by metis
  then show ?thesis using f by (simp add: field_tail_def)
qed

lemma map_filter_rev_hit:
  assumes "g i = Some x" and "i < n" and "\<forall>j. i < j \<longrightarrow> j < n \<longrightarrow> g j = None"
  shows "\<exists>xs. List.map_filter g (rev [0..<n]) = x # xs"
proof -
  have "rev [0..<n] = rev [Suc i..<n] @ i # rev [0..<i]"
  proof -
    have "[0..<n] = [0..<i] @ i # [Suc i..<n]" using assms(2) by (metis append_Cons append_Nil upt_add_eq_append
        upt_conv_Cons le0 less_imp_le less_imp_add_positive)
    then show ?thesis by simp
  qed
  moreover have "List.map_filter g (rev [Suc i..<n]) = []"
    using assms(3) by (auto simp: map_filter_def filter_empty_conv)
  ultimately show ?thesis using assms(1) by (simp add: map_filter_def)
qed

lemma parse_record:
  assumes "src \<noteq> []" and "CHR '':'' \<notin> set src" and "CHR ''\<newline>'' \<notin> set entry"
    and "snap \<noteq> []" and "CHR ''#'' \<notin> set snap" and "CHR ''@'' \<notin> set snap"
    and "f \<noteq> []" and "CHR ''\<newline>'' \<notin> set f" and "CHR ''@'' \<notin> set f"
  shows "parse_record_locator (src @ '':'' @ entry @ ''@'' @ snap @ ''#'' @ f) = Some (src, entry, snap, f)"
proof -
  let ?rest = "entry @ CHR ''@'' # snap @ CHR ''#'' # f" and ?i = "length entry"
  have tail: "snap_tail (snap @ CHR ''#'' # f) = Some (snap, f)"
    using assms(4,5,7,8) by (simp add: snap_tail_def split_at_first Let_def field_tail_line)
  have hit: "entry_at ?rest ?i = Some (entry, snap, f)"
    using assms(3) tail by (simp add: entry_at_def nth_append)
  have miss: "entry_at ?rest j = None" if "?i < j" "j < length ?rest" for j
  proof -
    have "?rest ! j \<in> set (snap @ CHR ''#'' # f)"
      using that by (auto simp: nth_append nth_Cons split: nat.splits)
    then have "?rest ! j \<noteq> CHR ''@''" using assms(6,9) by auto
    then show ?thesis by (simp add: entry_at_def)
  qed
  obtain xs where "List.map_filter (entry_at ?rest) (rev [0..<length ?rest]) = (entry, snap, f) # xs"
    using map_filter_rev_hit [of "entry_at ?rest" "length entry" "(entry, snap, f)" "length ?rest", OF hit] miss by auto
  then show ?thesis
    using assms(1,2) by (simp add: parse_record_locator_def split_at_first Let_def)
qed

text \<open>A stored locator leads back: the locator of a record-side claim is parsed to exactly the list,
  entry, snapshot and field it was built from, also when the entry's identifier contains colons, at
  signs or hashes, and the locator of a subject-side claim to its field and nothing of the subject.\<close>

theorem locators_lead_back:
  assumes "wr_source w \<noteq> []" and "CHR '':'' \<notin> set (wr_source w)" and "CHR ''\<newline>'' \<notin> set (wr_entry w)"
    and "wr_snapshot w \<noteq> []" and "{CHR ''#'', CHR ''@''} \<inter> set (wr_snapshot w) = {}"
    and "f \<noteq> []" and "{CHR ''\<newline>'', CHR ''@''} \<inter> set f = {}"
    and "sid \<noteq> []" and "CHR ''#'' \<notin> set sid"
  shows "parse_record_locator (record_locator w f) = Some (wr_source w, wr_entry w, wr_snapshot w, f)
    \<and> parse_subject_locator (subject_locator sid f) = Some f"
  using assms parse_record [of "wr_source w" "wr_entry w" "wr_snapshot w" f] parse_subject [OF assms(9,8) field_tail_line]
  by (auto simp: record_locator_def)

lemma locators_lead_back_witness:
  "parse_record_locator (record_locator (sample_watch\<lparr>wr_entry := ''a:b@c#d''\<rparr>) ''dobs'') = Some (''ofac_sdn'', ''a:b@c#d'', ''n1'', ''dobs'')
    \<and> parse_subject_locator (subject_locator ''s1'' ''dobs'') = Some ''dobs''"
  using locators_lead_back [of "sample_watch\<lparr>wr_entry := ''a:b@c#d''\<rparr>" "''dobs''" "''s1''"] by (simp add: sample_watch_def)

end
