(* ===== verification/Explanation.thy ===== *)
theory Explanation
  imports Explain
begin

text \<open>
  \<open>build_explanation\<close> of \<open>app/screening/explain.py\<close>: the steps of a decision told from stored rows.
  A reason is given by its code and the values its sentence is filled with; times are not printed.
  The rows the caller looked up are functions from identifiers; None is a \<open>KeyError\<close>.
\<close>

section \<open>Names of lists and terms\<close>

definition SOURCE_NAMES :: "(string \<times> string) list" where
  "SOURCE_NAMES =
    [(''ofac_sdn'', ''OFAC SDN List''),
     (''un_consolidated'', ''UN Security Council Consolidated List''),
     (''eu_fsf'', ''EU Consolidated Financial Sanctions List''),
     (''uk_ofsi'', ''UK OFSI Consolidated List'')]"

definition SOURCE_URLS :: "(string \<times> string) list" where
  "SOURCE_URLS =
    [(''ofac_sdn'', ''https://www.treasury.gov/ofac/downloads/sdn.csv''),
     (''un_consolidated'', ''https://scsanctions.un.org/resources/xml/en/consolidated.xml''),
     (''eu_fsf'', ''https://webgate.ec.europa.eu/fsd/fsf/public/files/xmlFullSanctionsList_1_1''
        @ ''/content?token=dG9rZW4tMjAxNw''),
     (''uk_ofsi'', ''https://ofsistorage.blob.core.windows.net/publishlive/2022format/ConList.csv'')]"

definition display_name :: "string \<Rightarrow> string" where
  "display_name source = (case map_of SOURCE_NAMES source of Some n \<Rightarrow> n | None \<Rightarrow> source)"

fun term_label :: "term_name \<Rightarrow> string" where
  "term_label name_exact_normalized = ''Name matches exactly (after normalization)''"
| "term_label name_token_reordered = ''Same name, different word order''"
| "term_label name_translit_equivalent = ''Name is a transliteration or spelling variant''"
| "term_label name_initials_compatible = ''Name matches, with initials''"
| "term_label name_partial_overlap = ''Part of the name matches''"
| "term_label dob_full_match = ''Full date of birth matches''"
| "term_label dob_year_match = ''Year (or year and month) of birth matches''"
| "term_label dob_within_range = ''Birth year falls in the listed range''"
| "term_label dob_conflict = ''Full dates of birth differ''"
| "term_label dob_partial_conflict = ''Dates of birth disagree (at least one is partial)''"
| "term_label id_number_match = ''ID document number matches''"
| "term_label id_number_conflict = ''Same ID type and issuer, different number''"
| "term_label nationality_match = ''Nationality matches''"
| "term_label nationality_conflict = ''Nationality differs''"
| "term_label pob_match = ''Place of birth matches''"
| "term_label common_name_penalty = ''Common name, not corroborated''"

definition weight_sign :: "rat \<Rightarrow> string" where
  "weight_sign w = (if 0 < w then ''+'' else if w < 0 then ''-'' else ''0'')"

record record_reference =
  ref_source :: string
  ref_display :: string
  ref_entry :: string
  ref_snapshot :: string
  ref_primary :: string
  ref_program :: "string option"

definition record_ref :: "watch_row \<Rightarrow> record_reference" where
  "record_ref w = \<lparr>ref_source = wr_source w, ref_display = display_name (wr_source w),
     ref_entry = wr_entry w, ref_snapshot = wr_snapshot w, ref_primary = wr_primary w,
     ref_program = wr_program w\<rparr>"

section \<open>Citations\<close>

record record_citation =
  rc_source :: string
  rc_display :: string
  rc_entry :: "string option"
  rc_field :: string
  rc_snapshot :: "string option"
  rc_retrieved :: "int option"
  rc_sha :: "string option"
  rc_url :: "string option"
  rc_locator :: string

datatype citation = SubjectCitation string "string option" int | RecordCitation record_citation

definition cite_claim :: "(string \<Rightarrow> list_snapshot option) \<Rightarrow> claim_row \<Rightarrow> citation" where
  "cite_claim snaps c =
    (if cl_about c = ''subject''
     then SubjectCitation (cl_source c) (parse_subject_locator (cl_locator c)) (cl_retrieved_at c)
     else let m = parse_record_locator (cl_locator c);
              snap = (case m of Some (_, _, s, _) \<Rightarrow> snaps s | None \<Rightarrow> None)
          in RecordCitation \<lparr>rc_source = cl_source c, rc_display = display_name (cl_source c),
               rc_entry = map_option (\<lambda>(_, entry, _, _). entry) m,
               rc_field = (case m of Some (_, _, _, f) \<Rightarrow> f | None \<Rightarrow> cl_field c),
               rc_snapshot = map_option (\<lambda>(_, _, s, _). s) m,
               rc_retrieved = map_option snap_retrieved_at snap, rc_sha = map_option snap_sha snap,
               rc_url = map_of SOURCE_URLS (cl_source c), rc_locator = cl_locator c\<rparr>)"

section \<open>The inputs\<close>

record human_disposition =
  hd_disposition :: string
  hd_created :: int
  hd_notes :: "string option"
  hd_operator :: string

record replay_event =
  re_payload :: "(bool option \<times> bool option) option" \<comment> \<open>\<open>reproduced\<close> and \<open>shredded\<close>\<close>
  re_occurred :: int
  re_operator :: "string option"

record 'c explain_input =
  x_run :: screening_run
  x_shredded_at :: "int option"
  x_decision :: "'c decision_row"
  x_rule :: rule
  x_rule_version :: "int option"
  x_candidates :: "string \<Rightarrow> candidate_row option"
  x_records :: "string \<Rightarrow> watch_row option"
  x_terms :: "term_row list"
  x_claims :: "string \<Rightarrow> claim_row option"
  x_snapshots :: "string \<Rightarrow> list_snapshot option"
  x_dispositions :: "human_disposition list"
  x_replays :: "replay_event list"
  x_operator_detail :: bool
  x_required :: "string list"
  x_max_age :: int

definition entry_names :: "candidate_result \<Rightarrow> term_name list" where
  "entry_names e = map p_name (r_terms e)"

section \<open>The steps\<close>

record explained_list =
  xl_source :: string
  xl_display :: string
  xl_required :: bool
  xl_status :: string
  xl_snapshot :: "list_snapshot option"
  xl_url :: "string option"

definition distinct_first :: "string list \<Rightarrow> string list" where
  \<comment> \<open>\<open>list(dict.fromkeys(xs))\<close>\<close>
  "distinct_first xs = rev (remdups (rev xs))"

definition explain_sources :: "'c explain_input \<Rightarrow> explained_list list" where
  "explain_sources X =
    (let by_source = map_of (rev (map (\<lambda>s. (snap_source s, s))
           (List.map_filter (x_snapshots X) (dec_snapshots (x_decision X)))));
         used = sort (remdups (map snap_source (List.map_filter (x_snapshots X) (dec_snapshots (x_decision X)))));
         av = map_of (availability (sr_state (x_run X)))
     in map (\<lambda>source. \<lparr>xl_source = source, xl_display = display_name source,
            xl_required = source \<in> set (x_required X),
            xl_status = (case av (''list:'' @ source) of Some st \<Rightarrow> st
              | None \<Rightarrow> if by_source source \<noteq> None then ''complete'' else ''unavailable''),
            xl_snapshot = by_source source, xl_url = map_of SOURCE_URLS source\<rparr>)
          (distinct_first (x_required X @ used)))"

record explained_term =
  xt_name :: term_name
  xt_label :: string
  xt_weight :: rat
  xt_direction :: string
  xt_record_field :: string
  xt_record_value :: field_value
  xt_citations :: "string list"

definition explain_term :: "'c explain_input \<Rightarrow> string \<Rightarrow> public_term \<Rightarrow> explained_term" where
  "explain_term X cid t = \<lparr>xt_name = p_name t, xt_label = term_label (p_name t), xt_weight = p_weight t,
     xt_direction = weight_sign (p_weight t), xt_record_field = p_record_field t,
     xt_record_value = p_record_value t,
     xt_citations = (case map_of (rev (map (\<lambda>r. ((tr_candidate r, tr_name r), tr_claims r)) (x_terms X)))
         (cid, p_name t) of Some cs \<Rightarrow> cs | None \<Rightarrow> [])\<rparr>"

record explained_candidate =
  xc_id :: string
  xc_ref :: record_reference
  xc_keys :: "string list"
  xc_score :: rat
  xc_terms :: "explained_term list"
  xc_band :: disposition
  xc_reason :: reason
  xc_consistent :: bool

definition explain_candidate :: "'c explain_input \<Rightarrow> candidate_result \<Rightarrow> explained_candidate option" where
  "explain_candidate X e = do {
     cand \<leftarrow> x_candidates X (r_candidate_id e);
     record \<leftarrow> x_records X (c_record cand);
     let (band, reason) = band_with_reason (r_score e) (entry_names e) (dec_thresholds (x_decision X));
     Some \<lparr>xc_id = c_id cand, xc_ref = record_ref record, xc_keys = c_keys cand, xc_score = r_score e,
           xc_terms = map (explain_term X (c_id cand)) (r_terms e), xc_band = r_band e,
           xc_reason = reason, xc_consistent = (band = r_band e)\<rparr>
   }"

record explained_run =
  xr_disposition :: disposition
  xr_auto_closed :: bool
  xr_reason :: reason
  xr_gaps :: "string list"
  xr_common_name :: "(field_value \<times> int) option"
  xr_consistent :: bool

definition explain_run :: "'c explain_input \<Rightarrow> explained_run" where
  "explain_run X =
    (let d = x_decision X;
         status = filter (\<lambda>(k, _). k \<noteq> ''dispose'') (availability (sr_state (x_run X)));
         (disp, closed, reason) = run_reason (map r_band (dec_terms d)) status;
         penalties = filter (\<lambda>t. p_name t = common_name_penalty) (concat (map r_terms (dec_terms d)))
     in \<lparr>xr_disposition = dec_disposition d, xr_auto_closed = dec_auto_closed d, xr_reason = reason,
         xr_gaps = sort (map fst (filter (\<lambda>(_, v). v = ''unavailable'') status)),
         xr_common_name = (case penalties of [] \<Rightarrow> None
            | t # _ \<Rightarrow> Some (p_record_value t, common_name_threshold (x_rule X))),
         xr_consistent = ((disp, closed) = (dec_disposition d, dec_auto_closed d))\<rparr>)"

definition explain_dispositions :: "'c explain_input
    \<Rightarrow> (string \<times> int \<times> (string option \<times> string) option) list" where
  "explain_dispositions X = map (\<lambda>d. (hd_disposition d, hd_created d,
     if x_operator_detail X then Some (hd_notes d, hd_operator d) else None)) (x_dispositions X)"

definition explain_replays :: "'c explain_input
    \<Rightarrow> (bool option \<times> bool option \<times> int \<times> string option option) list" where
  "explain_replays X = map (\<lambda>e. (Option.bind (re_payload e) fst, Option.bind (re_payload e) snd, re_occurred e,
     if x_operator_detail X then Some (re_operator e) else None)) (x_replays X)"

record explanation =
  e_run :: string
  e_decision :: string
  e_decided_at :: int
  e_rule_version :: "int option"
  e_normalizer :: string
  e_shredded :: bool
  e_sources :: "int \<times> explained_list list"
  e_candidates :: "explained_candidate list"
  e_cap :: nat
  e_thresholds :: thresholds
  e_disposition :: explained_run
  e_human :: "(string \<times> int \<times> (string option \<times> string) option) list"
  e_replays :: "(bool option \<times> bool option \<times> int \<times> string option option) list"
  e_citations :: "(string \<times> citation) list"

definition explain_citations :: "'c explain_input \<Rightarrow> explained_candidate list \<Rightarrow> (string \<times> citation) list" where
  "explain_citations X cands =
     List.map_filter (\<lambda>cid. map_option (\<lambda>c. (cid, cite_claim (x_snapshots X) c)) (x_claims X cid))
       (sort (remdups (concat (map xt_citations (concat (map xc_terms cands))))))"

definition build_explanation :: "'c explain_input \<Rightarrow> explanation option" where
  "build_explanation X = do {
     cands \<leftarrow> option_map (explain_candidate X) (dec_terms (x_decision X));
     Some \<lparr>e_run = sr_id (x_run X), e_decision = dec_id (x_decision X),
           e_decided_at = dec_created (x_decision X), e_rule_version = x_rule_version X,
           e_normalizer = dec_normalizer (x_decision X), e_shredded = (x_shredded_at X \<noteq> None),
           e_sources = (x_max_age X, explain_sources X), e_candidates = cands, e_cap = DEFAULT_CAP,
           e_thresholds = dec_thresholds (x_decision X), e_disposition = explain_run X,
           e_human = explain_dispositions X, e_replays = explain_replays X,
           e_citations = explain_citations X cands\<rparr>
   }"

section \<open>Explanations and decisions agree\<close>

lemma entry_names_public: "r_terms c = public_terms ts \<Longrightarrow> entry_names c = map t_name ts"
  by (simp add: entry_names_def public_terms_def comp_def)

lemma decided_band:
  assumes "decide L b = Some result" and "c \<in> set (d_candidates result)"
  shows "fst (band_with_reason (r_score c) (entry_names c) (rule_thresholds (b_rule b))) = r_band c"
proof -
  obtain cand sc ts where c: "c = candidate_result_of (b_rule b) cand (sc, ts)"
    using decide_candidate [OF assms] by metis
  have "entry_names c = map t_name ts" by (rule entry_names_public) (simp add: c candidate_result_of_def)
  then show ?thesis by (simp add: c candidate_result_of_def)
qed

lemma explain_candidate_consistent:
  assumes "explain_candidate X e = Some x"
  shows "xc_consistent x \<longleftrightarrow> fst (band_with_reason (r_score e) (entry_names e) (dec_thresholds (x_decision X))) = r_band e"
  using assms by (auto simp: explain_candidate_def split: bind_splits prod.splits)

lemma explain_candidate_defined:
  "explain_candidate X e \<noteq> None \<longleftrightarrow> (\<exists>cand. x_candidates X (r_candidate_id e) = Some cand \<and> x_records X (c_record cand) \<noteq> None)"
  by (auto simp: explain_candidate_def split: bind_splits prod.splits)

lemma explained_as_decided:
  assumes dec: "decide L b = Some result" and d: "decision_from rid rule result (x_decision X)"
    and rule: "rv_config rule = b_rule b"
    and status: "undisposed (availability (sr_state (x_run X))) = source_status b"
    and e: "build_explanation X = Some e"
  shows "list_all xc_consistent (e_candidates e)" and "xr_consistent (e_disposition e)"
proof -
  have terms: "dec_terms (x_decision X) = d_candidates result"
    and th: "dec_thresholds (x_decision X) = rule_thresholds (b_rule b)"
    and disp: "dec_disposition (x_decision X) = d_disposition result" "dec_auto_closed (x_decision X) = d_auto_closed result"
    using d rule by (simp_all add: decision_from_def)
  have cands: "option_map (explain_candidate X) (d_candidates result) = Some (e_candidates e)"
    and run: "e_disposition e = explain_run X"
    using e terms by (auto simp: build_explanation_def split: bind_splits)
  have "xc_consistent (e_candidates e ! i)" if i: "i < length (e_candidates e)" for i
  proof -
    have at: "explain_candidate X (d_candidates result ! i) = Some (e_candidates e ! i)"
      and i': "i < length (d_candidates result)"
      using option_map_nth [OF cands] i by auto
    show ?thesis
      unfolding explain_candidate_consistent [OF at] th by (rule decided_band [OF dec nth_mem [OF i']])
  qed
  then show "list_all xc_consistent (e_candidates e)" by (simp add: list_all_length)
  obtain why where "run_reason (map r_band (d_candidates result)) (source_status b)
      = (d_disposition result, d_auto_closed result, why)" using decide_run_reason [OF dec] .
  then show "xr_consistent (e_disposition e)"
    by (simp add: run explain_run_def terms disp status [unfolded undisposed_def] Let_def)
qed

text \<open>C18. Explanations agree with decisions: for a decision a run has made, whatever happened in the run, the
  explanation built from the run's final row and any rows found for its candidates recomputes the
  stored band of every candidate and the stored disposition of the run: nothing is marked as
  inconsistent.\<close>

theorem explanation_agrees:
  assumes "row_by sr_id rid (runs db) = Some run" and "\<forall>x \<in> set (decisions db). dec_run x \<noteq> rid"
    and "x_decision X \<in> set (decisions (run_screening E rid ts start finish db))" and "dec_run (x_decision X) = rid"
    and "length ts = 3"
    and "row_by sr_id rid (runs (run_screening E rid ts start finish db)) = Some (x_run X)"
    and "\<forall>c \<in> set (dec_terms (x_decision X)). \<exists>cand. x_candidates X (r_candidate_id c) = Some cand
      \<and> x_records X (c_record cand) \<noteq> None"
  shows "\<exists>e. build_explanation X = Some e \<and> length (e_candidates e) = length (dec_terms (x_decision X))
    \<and> list_all xc_consistent (e_candidates e) \<and> xr_consistent (e_disposition e)"
proof -
  obtain db0 db1 db2 where tr: "traced E rid ts db0 db1 db2 (x_decision X)" and ex: "run_exists rid db0"
    and av: "undisposed (avail rid (run_screening E rid ts start finish db)) = undisposed (avail rid db2)"
    using run_traced [OF assms(1-5)] by metis
  obtain run2 rule b result where run2: "row_by sr_id rid (runs db2) = Some run2"
    and b: "frozen_from E rid db2 run2 rule b" and dec: "decide (lib E) b = Some result"
    and d: "decision_from rid rule result (x_decision X)"
    using traced_decision [OF tr ex] .
  have rule: "rv_config rule = b_rule b" using b by (auto simp: frozen_from_def bundle_of_def Let_def)
  have status: "undisposed (availability (sr_state (x_run X))) = source_status b"
    using av frozen_status [OF b run2] by (simp add: avail_row [OF assms(6)] undisposed_def)
  have "option_map (explain_candidate X) (dec_terms (x_decision X)) \<noteq> None"
    unfolding option_map_None using assms(7) explain_candidate_defined by blast
  then obtain cands where c: "option_map (explain_candidate X) (dec_terms (x_decision X)) = Some cands" by blast
  then obtain e where e: "build_explanation X = Some e" "e_candidates e = cands"
    by (simp add: build_explanation_def)
  from explained_as_decided [OF dec d rule status e(1)] option_map_nth [OF c] e show ?thesis by auto
qed

definition sample_explained :: "tagged decision_row \<Rightarrow> screening_run \<Rightarrow> tagged explain_input" where
  "sample_explained d r = \<lparr>x_run = r, x_shredded_at = None, x_decision = d, x_rule = DEFAULT_RULE, x_rule_version = Some 1,
     x_candidates = (\<lambda>i. Some \<lparr>c_id = i, c_run = ''run1'', c_record = ''r1'', c_keys = [], c_score = None\<rparr>),
     x_records = (\<lambda>_. Some sample_watch), x_terms = [],
     x_claims = (\<lambda>i. Some \<lparr>cl_id = i, cl_run = ''run1'', cl_candidate = None, cl_about = ''record'', cl_field = ''dobs'',
        cl_value = None, cl_source = ''ofac_sdn'', cl_locator = ''ofac_sdn:77@n1#dobs'', cl_retrieved_at = 1\<rparr>),
     x_snapshots = (\<lambda>_. None),
     x_dispositions = [\<lparr>hd_disposition = ''cleared'', hd_created = 5, hd_notes = None, hd_operator = ''op1''\<rparr>],
     x_replays = [], x_operator_detail = False, x_required = [''ofac_sdn''], x_max_age = 7\<rparr>"

lemma explanation_agrees_witness:
  "\<exists>X e. x_decision X \<in> set (decisions sample_final) \<and> build_explanation X = Some e
     \<and> list_all xc_consistent (e_candidates e) \<and> xr_consistent (e_disposition e)"
proof -
  obtain d where d: "d \<in> set (decisions sample_final)" "dec_run d = ''run1''" using sample_decided by blast
  obtain r where r: "row_by sr_id ''run1'' (runs sample_final) = Some r"
    using run_row_settles [OF sample_tables(1), of "[on_time, on_time, on_time]" sample_env 1 2] by auto
  have none: "\<forall>x \<in> set (decisions sample_db). dec_run x \<noteq> ''run1''" by simp
  let ?X = "sample_explained d r"
  have "\<exists>e. build_explanation ?X = Some e \<and> length (e_candidates e) = length (dec_terms (x_decision ?X))
      \<and> list_all xc_consistent (e_candidates e) \<and> xr_consistent (e_disposition e)"
    by (rule explanation_agrees [OF sample_tables(1) none, of ?X sample_env "[on_time, on_time, on_time]" 1 2])
      (use d r in \<open>simp_all add: sample_explained_def\<close>)
  moreover have "x_decision ?X = d" by (simp add: sample_explained_def)
  ultimately show ?thesis using d(1) by metis
qed

text \<open>An explanation withholds what it must: nothing of it depends on a value stored with a claim, and
  for a reader who is not an operator nothing depends on the notes of a human disposition or on who
  entered it.\<close>

theorem explanation_withholds:
  assumes "\<forall>i. map_option (\<lambda>c. c\<lparr>cl_value := None\<rparr>) (cs i) = map_option (\<lambda>c. c\<lparr>cl_value := None\<rparr>) (x_claims X i)"
    and "map (\<lambda>d. (hd_disposition d, hd_created d)) ds = map (\<lambda>d. (hd_disposition d, hd_created d)) (x_dispositions X)"
    and "\<not> x_operator_detail X"
  shows "build_explanation (X\<lparr>x_claims := cs, x_dispositions := ds\<rparr>) = build_explanation X"
proof -
  have erase: "cite_claim s (c\<lparr>cl_value := None\<rparr>) = cite_claim s c" for s c
    by (simp add: cite_claim_def Let_def split: option.split)
  have same: "map_option (cite_claim s) (cs i) = map_option (cite_claim s) (x_claims X i)" for s i
  proof -
    have "map_option (cite_claim s) (map_option (\<lambda>c. c\<lparr>cl_value := None\<rparr>) (cs i))
        = map_option (cite_claim s) (map_option (\<lambda>c. c\<lparr>cl_value := None\<rparr>) (x_claims X i))"
      using assms(1) by simp
    then show ?thesis by (simp add: option.map_comp comp_def erase)
  qed
  have pair: "map_option (\<lambda>c. (i, cite_claim s c)) oc = map_option (Pair i) (map_option (cite_claim s) oc)" for i s oc
    by (cases oc) simp_all
  let ?Y = "X\<lparr>x_claims := cs, x_dispositions := ds\<rparr>"
  have "explain_citations ?Y cands = explain_citations X cands" for cands
    unfolding explain_citations_def pair by (simp add: same)
  moreover have "explain_dispositions ?Y = explain_dispositions X"
  proof -
    have "map (\<lambda>d. (fst d, snd d, None)) (map (\<lambda>d. (hd_disposition d, hd_created d)) ds)
      = map (\<lambda>d. (fst d, snd d, None)) (map (\<lambda>d. (hd_disposition d, hd_created d)) (x_dispositions X))"
      by (simp only: assms(2))
    then show ?thesis using assms(3) by (simp add: explain_dispositions_def comp_def)
  qed
  moreover have "explain_candidate ?Y = explain_candidate X"
  proof -
    have xt: "explain_term ?Y = explain_term X" by (intro ext) (simp add: explain_term_def)
    show ?thesis by (intro ext) (simp add: explain_candidate_def xt)
  qed
  moreover have "explain_run ?Y = explain_run X" "explain_sources ?Y = explain_sources X"
    "explain_replays ?Y = explain_replays X"
    by (simp_all add: explain_run_def explain_sources_def explain_replays_def cong: list.case_cong prod.case_cong)
  ultimately show ?thesis by (simp add: build_explanation_def)
qed

lemma explanation_withholds_witness:
  "\<exists>d \<in> set (decisions sample_final). build_explanation ((sample_explained d sample_run)
      \<lparr>x_claims := (\<lambda>i. map_option (\<lambda>c. c\<lparr>cl_value := Some (VText (Some ''Petrov''))\<rparr>) (x_claims (sample_explained d sample_run) i)),
        x_dispositions := [\<lparr>hd_disposition = ''cleared'', hd_created = 5, hd_notes = Some ''called the subject'',
          hd_operator = ''op2''\<rparr>]\<rparr>)
    = build_explanation (sample_explained d sample_run)"
proof -
  obtain d where d: "d \<in> set (decisions sample_final)" using sample_decided by blast
  show ?thesis by (rule bexI [OF _ d], rule explanation_withholds) (simp_all add: sample_explained_def)
qed

end
