(* ===== verification/Report.thy ===== *)
theory Report
  imports Scoring_Laws "HOL-Library.Multiset"
begin

text \<open>
  The report of a verification run: \<open>app/scoring/explain.py\<close>, \<open>app/scoring/report.py\<close> and the
  redaction for its readers in \<open>app/auth/pii.py\<close>. A report is rebuilt from the stored assessment;
  times are numbers and are not printed, a signal's wording is left out as in \<open>Kyb_Evidence\<close>.
\<close>

section \<open>Explainability\<close>

record layer_explanation =
  le_layer :: layer
  le_score :: rat
  le_signals :: "signal list"
  le_sources :: "string list"

record mismatch_detail =
  md_field :: string
  md_submitted :: "string option"
  md_discovered :: "string option"
  md_status :: string
  md_evidence :: "string option"

record explainability =
  xp_tier :: tier_name
  xp_overall :: rat
  xp_confidence :: rat
  xp_layers :: "layer_explanation list"
  xp_mismatches :: "mismatch_detail list"
  xp_coverage :: "(string \<times> int \<times> nat) list" \<comment> \<open>source, tier and number of rows\<close>

definition LAYER_ORDER :: "layer list" where
  "LAYER_ORDER = [Entity, Infrastructure, Representation, Risk]"

fun layer_score_of :: "scoring_result \<Rightarrow> layer \<Rightarrow> rat" where
  "layer_score_of r Entity = entity_score r"
| "layer_score_of r Infrastructure = infrastructure_score r"
| "layer_score_of r Representation = representation_score r"
| "layer_score_of r Risk = risk_score r"

definition source_of_id :: "evidence list \<Rightarrow> string \<Rightarrow> string option" where
  "source_of_id rows = map_of (rev (map (\<lambda>e. (ev_id e, source e)) rows))"

definition cover_source :: "evidence \<Rightarrow> (string \<times> int \<times> nat) list \<Rightarrow> (string \<times> int \<times> nat) list" where
  "cover_source e cov = (case map_of cov (source e) of
       None \<Rightarrow> AList.update (source e) (tier e, 1) cov
     | Some (t, n) \<Rightarrow> AList.update (source e) (t, Suc n) cov)"

definition explain_layer :: "scoring_result \<Rightarrow> evidence list \<Rightarrow> layer \<Rightarrow> layer_explanation" where
  "explain_layer r rows l =
    (let signals = filter (\<lambda>s. sig_layer s = l) (contributing_signals r);
         sources = List.map_filter (source_of_id rows) (concat (map evidence_ids signals))
     in \<lparr>le_layer = l, le_score = layer_score_of r l, le_signals = signals,
         le_sources = sort (remdups (filter (\<lambda>src. src \<noteq> []) sources))\<rparr>)"

definition mismatch_of :: "field_comparison \<Rightarrow> mismatch_detail" where
  "mismatch_of fc = \<lparr>md_field = field_name fc, md_submitted = submitted_value fc,
     md_discovered = discovered_value fc, md_status = match_status fc, md_evidence = evidence_id fc\<rparr>"

definition build_explainability :: "scoring_result \<Rightarrow> evidence list \<Rightarrow> field_comparison list \<Rightarrow> explainability" where
  "build_explainability r rows fcs = \<lparr>xp_tier = result_tier r, xp_overall = overall_score r,
     xp_confidence = confidence r, xp_layers = map (explain_layer r rows) LAYER_ORDER,
     xp_mismatches = map mismatch_of fcs, xp_coverage = fold cover_source rows []\<rparr>"

section \<open>The summary\<close>

record score_summary =
  ss_overall :: rat
  ss_layers :: "layer \<Rightarrow> rat"
  ss_tier :: tier_name
  ss_signals :: "signal list"

record evidence_item =
  ei_id :: string
  ei_source :: string
  ei_tier :: int
  ei_field :: "string option"
  ei_raw :: "string option"
  ei_normalized :: "string option"
  ei_confidence :: "rat option"
  ei_attribution :: "(string \<times> json) list option"
  ei_fetched :: "int option"
  ei_payload :: "(string \<times> json) list option"

record mismatch_item =
  mi_id :: string
  mi_detail :: mismatch_detail

record source_item =
  so_source :: string
  so_tier :: int
  so_count :: nat
  so_attribution :: "(string \<times> json) list option"
  so_status :: string

record summary =
  sm_scores :: "score_summary option"
  sm_evidence :: "evidence_item list"
  sm_mismatches :: "mismatch_item list"
  sm_sources :: "source_item list"
  sm_triage :: "triage_result option"
  sm_explainability :: "explainability option"

definition evidence_item_of :: "evidence \<Rightarrow> evidence_item" where
  "evidence_item_of e = \<lparr>ei_id = ev_id e, ei_source = source e, ei_tier = tier e, ei_field = ev_field e,
     ei_raw = raw_value e, ei_normalized = normalized_value e, ei_confidence = ev_confidence e,
     ei_attribution = attribution e, ei_fetched = fetched_at e,
     ei_payload = (if source e = PUBLIC_RECORDS_SOURCE then raw_payload e else None)\<rparr>"

definition count_source :: "evidence \<Rightarrow> (string \<times> source_item) list \<Rightarrow> (string \<times> source_item) list" where
  "count_source e items =
    (let item = (case map_of items (source e) of Some i \<Rightarrow> i
         | None \<Rightarrow> \<lparr>so_source = source e, so_tier = tier e, so_count = 0, so_attribution = attribution e,
                    so_status = ''available''\<rparr>)
     in AList.update (source e) (item\<lparr>so_count := Suc (so_count item)\<rparr>) items)"

definition STAGE_SOURCES :: "(string \<times> string \<times> int) list" where
  "STAGE_SOURCES =
    [(''query_registries'', ''opencorporates'', 1),
     (''sanctions_screening'', ''sanctions'', 1),
     (''analyze_domain'', ''domain'', 2),
     (''enrich_network_ip'', ''ipinfo'', 2),
     (''web_evidence'', ''web'', 3),
     (''geocode_hq'', ''geocode'', 3),
     (''verify_tax_id'', ''tax_id'', 1),
     (''verify_linkedin'', ''linkedin'', 3),
     (''collect_people'', ''registry_people'', 1),
     (''screen_people'', ''officer_screening'', 1)]"

definition list_gap :: "string \<times> string \<Rightarrow> (string \<times> source_item) list \<Rightarrow> (string \<times> source_item) list" where
  "list_gap entry items = (case (entry, map_of STAGE_SOURCES (fst entry)) of
       ((_, st), Some (src, t)) \<Rightarrow>
         if st = ''unavailable'' \<and> map_of items src = None
         then AList.update src \<lparr>so_source = src, so_tier = t, so_count = 0, so_attribution = None,
                so_status = ''unavailable''\<rparr> items
         else items
     | _ \<Rightarrow> items)"

definition fifty_if_zero :: "rat \<Rightarrow> rat" where
  \<comment> \<open>\<open>x or 50.0\<close>\<close>
  "fifty_if_zero x = (if x = 0 then 50 else x)"

definition pseudo_result :: "rat \<Rightarrow> risk_assessment \<Rightarrow> scoring_result" where
  "pseudo_result conf ra = \<lparr>entity_score = fifty_if_zero (ra_entity_score ra),
     infrastructure_score = fifty_if_zero (ra_infrastructure_score ra),
     representation_score = fifty_if_zero (ra_representation_score ra),
     risk_score = fifty_if_zero (ra_risk_score ra), overall_score = fifty_if_zero (ra_overall_score ra),
     result_tier = ra_tier ra, contributing_signals = ra_signals ra, confidence = conf\<rparr>"

definition derive_triage_from_assessment :: "risk_assessment \<Rightarrow> triage_result" where
  "derive_triage_from_assessment ra = derive_triage (pseudo_result 0 ra)"

definition explainability_from_assessment :: "risk_assessment \<Rightarrow> evidence list \<Rightarrow> field_comparison list \<Rightarrow> explainability" where
  "explainability_from_assessment ra rows fcs =
     build_explainability (pseudo_result (compute_confidence rows) ra) rows fcs"

fun assessed_layer :: "risk_assessment \<Rightarrow> layer \<Rightarrow> rat" where
  "assessed_layer ra Entity = ra_entity_score ra"
| "assessed_layer ra Infrastructure = ra_infrastructure_score ra"
| "assessed_layer ra Representation = ra_representation_score ra"
| "assessed_layer ra Risk = ra_risk_score ra"

definition score_summary_of :: "risk_assessment \<Rightarrow> score_summary" where
  "score_summary_of ra = \<lparr>ss_overall = ra_overall_score ra, ss_layers = assessed_layer ra,
     ss_tier = ra_tier ra, ss_signals = ra_signals ra\<rparr>"

definition build_summary :: "evidence list \<Rightarrow> field_comparison list \<Rightarrow> risk_assessment option
    \<Rightarrow> (string \<times> string) list \<Rightarrow> summary" where
  "build_summary rows fcs assessment availability =
     \<lparr>sm_scores = map_option score_summary_of assessment,
      sm_evidence = map evidence_item_of rows,
      sm_mismatches = map (\<lambda>fc. \<lparr>mi_id = fc_id fc, mi_detail = mismatch_of fc\<rparr>) fcs,
      sm_sources = map snd (fold list_gap availability (fold count_source rows [])),
      sm_triage = map_option derive_triage_from_assessment assessment,
      sm_explainability = map_option (\<lambda>ra. explainability_from_assessment ra rows fcs) assessment\<rparr>"

section \<open>Sections and the stored report\<close>

record sections =
  sec_scores :: string
  sec_evidence :: string
  sec_mismatches :: string
  sec_sources :: string

definition stage_status :: "(string \<times> string) list \<Rightarrow> string \<Rightarrow> string" where
  "stage_status availability stage = (case map_of availability stage of Some s \<Rightarrow> s | None \<Rightarrow> ''pending'')"

definition build_section_statuses :: "(string \<times> string) list \<Rightarrow> bool \<Rightarrow> sections" where
  "build_section_statuses availability has_assessment =
    (let reg = stage_status availability ''query_registries''; dom = stage_status availability ''analyze_domain'';
         evidence = (if reg = ''complete'' \<or> dom = ''complete'' then ''complete''
            else if reg = ''unavailable'' \<and> dom = ''unavailable'' then ''unavailable'' else ''pending'');
         consistency = stage_status availability ''consistency_checks''
     in \<lparr>sec_scores = (if has_assessment then ''complete'' else ''pending''), sec_evidence = evidence,
         sec_mismatches = (if consistency \<noteq> [] then consistency else ''pending''), sec_sources = evidence\<rparr>)"

definition section_list :: "sections \<Rightarrow> string list" where
  "section_list s = [sec_scores s, sec_evidence s, sec_mismatches s, sec_sources s]"

definition report_status :: "sections \<Rightarrow> string" where
  "report_status s =
    (if list_all (\<lambda>v. v = ''complete'') (section_list s) then ''complete''
     else if list_all (\<lambda>v. v \<in> {''complete'', ''unavailable''}) (section_list s) then ''complete''
     else if list_ex (\<lambda>v. v = ''complete'') (section_list s) then ''partial''
     else ''pending'')"

record report_row =
  rp_run :: string
  rp_assessment :: "string option"
  rp_status :: string
  rp_sections :: sections
  rp_summary :: summary
  rp_generated_at :: "int option"
  rp_updated_at :: int

record stored_assessment =
  as_id :: string
  as_created :: int
  as_row :: risk_assessment

definition latest_assessment :: "string \<Rightarrow> stored_assessment list \<Rightarrow> stored_assessment option" where
  "latest_assessment run rows = (case filter (\<lambda>a. ra_run (as_row a) = run) rows of
       [] \<Rightarrow> None
     | a # as \<Rightarrow> Some (fold (\<lambda>x best. if as_created best < as_created x then x else best) as a))"

definition new_report :: "string \<Rightarrow> (string \<times> string) list \<Rightarrow> evidence list \<Rightarrow> field_comparison list
    \<Rightarrow> stored_assessment option \<Rightarrow> int \<Rightarrow> report_row" where
  "new_report run av rows fcs assessment clock =
    (let secs = build_section_statuses av (assessment \<noteq> None); status = report_status secs
     in \<lparr>rp_run = run, rp_assessment = map_option as_id assessment, rp_status = status, rp_sections = secs,
         rp_summary = build_summary rows fcs (map_option as_row assessment) av,
         rp_generated_at = (if status = ''complete'' then Some clock else None), rp_updated_at = clock\<rparr>)"

definition refresh_report :: "report_row \<Rightarrow> int \<Rightarrow> report_row \<Rightarrow> report_row" where
  "refresh_report new clock r = r\<lparr>rp_assessment := rp_assessment new, rp_status := rp_status new,
     rp_sections := rp_sections new, rp_summary := rp_summary new, rp_updated_at := clock,
     rp_generated_at := (if rp_status new = ''complete'' \<and> rp_generated_at r = None then Some clock
       else rp_generated_at r)\<rparr>"

definition assemble_report :: "string \<Rightarrow> (string \<times> string) list option \<Rightarrow> evidence list \<Rightarrow> field_comparison list
    \<Rightarrow> stored_assessment list \<Rightarrow> int \<Rightarrow> report_row list \<Rightarrow> report_row list" where
  \<comment> \<open>the availability of the run's row, None when there is no such run; the run's field comparisons\<close>
  "assemble_report run avail all_evidence fcs assessments clock reports = (case avail of
       None \<Rightarrow> reports
     | Some av \<Rightarrow>
         let new = new_report run av (filter (\<lambda>e. ev_run e = run) all_evidence) fcs
               (latest_assessment run assessments) clock
         in if list_ex (\<lambda>r. rp_run r = run) reports
            then update_first (\<lambda>r. rp_run r = run) (refresh_report new clock) reports
            else reports @ [new])"

section \<open>What a report shows\<close>

lemma derive_triage_tier: "tr_tier (derive_triage r) = triage_tier (overall_score r) (map sig_name (contributing_signals r))"
proof -
  have ex: "list_ex (\<lambda>n. n \<in> S) (map sig_name ss) = (names_where (\<lambda>s. sig_name s \<in> S) ss \<noteq> [])" for S ss
    by (auto simp: list_ex_iff names_where_def filter_empty_conv)
  show ?thesis unfolding derive_triage_def triage_tier_def Let_def ex by simp
qed

lemma report_tier: "tr_tier (derive_triage_from_assessment (assess_run today q fcs))
    = (if ra_overall_score (assess_run today q fcs) = 0 \<and> ra_tier (assess_run today q fcs) = pre_clear
       then review else ra_tier (assess_run today q fcs))"
proof -
  let ?ra = "assess_run today q fcs"
  have tier: "ra_tier ?ra = triage_tier (ra_overall_score ?ra) (map sig_name (ra_signals ?ra))"
    by (simp add: assess_run_def Let_def engine_tier)
  have shown: "tr_tier (derive_triage_from_assessment ?ra)
      = triage_tier (fifty_if_zero (ra_overall_score ?ra)) (map sig_name (ra_signals ?ra))"
    by (simp add: derive_triage_from_assessment_def derive_triage_tier pseudo_result_def)
  show ?thesis unfolding shown tier
    by (simp add: fifty_if_zero_def triage_tier_def TRIAGE_PRE_CLEAR_MAX_def TRIAGE_ESCALATE_MIN_def)
qed

text \<open>The triage in a report is the stored tier, except for a score of exactly zero: a report is rebuilt
  from the stored assessment with a score of 50 in place of 0, so a run that is pre-cleared with the
  best possible score is shown as one to review, and no other run changes its tier.\<close>

theorem report_triage_shown:
  "(let ra = assess_run today q fcs in tr_tier (derive_triage_from_assessment ra)
     = (if ra_overall_score ra = 0 \<and> ra_tier ra = pre_clear then review else ra_tier ra))"
  unfolding Let_def by (rule report_tier)

lemma cover_source_of: "map_of (cover_source e cov) src =
    (if source e = src then Some (case map_of cov src of None \<Rightarrow> (tier e, 1) | Some (t, n) \<Rightarrow> (t, Suc n)) else map_of cov src)"
  by (auto simp: cover_source_def update_conv' split: option.split)

lemma cover_fold: "map_of (fold cover_source rows cov) src =
    (case filter (\<lambda>e. source e = src) rows of
       [] \<Rightarrow> map_of cov src
     | e # es \<Rightarrow> Some (case map_of cov src of None \<Rightarrow> (tier e, Suc (length es)) | Some (t, n) \<Rightarrow> (t, n + Suc (length es))))"
proof (induction rows arbitrary: cov)
  case (Cons e rows)
  show ?case
    by (cases "filter (\<lambda>e. source e = src) rows"; cases "map_of cov src")
      (auto simp: Cons.IH cover_source_of)
qed simp

lemma signals_by_layer: "mset (concat (map (\<lambda>l. filter (\<lambda>s. sig_layer s = l) ss) LAYER_ORDER)) = mset ss"
proof (induction ss)
  case (Cons s ss)
  then show ?case by (cases "sig_layer s") (simp_all add: LAYER_ORDER_def)
qed (simp add: LAYER_ORDER_def)

lemma source_of_id_member:
  assumes "distinct (map ev_id rows)"
  shows "source_of_id rows i = Some src \<longleftrightarrow> (\<exists>e \<in> set rows. ev_id e = i \<and> source e = src)"
proof -
  have "distinct (map fst (rev (map (\<lambda>e. (ev_id e, source e)) rows)))"
    using assms by (simp add: comp_def flip: rev_map)
  from map_of_eq_Some_iff [OF this, of i src] show ?thesis by (auto simp: source_of_id_def)
qed

text \<open>The explanation of a score is complete and attributable: its layers partition the contributing
  signals, the sources named with a layer are exactly the sources of the rows its signals cite, and
  the coverage counts every row of every source.\<close>

theorem explainability_attributes:
  assumes "distinct (map ev_id rows)" and "[] \<notin> source ` set rows"
  shows "(let x = build_explainability r rows fcs in
      mset (concat (map le_signals (xp_layers x))) = mset (contributing_signals r)
      \<and> map (\<lambda>le. (le_layer le, set (le_sources le))) (xp_layers x) = map (\<lambda>l. (l, {source e |e. e \<in> set rows \<and>
           ev_id e \<in> (\<Union>s \<in> {s \<in> set (contributing_signals r). sig_layer s = l}. set (evidence_ids s))})) LAYER_ORDER
      \<and> map_of (xp_coverage x) src = (case filter (\<lambda>e. source e = src) rows of
           [] \<Rightarrow> None | e # es \<Rightarrow> Some (tier e, length (e # es))))"
proof -
  have sources: "set (le_sources (explain_layer r rows l)) = {source e |e. e \<in> set rows \<and>
      ev_id e \<in> (\<Union>s \<in> {s \<in> set (contributing_signals r). sig_layer s = l}. set (evidence_ids s))}" for l
  proof -
    have named: "e \<in> set rows \<Longrightarrow> source e = [] \<Longrightarrow> False" for e using assms(2) by (metis imageI)
    have mf: "set (List.map_filter g xs) = {y. \<exists>x \<in> set xs. g x = Some y}" for g :: "string \<Rightarrow> string option" and xs
      by (auto simp: map_filter_def) force
    show ?thesis using assms(2) unfolding explain_layer_def Let_def layer_explanation.simps set_sort set_remdups set_filter mf
      source_of_id_member [OF assms(1)] by (auto dest: named)
  qed
  have "map le_signals (map (explain_layer r rows) LAYER_ORDER)
      = map (\<lambda>l. filter (\<lambda>s. sig_layer s = l) (contributing_signals r)) LAYER_ORDER"
    by (simp add: explain_layer_def Let_def)
  then have "mset (concat (map le_signals (map (explain_layer r rows) LAYER_ORDER))) = mset (contributing_signals r)"
    by (simp only: signals_by_layer)
  moreover have "le_layer (explain_layer r rows l) = l" for l by (simp add: explain_layer_def Let_def)
  ultimately show ?thesis
    unfolding Let_def build_explainability_def explainability.simps
    by (simp add: sources cover_fold comp_def split: list.split)
qed

text \<open>Assembling a report is idempotent and keeps one report per run: doing it again at the same time
  changes nothing, whatever the state of the run, and other runs' reports are never touched.\<close>

theorem assemble_report_idempotent:
  assumes "distinct (map rp_run reports)"
  shows "(let once = assemble_report run avail rows fcs assessments clock reports in
      assemble_report run avail rows fcs assessments clock once = once \<and> distinct (map rp_run once)
      \<and> filter (\<lambda>r. rp_run r \<noteq> run) once = filter (\<lambda>r. rp_run r \<noteq> run) reports)"
proof (cases avail)
  case (Some av)
  let ?P = "\<lambda>r. rp_run r = run" and ?once = "assemble_report run avail rows fcs assessments clock reports"
  define new where "new = new_report run av (filter (\<lambda>e. ev_run e = run) rows) fcs (latest_assessment run assessments) clock"
  have assemble: "assemble_report run avail rows fcs assessments clock rs =
      (if list_ex ?P rs then update_first ?P (refresh_report new clock) rs else rs @ [new])" for rs
    by (simp add: Some assemble_report_def new_def Let_def)
  have keep: "rp_run (refresh_report new clock r) = rp_run r"
    and twice: "refresh_report new clock (refresh_report new clock r) = refresh_report new clock r"
    and fixed: "refresh_report new clock new = new" and run: "rp_run new = run" for r
    by (simp_all add: refresh_report_def new_def new_report_def Let_def)
  show ?thesis
  proof (cases "list_ex ?P reports")
    case True
    then show ?thesis
      using assms by (simp add: assemble Let_def keep twice update_first_ex update_first_idem update_first_map update_first_other)
  next
    case False
    then show ?thesis
      using assms by (auto simp: assemble Let_def run fixed update_first_append list_ex_iff)
  qed
qed (simp add: assemble_report_def assms)

end
