(* ===== verification/Access.thy ===== *)
theory Access
  imports Prelude
begin

text \<open>
  Who may call the API: \<open>app/auth/operator.py\<close>, \<open>session_store.py\<close>, \<open>service.py\<close>,
  \<open>examiner_guard.py\<close>, the API keys of \<open>app/api/api_clients.py\<close> and the audit log of
  \<open>app/audit/recorder.py\<close>. The key derivation (PBKDF2), random tokens and identifiers and the
  Redis client are parameters. Times are numbers of seconds; a constant-time comparison is an
  equality; the verification a failed look-up spends for its timing is left out.
\<close>

section \<open>Rows\<close>

record operator_row =
  op_id :: string
  op_email :: string
  op_role :: string
  op_password :: "string option"

record client_row =
  cl_client :: string
  cl_created :: rat
  cl_name :: string
  cl_prefix :: string
  cl_hash :: string
  cl_active :: bool
  cl_last_used :: "rat option"

record audit_event =
  ae_id :: string
  ae_type :: string
  ae_operator :: "string option"
  ae_client :: "string option"
  ae_run :: "string option"
  ae_submission :: "string option"
  ae_payload :: "(string \<times> json) list"
  ae_at :: rat

record access_env =
  kdf :: "string \<Rightarrow> string \<Rightarrow> int \<Rightarrow> string"
  fresh_uuid :: "nat \<Rightarrow> string"
  fresh_token :: "nat \<Rightarrow> string" \<comment> \<open>\<open>secrets.token_urlsafe(32)\<close>\<close>
  fresh_salt :: "nat \<Rightarrow> string" \<comment> \<open>\<open>secrets.token_bytes(32)\<close>\<close>

record access_state =
  operators :: "operator_row list"
  clients :: "client_row list"
  sessions :: "(string \<times> string \<times> rat) list"
  events :: "audit_event list"
  draws :: nat

definition record_event :: "access_env \<Rightarrow> rat \<Rightarrow> string \<Rightarrow> string option \<Rightarrow> string option
    \<Rightarrow> (string \<times> json) list \<Rightarrow> access_state \<Rightarrow> access_state" where
  "record_event E now type operator client payload st = st
     \<lparr>events := events st @ [\<lparr>ae_id = fresh_uuid E (draws st), ae_type = type, ae_operator = operator,
        ae_client = client, ae_run = None, ae_submission = None, ae_payload = payload, ae_at = now\<rparr>],
      draws := Suc (draws st)\<rparr>"

section \<open>Passwords\<close>

definition hex_char :: "nat \<Rightarrow> char" where
  "hex_char n = char_of (if n < 10 then 48 + n else 87 + n)"

definition hex_nibble :: "char \<Rightarrow> nat option" where
  "hex_nibble c =
    (if is_digit c then Some (of_char c - 48)
     else let n = (of_char (lower_char c) :: nat) in if 97 \<le> n \<and> n \<le> 102 then Some (n - 87) else None)"

definition bytes_hex :: "string \<Rightarrow> string" where
  "bytes_hex s = concat (map (\<lambda>c. let n = (of_char c :: nat) in [hex_char (n div 16), hex_char (n mod 16)]) s)"

fun bytes_fromhex :: "string \<Rightarrow> string option" where
  \<comment> \<open>\<open>bytes.fromhex\<close>, which skips white space between bytes; None is the \<open>ValueError\<close>\<close>
  "bytes_fromhex [] = Some []"
| "bytes_fromhex [c] = (if c \<in> set '' \<newline>'' \<or> of_char c \<in> {9::nat, 11, 12, 13} then Some [] else None)"
| "bytes_fromhex (c # d # r) =
     (if c \<in> set '' \<newline>'' \<or> of_char c \<in> {9::nat, 11, 12, 13} then bytes_fromhex (d # r)
      else do { a \<leftarrow> hex_nibble c; b \<leftarrow> hex_nibble d; s \<leftarrow> bytes_fromhex r; Some (char_of (16 * a + b) # s) })"

definition ITERATIONS :: int where "ITERATIONS = 260000"

definition hash_password :: "access_env \<Rightarrow> string \<Rightarrow> string \<Rightarrow> string" where
  "hash_password E salt password = ''pbkdf2_sha256:260000:'' @ bytes_hex salt @ '':''
     @ bytes_hex (kdf E password salt ITERATIONS)"

definition verify_password :: "access_env \<Rightarrow> string \<Rightarrow> string \<Rightarrow> bool option" where
  \<comment> \<open>None: the key derivation refuses an iteration count below one, which nothing catches\<close>
  "verify_password E password stored = (case split_on CHR '':'' stored of
       [scheme, iterations, salt_hex, digest_hex] \<Rightarrow>
         if scheme \<noteq> ''pbkdf2_sha256'' then Some False
         else (case (py_int iterations, bytes_fromhex salt_hex, bytes_fromhex digest_hex) of
             (Some n, Some salt, Some digest) \<Rightarrow> if n < 1 then None else Some (kdf E password salt n = digest)
           | _ \<Rightarrow> Some False)
     | _ \<Rightarrow> Some False)"

section \<open>Session stores\<close>

text \<open>The in-memory store: a dictionary from tokens to an operator and the end of the session.\<close>

type_synonym session_dict = "(string \<times> string \<times> rat) list"

definition memory_create :: "session_dict \<Rightarrow> rat \<Rightarrow> string \<Rightarrow> string \<Rightarrow> rat \<Rightarrow> session_dict" where
  "memory_create s now token operator ttl = AList.update token (operator, now + ttl) s"

definition memory_get :: "session_dict \<Rightarrow> rat \<Rightarrow> string \<Rightarrow> string option \<times> session_dict" where
  "memory_get s now token = (case map_of s token of
       None \<Rightarrow> (None, s)
     | Some (operator, expires) \<Rightarrow>
         if expires \<le> now then (None, AList.delete token s) else (Some operator, s))"

definition memory_delete :: "session_dict \<Rightarrow> string \<Rightarrow> session_dict" where
  "memory_delete s token = AList.delete token s"

definition memory_clear :: "session_dict \<Rightarrow> session_dict" where
  "memory_clear s = []"

text \<open>The Redis store on the slice of a client it uses.\<close>

record 'r redis =
  setex :: "'r \<Rightarrow> rat \<Rightarrow> string \<Rightarrow> rat \<Rightarrow> string \<Rightarrow> 'r"
  rget :: "'r \<Rightarrow> rat \<Rightarrow> string \<Rightarrow> string option"
  rdelete :: "'r \<Rightarrow> string \<Rightarrow> 'r"
  rkeys :: "'r \<Rightarrow> string \<Rightarrow> string list" \<comment> \<open>\<open>scan_iter\<close> of a prefix\<close>

definition SESSION_PREFIX :: string where "SESSION_PREFIX = ''entityiq:session:''"

definition redis_create :: "'r redis \<Rightarrow> 'r \<Rightarrow> rat \<Rightarrow> string \<Rightarrow> string \<Rightarrow> rat \<Rightarrow> 'r" where
  "redis_create C s now token operator ttl = setex C s now (SESSION_PREFIX @ token) ttl operator"

definition redis_get :: "'r redis \<Rightarrow> 'r \<Rightarrow> rat \<Rightarrow> string \<Rightarrow> string option \<times> 'r" where
  "redis_get C s now token = (rget C s now (SESSION_PREFIX @ token), s)"

definition redis_delete :: "'r redis \<Rightarrow> 'r \<Rightarrow> string \<Rightarrow> 'r" where
  "redis_delete C s token = rdelete C s (SESSION_PREFIX @ token)"

definition redis_clear :: "'r redis \<Rightarrow> 'r \<Rightarrow> 'r" where
  "redis_clear C s = fold (\<lambda>k s. rdelete C s k) (rkeys C s SESSION_PREFIX) s"

text \<open>What a session store promises, whatever keeps the sessions.\<close>

datatype session_op = Open rat string string rat | Look rat string | Close string

fun looked_before :: "rat \<Rightarrow> session_op \<Rightarrow> bool" where
  "looked_before now (Look t k) = (t \<le> now)"
| "looked_before now _ = True"

fun recall :: "rat \<Rightarrow> string \<Rightarrow> session_op \<Rightarrow> string option \<Rightarrow> string option" where
  \<comment> \<open>who holds token \<open>k\<close> at time \<open>now\<close>, after one more operation\<close>
  "recall now k (Open t k' op ttl) holder = (if k = k' then if now < t + ttl then Some op else None else holder)"
| "recall now k (Close k') holder = (if k = k' then None else holder)"
| "recall now k (Look t k') holder = holder"

fun apply_op :: "('s \<Rightarrow> rat \<Rightarrow> string \<Rightarrow> string \<Rightarrow> rat \<Rightarrow> 's) \<Rightarrow> ('s \<Rightarrow> rat \<Rightarrow> string \<Rightarrow> string option \<times> 's)
    \<Rightarrow> ('s \<Rightarrow> string \<Rightarrow> 's) \<Rightarrow> session_op \<Rightarrow> 's \<Rightarrow> 's" where
  "apply_op create get delete (Open t k op ttl) s = create s t k op ttl"
| "apply_op create get delete (Look t k) s = snd (get s t k)"
| "apply_op create get delete (Close k) s = delete s k"

locale session_store =
  fixes create :: "'s \<Rightarrow> rat \<Rightarrow> string \<Rightarrow> string \<Rightarrow> rat \<Rightarrow> 's"
    and get :: "'s \<Rightarrow> rat \<Rightarrow> string \<Rightarrow> string option \<times> 's"
    and delete :: "'s \<Rightarrow> string \<Rightarrow> 's"
    and clear :: "'s \<Rightarrow> 's"
  assumes get_created: "fst (get (create s t k op ttl) t' k') =
      (if k' = k then if t' < t + ttl then Some op else None else fst (get s t' k'))"
    and get_deleted: "fst (get (delete s k) t' k') = (if k' = k then None else fst (get s t' k'))"
    and get_cleared: "fst (get (clear s) t' k') = None"
    and get_kept: "t \<le> t' \<Longrightarrow> fst (get (snd (get s t k)) t' k') = fst (get s t' k')"
begin

text \<open>A look-up answers what the history of openings and closings says.\<close>

lemma history:
  assumes "list_all (looked_before now) ops"
  shows "fst (get (fold (apply_op create get delete) ops s) now k) = fold (recall now k) ops (fst (get s now k))"
  using assms
proof (induction ops arbitrary: s)
  case (Cons x xs)
  then show ?case by (cases x) (simp_all add: get_created get_deleted get_kept)
qed simp

lemma expires: "fst (get (create s t k op ttl) t' k) = Some op' \<longleftrightarrow> op' = op \<and> t' < t + ttl"
  by (auto simp: get_created)

lemma signed_out: "fst (get (delete s k) t' k) = None"
  by (simp add: get_deleted)

end

interpretation memory: session_store memory_create memory_get memory_delete memory_clear
  by unfold_locales (auto simp: memory_create_def memory_get_def memory_delete_def memory_clear_def
      update_conv' delete_conv' split: option.splits)

definition redis_ok :: "'r redis \<Rightarrow> bool" where
  "redis_ok C =
    ((\<forall>s t k ttl v t' k'. rget C (setex C s t k ttl v) t' k'
        = (if k' = k then if t' < t + ttl then Some v else None else rget C s t' k'))
     \<and> (\<forall>s k t' k'. rget C (rdelete C s k) t' k' = (if k' = k then None else rget C s t' k'))
     \<and> (\<forall>s p k t'. prefix p k \<longrightarrow> rget C s t' k \<noteq> None \<longrightarrow> k \<in> set (rkeys C s p)))"

section \<open>Signing in and out\<close>

definition operator_by_email :: "string \<Rightarrow> access_state \<Rightarrow> operator_row option" where
  "operator_by_email email st = find (\<lambda>r. op_email r = email) (operators st)"

definition operator_by_id :: "string \<Rightarrow> access_state \<Rightarrow> operator_row option" where
  "operator_by_id i st = find (\<lambda>r. op_id r = i) (operators st)"

definition sign_in :: "access_env \<Rightarrow> rat \<Rightarrow> rat \<Rightarrow> string \<Rightarrow> string \<Rightarrow> access_state
    \<Rightarrow> (string option \<times> access_state) option" where
  \<comment> \<open>None is an exception of the key derivation\<close>
  "sign_in E ttl now email password st = (case operator_by_email email st of
       None \<Rightarrow> Some (None, st)
     | Some oper \<Rightarrow>
         if \<not> truthy (op_password oper) then Some (None, st)
         else (case verify_password E password (the (op_password oper)) of
             None \<Rightarrow> None
           | Some False \<Rightarrow> Some (None, st)
           | Some True \<Rightarrow>
               let token = fresh_token E (draws st)
               in Some (Some token, st\<lparr>sessions := memory_create (sessions st) now token (op_id oper) ttl,
                    draws := Suc (draws st)\<rparr>)))"

definition extract_bearer_token :: "string option \<Rightarrow> string option" where
  "extract_bearer_token authorization =
    (if \<not> truthy authorization then None
     else let s = str_strip (the authorization) in
       case dropWhile (\<lambda>c. c \<noteq> CHR '' '') s of
         [] \<Rightarrow> None
       | _ # rest \<Rightarrow> if str_lower (takeWhile (\<lambda>c. c \<noteq> CHR '' '') s) = ''bearer'' then Some rest else None)"

definition operator_id_from_token :: "rat \<Rightarrow> string \<Rightarrow> access_state \<Rightarrow> string option \<times> access_state" where
  "operator_id_from_token now token st =
    (case memory_get (sessions st) now token of (holder, s) \<Rightarrow> (holder, st\<lparr>sessions := s\<rparr>))"

definition operator_sign_out :: "string option \<Rightarrow> access_state \<Rightarrow> access_state" where
  "operator_sign_out authorization st = (case extract_bearer_token authorization of
       None \<Rightarrow> st
     | Some token \<Rightarrow> if token = [] then st else st\<lparr>sessions := memory_delete (sessions st) token\<rparr>)"

definition operator_sign_in :: "access_env \<Rightarrow> rat \<Rightarrow> rat \<Rightarrow> string \<Rightarrow> string \<Rightarrow> access_state
    \<Rightarrow> (string \<times> string \<times> string) reply \<times> access_state" where
  \<comment> \<open>answers the token, the operator and the role\<close>
  "operator_sign_in E ttl now email password st = (case sign_in E ttl now email password st of
       None \<Rightarrow> (Refused 500, st)
     | Some (None, st) \<Rightarrow> (Refused 401, st)
     | Some (Some token, st) \<Rightarrow> (case operator_by_email email st of
         None \<Rightarrow> (Refused 500, st)
       | Some oper \<Rightarrow> (Served (token, op_id oper, op_role oper),
           record_event E now ''operator.sign_in'' (Some (op_id oper)) None [(''email'', JText email)] st)))"

definition get_current_operator :: "rat \<Rightarrow> string option \<Rightarrow> access_state \<Rightarrow> operator_row reply \<times> access_state" where
  "get_current_operator now authorization st = (case extract_bearer_token authorization of
       None \<Rightarrow> (Refused 401, st)
     | Some token \<Rightarrow> (case operator_id_from_token now token st of (holder, st) \<Rightarrow>
         (case Option.bind holder (\<lambda>i. operator_by_id i st) of
            None \<Rightarrow> (Refused 401, st)
          | Some oper \<Rightarrow> (Served oper, st))))"

definition require_lead :: "access_env \<Rightarrow> rat \<Rightarrow> string option \<Rightarrow> access_state \<Rightarrow> operator_row reply \<times> access_state" where
  "require_lead E now authorization st = (case get_current_operator now authorization st of
       (Refused n, st) \<Rightarrow> (Refused n, st)
     | (Served oper, st) \<Rightarrow>
         if op_role oper \<noteq> ''lead''
         then (Refused 403, record_event E now ''operator.access_denied'' (Some (op_id oper)) None [] st)
         else (Served oper, st))"

definition require_lead_or_examiner :: "rat \<Rightarrow> string option \<Rightarrow> access_state \<Rightarrow> operator_row reply \<times> access_state" where
  "require_lead_or_examiner now authorization st = (case get_current_operator now authorization st of
       (Refused n, st) \<Rightarrow> (Refused n, st)
     | (Served oper, st) \<Rightarrow>
         if op_role oper \<in> {''lead'', ''examiner''} then (Served oper, st) else (Refused 403, st))"

section \<open>API keys\<close>

definition API_KEY_PREFIX :: string where "API_KEY_PREFIX = ''eiq_''"

definition PREFIX_LEN :: nat where "PREFIX_LEN = 12"

definition create_api_client :: "access_env \<Rightarrow> rat \<Rightarrow> string \<Rightarrow> access_state \<Rightarrow> (client_row \<times> string \<times> access_state) option" where
  \<comment> \<open>None is the \<open>IntegrityError\<close> of the unique name or prefix\<close>
  "create_api_client E now name st =
    (let full_key = API_KEY_PREFIX @ fresh_token E (draws st); key_prefix = take PREFIX_LEN full_key;
         row = \<lparr>cl_client = fresh_uuid E (draws st), cl_created = now, cl_name = name, cl_prefix = key_prefix,
           cl_hash = hash_password E (fresh_salt E (draws st)) full_key, cl_active = True, cl_last_used = None\<rparr>
     in if list_ex (\<lambda>c. cl_name c = name \<or> cl_prefix c = key_prefix) (clients st) then None
        else Some (row, full_key, st\<lparr>clients := clients st @ [row], draws := Suc (draws st)\<rparr>))"

definition resolve_api_client :: "access_env \<Rightarrow> rat \<Rightarrow> string option \<Rightarrow> access_state
    \<Rightarrow> (client_row option \<times> access_state) option" where
  "resolve_api_client E now api_key st =
    (if \<not> truthy api_key \<or> length (the api_key) \<le> PREFIX_LEN then Some (None, st)
     else case find (\<lambda>c. cl_prefix c = take PREFIX_LEN (the api_key)) (clients st) of
         None \<Rightarrow> Some (None, st)
       | Some c \<Rightarrow>
           if \<not> cl_active c then Some (None, st)
           else (case verify_password E (the api_key) (cl_hash c) of
               None \<Rightarrow> None
             | Some False \<Rightarrow> Some (None, st)
             | Some True \<Rightarrow>
                 let used = c\<lparr>cl_last_used := Some now\<rparr>
                 in Some (Some used, st\<lparr>clients := update_first (\<lambda>x. cl_prefix x = cl_prefix c)
                      (\<lambda>x. x\<lparr>cl_last_used := Some now\<rparr>) (clients st)\<rparr>)))"

definition get_current_api_client :: "access_env \<Rightarrow> rat \<Rightarrow> string option \<Rightarrow> access_state \<Rightarrow> client_row reply \<times> access_state" where
  "get_current_api_client E now api_key st = (case resolve_api_client E now api_key st of
       None \<Rightarrow> (Refused 500, st)
     | Some (None, st) \<Rightarrow> (Refused 401, st)
     | Some (Some c, st) \<Rightarrow> (Served c, st))"

datatype principal_kind = OperatorKind | SystemKind

record principal =
  pr_kind :: principal_kind
  pr_id :: string
  pr_name :: string
  pr_operator :: "string option"
  pr_client :: "string option"

definition get_principal :: "access_env \<Rightarrow> rat \<Rightarrow> string option \<Rightarrow> string option \<Rightarrow> access_state
    \<Rightarrow> principal reply \<times> access_state" where
  "get_principal E now api_key authorization st =
    (if truthy api_key then (case get_current_api_client E now api_key st of
         (Refused n, st) \<Rightarrow> (Refused n, st)
       | (Served c, st) \<Rightarrow> (Served \<lparr>pr_kind = SystemKind, pr_id = cl_client c, pr_name = cl_name c,
           pr_operator = None, pr_client = Some (cl_client c)\<rparr>, st))
     else (case get_current_operator now authorization st of
         (Refused n, st) \<Rightarrow> (Refused n, st)
       | (Served oper, st) \<Rightarrow> (Served \<lparr>pr_kind = OperatorKind, pr_id = op_id oper, pr_name = op_email oper,
           pr_operator = Some (op_id oper), pr_client = None\<rparr>, st)))"

text \<open>The endpoints behind the lead role.\<close>

definition create_client :: "access_env \<Rightarrow> rat \<Rightarrow> string option \<Rightarrow> string \<Rightarrow> access_state
    \<Rightarrow> (client_row \<times> string) reply \<times> access_state" where
  "create_client E now authorization raw_name st = (case require_lead E now authorization st of
       (Refused n, st) \<Rightarrow> (Refused n, st)
     | (Served lead, st) \<Rightarrow>
         let name = str_strip raw_name in
         if name = [] then (Refused 422, st)
         else if list_ex (\<lambda>c. cl_name c = name) (clients st) then (Refused 409, st)
         else (case create_api_client E now name st of
             None \<Rightarrow> (Refused 409, st)
           | Some (row, full_key, st) \<Rightarrow> (Served (row, full_key),
               record_event E now ''operator.api_client_created'' (Some (op_id lead)) None
                 [(''api_client_id'', JText (cl_client row)), (''name'', JText (cl_name row))] st)))"

definition list_clients :: "access_env \<Rightarrow> rat \<Rightarrow> string option \<Rightarrow> access_state
    \<Rightarrow> (string \<times> string \<times> string \<times> bool \<times> rat \<times> rat option) list reply \<times> access_state" where
  "list_clients E now authorization st = (case require_lead E now authorization st of
       (Refused n, st) \<Rightarrow> (Refused n, st)
     | (Served lead, st) \<Rightarrow> (Served (map (\<lambda>c. (cl_client c, cl_name c, cl_prefix c, cl_active c, cl_created c, cl_last_used c))
         (sort_key (\<lambda>c. - cl_created c) (clients st))), st))"

definition revoke_client :: "access_env \<Rightarrow> rat \<Rightarrow> string option \<Rightarrow> string \<Rightarrow> access_state
    \<Rightarrow> (string \<times> string \<times> bool) reply \<times> access_state" where
  "revoke_client E now authorization client_id st = (case require_lead E now authorization st of
       (Refused n, st) \<Rightarrow> (Refused n, st)
     | (Served lead, st) \<Rightarrow> (case find (\<lambda>c. cl_client c = client_id) (clients st) of
         None \<Rightarrow> (Refused 404, st)
       | Some c \<Rightarrow>
           let st' = st\<lparr>clients := update_first (\<lambda>x. cl_client x = client_id) (\<lambda>x. x\<lparr>cl_active := False\<rparr>) (clients st)\<rparr>
           in (Served (cl_client c, cl_name c, False),
               if cl_active c then record_event E now ''operator.api_client_revoked'' (Some (op_id lead)) None
                 [(''api_client_id'', JText (cl_client c)), (''name'', JText (cl_name c))] st'
               else st')))"

section \<open>Examiners only read\<close>

definition READ_METHODS :: "string list" where
  "READ_METHODS = [''GET'', ''HEAD'', ''OPTIONS'']"

definition line_end :: "string \<Rightarrow> bool" where
  \<comment> \<open>where \<open>$\<close> matches: at the end or before a final line feed\<close>
  "line_end s = (s = [] \<or> s = [CHR 0x0A])"

definition sign_path :: "string \<Rightarrow> bool" where
  "sign_path path = list_ex (\<lambda>p. take (length p) path = p \<and> line_end (drop (length p) path))
     [''/auth/sign-in'', ''/auth/sign-out'']"

definition replay_path :: "string \<Rightarrow> bool" where
  "replay_path path =
    (let front = ''/screenings/''; rest = drop (length front) path; run = takeWhile (\<lambda>c. c \<noteq> CHR ''/'') rest
     in take (length front) path = front \<and> run \<noteq> []
        \<and> take 7 (drop (length run) rest) = ''/replay'' \<and> line_end (drop (length run + 7) rest))"

definition forbid_examiner_writes :: "access_env \<Rightarrow> rat \<Rightarrow> string \<Rightarrow> string \<Rightarrow> string option \<Rightarrow> access_state
    \<Rightarrow> unit reply \<times> access_state" where
  "forbid_examiner_writes E now method path authorization st =
    (if method \<in> set READ_METHODS \<or> sign_path path \<or> replay_path path then (Served (), st)
     else case extract_bearer_token authorization of
         None \<Rightarrow> (Served (), st)
       | Some token \<Rightarrow> (case operator_id_from_token now token st of (holder, st) \<Rightarrow>
           (case Option.bind holder (\<lambda>i. operator_by_id i st) of
              None \<Rightarrow> (Served (), st)
            | Some oper \<Rightarrow>
                if op_role oper \<noteq> ''examiner'' then (Served (), st)
                else (Refused 403, record_event E now ''operator.access_denied'' (Some (op_id oper)) None
                  [(''reason'', JText ''examiner_read_only''), (''method'', JText method), (''path'', JText path)] st))))"

end
