(* ===== verification/Report_View.thy ===== *)
theory Report_View
  imports Report Scoring_Samples Access
begin

text \<open>
  Who sees what of a report: \<open>app/auth/pii.py\<close>. The redaction works on the stored summary; the
  operators' table is a function from identifiers to roles.
\<close>

section \<open>Viewers\<close>

datatype viewer = Lead | Operator | System

definition resolve_viewer :: "(string \<Rightarrow> string option) \<Rightarrow> principal \<Rightarrow> viewer" where
  "resolve_viewer role_of p =
    (if pr_kind p \<noteq> OperatorKind then System
     else if truthy (pr_operator p) \<and> Option.bind (pr_operator p) role_of = Some ''lead'' then Lead
     else Operator)"

section \<open>Redaction\<close>

definition NETWORK_METADATA_SOURCE :: string where
  "NETWORK_METADATA_SOURCE = ''ipinfo''"

definition REQUESTER_ASSOCIATION_EVIDENCE_FIELDS :: "string list" where
  "REQUESTER_ASSOCIATION_EVIDENCE_FIELDS = [''linkedin_requester_match'']"

definition CONTACT_PII_MISMATCH_FIELDS :: "string list" where
  "CONTACT_PII_MISMATCH_FIELDS = [''billing_address'']"

definition REDACTED :: string where
  "REDACTED = ''[redacted]''"

definition item_payload :: "evidence_item \<Rightarrow> (string \<times> json) list" where
  "item_payload i = (case ei_payload i of None \<Rightarrow> [] | Some d \<Rightarrow> d)"

definition names_a_person :: "evidence_item \<Rightarrow> bool" where
  "names_a_person i =
    (if ei_field i \<noteq> Some ''public_record'' then False
     else \<not> (jget (item_payload i) ''match'' = JText ''strong''
       \<and> jget (item_payload i) ''kind'' \<in> {JText ''bankruptcy'', JText ''federal_exclusion''}
       \<and> jget (item_payload i) ''classification'' \<noteq> JText ''Individual''))"

definition redact_public_record :: "evidence_item \<Rightarrow> evidence_item" where
  "redact_public_record i =
    (if ei_source i \<noteq> PUBLIC_RECORDS_SOURCE \<or> \<not> names_a_person i then i
     else i\<lparr>ei_payload := Some (AList.update ''party_name'' (JText REDACTED) (item_payload i))\<rparr>)"

definition strip_attribution :: "(string \<times> json) list option \<Rightarrow> (string \<times> json) list option" where
  "strip_attribution a = (case a of None \<Rightarrow> None | Some d \<Rightarrow> Some (filter (\<lambda>(k, _). k \<noteq> ''source_url'') d))"

definition on_requester_field :: "evidence_item \<Rightarrow> bool" where
  "on_requester_field i = (case ei_field i of None \<Rightarrow> False | Some f \<Rightarrow> f \<in> set REQUESTER_ASSOCIATION_EVIDENCE_FIELDS)"

definition contact_mismatch :: "mismatch_item \<Rightarrow> bool" where
  "contact_mismatch m = (md_field (mi_detail m) \<in> set CONTACT_PII_MISMATCH_FIELDS)"

fun filter_summary_for_viewer :: "viewer \<Rightarrow> summary \<Rightarrow> summary" where
  "filter_summary_for_viewer Lead s = s"
| "filter_summary_for_viewer Operator s = s
     \<lparr>sm_evidence := map (\<lambda>i. if ei_source i = NETWORK_METADATA_SOURCE
          then i\<lparr>ei_attribution := strip_attribution (ei_attribution i)\<rparr> else i) (sm_evidence s),
      sm_sources := map (\<lambda>i. if so_source i = NETWORK_METADATA_SOURCE
          then i\<lparr>so_attribution := strip_attribution (so_attribution i)\<rparr> else i) (sm_sources s)\<rparr>"
| "filter_summary_for_viewer System s = s
     \<lparr>sm_evidence := map redact_public_record
          (filter (\<lambda>i. ei_source i \<noteq> NETWORK_METADATA_SOURCE \<and> \<not> on_requester_field i) (sm_evidence s)),
      sm_sources := filter (\<lambda>i. so_source i \<noteq> NETWORK_METADATA_SOURCE) (sm_sources s),
      sm_mismatches := filter (\<lambda>m. \<not> contact_mismatch m) (sm_mismatches s)\<rparr>"

definition report_contains_pii :: "summary \<Rightarrow> bool" where
  "report_contains_pii s =
    (list_ex (\<lambda>i. ei_source i = NETWORK_METADATA_SOURCE) (sm_evidence s)
     \<or> list_ex on_requester_field (sm_evidence s)
     \<or> list_ex (\<lambda>i. ei_source i = PUBLIC_RECORDS_SOURCE \<and> names_a_person i) (sm_evidence s)
     \<or> list_ex contact_mismatch (sm_mismatches s))"

section \<open>What each reader sees\<close>

text \<open>A redacted record still counts as naming a person, so what a system sees of it is exactly its
  placeholder.\<close>

lemma redact_keeps [simp]:
  "ei_source (redact_public_record i) = ei_source i" "ei_field (redact_public_record i) = ei_field i"
  by (simp_all add: redact_public_record_def)

lemma redact_on_requester [simp]: "on_requester_field (redact_public_record i) = on_requester_field i"
  by (simp add: on_requester_field_def)

lemma jget_update: "jget (AList.update k v d) j = (if j = k then v else jget d j)"
  by (simp add: jget_def update_conv')

lemma redact_names_a_person [simp]: "names_a_person (redact_public_record i) = names_a_person i"
  by (simp add: redact_public_record_def names_a_person_def item_payload_def jget_update)

lemma redacted_party: "ei_source i = PUBLIC_RECORDS_SOURCE \<Longrightarrow> names_a_person i \<Longrightarrow>
    jget (item_payload (redact_public_record i)) ''party_name'' = JText REDACTED"
  by (simp add: redact_public_record_def item_payload_def jget_update)


text \<open>An operator sees everything but the address behind network evidence, a lead sees everything: for an
  operator the attribution of such evidence and sources has no \<open>source_url\<close>, and apart from
  attributions nothing is changed or left out.\<close>

theorem operator_view_complete:
  "(let v = filter_summary_for_viewer Operator s in
      (\<lambda>i. map_of (case ei_attribution i of None \<Rightarrow> [] | Some d \<Rightarrow> d) ''source_url'')
         ` {i \<in> set (sm_evidence v). ei_source i = NETWORK_METADATA_SOURCE} \<subseteq> {None}
    \<and> (\<lambda>i. map_of (case so_attribution i of None \<Rightarrow> [] | Some d \<Rightarrow> d) ''source_url'')
         ` {i \<in> set (sm_sources v). so_source i = NETWORK_METADATA_SOURCE} \<subseteq> {None}
    \<and> map (\<lambda>i. i\<lparr>ei_attribution := None\<rparr>) (sm_evidence v) = map (\<lambda>i. i\<lparr>ei_attribution := None\<rparr>) (sm_evidence s)
    \<and> map (\<lambda>i. i\<lparr>so_attribution := None\<rparr>) (sm_sources v) = map (\<lambda>i. i\<lparr>so_attribution := None\<rparr>) (sm_sources s)
    \<and> v\<lparr>sm_evidence := sm_evidence s, sm_sources := sm_sources s\<rparr> = s
    \<and> filter_summary_for_viewer Lead s = s)"
proof -
  have gone: "map_of (filter (\<lambda>(k, _). k \<noteq> ''source_url'') d) ''source_url'' = None" for d :: "(string \<times> json) list"
    by (induction d) auto
  show ?thesis unfolding Let_def by (auto simp: strip_attribution_def gone split: option.splits)
qed

text \<open>The submitted address still reaches an integration key: when it contradicts the registry, the
  signal stored with the scores quotes it, and the scores are passed on as they are, although the
  comparison itself is withheld.\<close>

theorem address_reaches_system_view:
  assumes "fc_by_field fcs ''billing_address'' = Some fc" and "match_status fc = ''mismatch''"
  shows "\<exists>scores. sm_scores (filter_summary_for_viewer System (build_summary rows fcs (Some (assess_run today q fcs)) av)) = Some scores
    \<and> (\<exists>s \<in> set (ss_signals scores). sig_name s = ''billing_address_mismatch''
         \<and> sig_detail s = Values (submitted_value fc) (discovered_value fc))"
proof -
  let ?rows = "filter (\<lambda>e. ev_run e = this_run q) (all_rows q)"
  let ?s = "signal_of ''billing_address_mismatch'' Representation Elevated (dec 25 2)
     (Values (submitted_value fc) (discovered_value fc)) (fc_ids fc)"
  have "?s \<in> set (comparison_signals fcs)"
    using assms by (simp add: comparison_signals_def field_labels_def compare_field_def)
  moreover have "fcs \<noteq> []" using assms(1) by (auto simp: fc_by_field_def)
  ultimately have "?s \<in> set (representation_confidence_signals today ?rows fcs)"
    by (auto simp: representation_confidence_signals_def Let_def)
  then have "?s \<in> set (contributing_signals (engine_score today (Some q) ?rows fcs))"
    by (simp add: engine_score_def Let_def case_prod_beta score_representation_confidence_def score_unless_def)
  then have member: "?s \<in> set (ss_signals (score_summary_of (assess_run today q fcs)))"
    by (simp add: score_summary_of_def assess_run_def Let_def)
  have "sm_scores (filter_summary_for_viewer System (build_summary rows fcs (Some (assess_run today q fcs)) av))
      = Some (score_summary_of (assess_run today q fcs))" by (simp add: build_summary_def)
  moreover have "sig_detail ?s = Values (submitted_value fc) (discovered_value fc)" by (simp add: signal_of_def)
  ultimately show ?thesis using member signal_of_simps(1) by blast
qed

section \<open>Examples\<close>

definition address_comparison :: field_comparison where
  "address_comparison = \<lparr>fc_id = ''f2'', evidence_id = Some ''e1'', field_name = ''billing_address'',
     submitted_value = Some ''1 Elm Rd'', discovered_value = Some ''9 Oak St'', match_status = ''mismatch''\<rparr>"

lemma address_reaches_system_view_witness:
  "\<exists>scores. sm_scores (filter_summary_for_viewer System
       (build_summary [] [address_comparison] (Some (assess_run 0 sample_query [address_comparison])) [])) = Some scores
    \<and> (\<exists>s \<in> set (ss_signals scores). sig_name s = ''billing_address_mismatch''
         \<and> sig_detail s = Values (Some ''1 Elm Rd'') (Some ''9 Oak St''))"
  using address_reaches_system_view [of "[address_comparison]" address_comparison "[]" 0 sample_query "[]"]
  by (simp add: address_comparison_def fc_by_field_def)

lemma explainability_attributes_witness:
  "map_of (xp_coverage (build_explainability (engine_score 0 None [clean_row, sanctions_row] []) [clean_row, sanctions_row] [])) ''ofac''
     = Some (1, 1)"
  using explainability_attributes [of "[clean_row, sanctions_row]" "engine_score 0 None [clean_row, sanctions_row] []" "[]" "''ofac''"]
  by (simp add: clean_row_def sanctions_row_def sample_ev_def Let_def)

lemma assemble_report_idempotent_witness:
  "(let once = assemble_report ''r1'' (Some []) [sanctions_row] [] [] 7 [] in
      assemble_report ''r1'' (Some []) [sanctions_row] [] [] 7 once = once \<and> distinct (map rp_run once))"
  using assemble_report_idempotent [of "[]" "''r1''" "Some []" "[sanctions_row]" "[]" "[]" 7] by (simp add: Let_def)

end
