(* ===== verification/Officers.thy ===== *)
theory Officers
  imports Explain Report_View
begin

text \<open>
  The people behind a company: \<open>app/officer_screening/people.py\<close> collects declared and registered
  officers and owners into one list, \<open>screen.py\<close> screens each of them in a run of the screening
  pipeline and records the outcome as evidence. The registry is outside: its answer is an input,
  None when it cannot be asked. Run without time budgets, a stage of the inner run can only be cut
  short by the task limit.
\<close>

section \<open>Collecting people\<close>

datatype person_source = Declared | Registry string "string option"

record raw_person =
  rw_name :: string
  rw_relationship :: string
  rw_role :: "string option"
  rw_dob :: "string option"
  rw_nationality :: "string option"
  rw_ownership :: "rat option"
  rw_locator :: "string option"

record person =
  pe_name :: string
  pe_relationships :: "string list"
  pe_roles :: "string list"
  pe_sources :: "person_source list"
  pe_dob :: "string option"
  pe_nationality :: "string option"
  pe_ownership :: "rat option"

definition person_key :: "textlib \<Rightarrow> string option \<Rightarrow> string" where
  "person_key L name = str_join '' '' (tokens L name)"

definition starts_with :: "string \<Rightarrow> string \<Rightarrow> bool" where
  "starts_with s p = (take (length p) s = p)"

definition dob_compatible :: "string option \<Rightarrow> string option \<Rightarrow> bool" where
  "dob_compatible a b = (\<not> truthy a \<or> \<not> truthy b \<or> starts_with (the a) (the b) \<or> starts_with (the b) (the a))"

definition person_record :: "raw_person \<Rightarrow> person_source \<Rightarrow> person" where
  "person_record raw src = \<lparr>pe_name = str_join '' '' (str_split (rw_name raw)),
     pe_relationships = [rw_relationship raw], pe_roles = (if truthy (rw_role raw) then [the (rw_role raw)] else []),
     pe_sources = [src], pe_dob = rw_dob raw, pe_nationality = rw_nationality raw,
     pe_ownership = rw_ownership raw\<rparr>"

definition first_some :: "'a option \<Rightarrow> 'a option \<Rightarrow> 'a option" where
  "first_some x y = (case x of None \<Rightarrow> y | Some _ \<Rightarrow> x)"

definition same_person :: "textlib \<Rightarrow> person \<Rightarrow> person \<Rightarrow> bool" where
  "same_person L p q = (person_key L (Some (pe_name p)) = person_key L (Some (pe_name q))
     \<and> dob_compatible (pe_dob p) (pe_dob q))"

definition add_relationship :: "string \<Rightarrow> string list \<Rightarrow> string list" where
  "add_relationship r rs = (if r \<in> set rs then rs else sort (rs @ [r]))"

definition add_role :: "string \<Rightarrow> string list \<Rightarrow> string list" where
  "add_role r rs = (if r \<in> set rs then rs else rs @ [r])"

definition absorb :: "person \<Rightarrow> person \<Rightarrow> person" where
  "absorb incoming p = p\<lparr>pe_relationships := fold add_relationship (pe_relationships incoming) (pe_relationships p),
     pe_roles := fold add_role (pe_roles incoming) (pe_roles p),
     pe_sources := pe_sources p @ pe_sources incoming,
     pe_dob := first_some (pe_dob p) (pe_dob incoming),
     pe_nationality := first_some (pe_nationality p) (pe_nationality incoming),
     pe_ownership := first_some (pe_ownership p) (pe_ownership incoming)\<rparr>"

definition merge_person :: "textlib \<Rightarrow> person \<Rightarrow> person list \<Rightarrow> person list" where
  "merge_person L incoming people =
    (if list_ex (\<lambda>p. same_person L p incoming) people
     then update_first (\<lambda>p. same_person L p incoming) (absorb incoming) people
     else people @ [incoming])"

definition collect_people :: "textlib \<Rightarrow> raw_person list \<Rightarrow> string \<Rightarrow> raw_person list option \<Rightarrow> string \<times> person list" where
  "collect_people L declared provider answer =
    (let people = fold (\<lambda>raw. merge_person L (person_record raw Declared)) declared [];
         found = (case answer of None \<Rightarrow> [] | Some rs \<Rightarrow> rs)
     in (if answer = None then ''unavailable'' else ''complete'',
         fold (\<lambda>raw. merge_person L (person_record raw (Registry provider
           (if truthy (rw_locator raw) then rw_locator raw else None)))) found people))"

section \<open>Linking people to a company\<close>

record company_person =
  cp_id :: string
  cp_entity :: string
  cp_first_run :: "string option"
  cp_subject :: string
  cp_relationship :: string
  cp_role :: "string option"
  cp_sources :: "person_source list"
  cp_ownership :: "rat option"

record 'c kyb_state =
  ks_db :: "'c screening_db"
  ks_links :: "company_person list"
  ks_rows :: "evidence list"

definition person_pii :: "person \<Rightarrow> subject" where
  "person_pii p = \<lparr>subj_name = Some (pe_name p), original_script_name = None, aliases = [],
     subj_dob = (if truthy (pe_dob p) then pe_dob p else None),
     nationality = (if truthy (pe_nationality p) then pe_nationality p else None), pob = None, subj_documents = []\<rparr>"

definition merged_pii :: "person \<Rightarrow> subject \<Rightarrow> subject" where
  \<comment> \<open>stored attributes have no empty keys: one is absent exactly when it is None\<close>
  "merged_pii p known = known\<lparr>subj_name := first_some (subj_name known) (subj_name (person_pii p)),
     subj_dob := first_some (subj_dob known) (subj_dob (person_pii p)),
     nationality := first_some (nationality known) (nationality (person_pii p))\<rparr>"

definition known_subject :: "'c screening_env \<Rightarrow> 'c screening_db \<Rightarrow> 'c subject_row
    \<Rightarrow> (string \<times> subject) list \<Rightarrow> (string \<times> subject) list option" where
  "known_subject E db s known = (case get_subject_pii (cipher E) (master_setting E) s (subject_keys db) of
       Inl CryptoNotConfigured \<Rightarrow> None
     | Inl _ \<Rightarrow> Some known
     | Inr (Frozen _) \<Rightarrow> None
     | Inr (Pii p) \<Rightarrow> Some (known @ [(s_id s, p)]))"

fun known_subjects_from :: "'c screening_env \<Rightarrow> 'c screening_db \<Rightarrow> 'c subject_row list
    \<Rightarrow> (string \<times> subject) list \<Rightarrow> (string \<times> subject) list option" where
  "known_subjects_from E db [] known = Some known"
| "known_subjects_from E db (s # ss) known =
     do { known' \<leftarrow> known_subject E db s known; known_subjects_from E db ss known' }"

definition known_subjects :: "'c screening_env \<Rightarrow> string \<Rightarrow> 'c kyb_state \<Rightarrow> (string \<times> subject) list option" where
  "known_subjects E entity st =
    (let linked = cp_subject ` set (filter (\<lambda>l. cp_entity l = entity) (ks_links st))
     in known_subjects_from E (ks_db st) (filter (\<lambda>s. s_id s \<in> linked) (subjects (ks_db st))) [])"

definition store_pii :: "'c screening_env \<Rightarrow> string \<Rightarrow> subject \<Rightarrow> 'c screening_db \<Rightarrow> 'c screening_db option" where
  "store_pii E sid value db = do {
     row \<leftarrow> row_by s_id sid (subjects db);
     (case set_subject_pii (cipher E) (master_setting E) (random E) (Pii value) row (subject_keys db) of
        Inl _ \<Rightarrow> None
      | Inr (row', keys) \<Rightarrow> Some (db\<lparr>subjects := update_row s_id sid (\<lambda>_. row') (subjects db), subject_keys := keys\<rparr>))
   }"

definition subject_for :: "'c screening_env \<Rightarrow> string \<Rightarrow> person \<Rightarrow> 'c screening_db \<times> (string \<times> subject) list
    \<Rightarrow> (string \<times> 'c screening_db \<times> (string \<times> subject) list) option" where
  "subject_for E entity p state = (case state of (db, known) \<Rightarrow>
     (case find (\<lambda>(sid, q). person_key (lib E) (subj_name q) = person_key (lib E) (Some (pe_name p))
           \<and> dob_compatible (subj_dob q) (pe_dob p)) known of
        Some (sid, q) \<Rightarrow>
          if merged_pii p q \<noteq> q then do { db' \<leftarrow> store_pii E sid (merged_pii p q) db; Some (sid, db', known) }
          else Some (sid, db, known)
      | None \<Rightarrow> do {
          let sid = uuid E (next_id db);
          let row = \<lparr>s_id = sid, pii = None, relationship_ended_at = None, shredded_at = None, kyb_entity = Some entity\<rparr>;
          db' \<leftarrow> store_pii E sid (person_pii p) (db\<lparr>subjects := subjects db @ [row], next_id := Suc (next_id db)\<rparr>);
          Some (sid, db', known @ [(sid, person_pii p)])
        }))"

definition links_to :: "string \<Rightarrow> string \<Rightarrow> string \<Rightarrow> company_person \<Rightarrow> bool" where
  "links_to entity sid rel l = (cp_entity l = entity \<and> cp_subject l = sid \<and> cp_relationship l = rel)"

definition link_one :: "'c screening_env \<Rightarrow> string \<Rightarrow> string \<Rightarrow> string \<Rightarrow> person \<Rightarrow> string
    \<Rightarrow> 'c screening_db \<times> company_person list \<times> string list \<Rightarrow> 'c screening_db \<times> company_person list \<times> string list" where
  "link_one E entity rid sid p rel state = (case state of (db, links, out) \<Rightarrow>
     let (db, links) = (if list_ex (links_to entity sid rel) links then (db, links)
           else (db\<lparr>next_id := Suc (next_id db)\<rparr>, links @ [\<lparr>cp_id = uuid E (next_id db), cp_entity = entity,
             cp_first_run = Some rid, cp_subject = sid, cp_relationship = rel, cp_role = None, cp_sources = [],
             cp_ownership = None\<rparr>]));
         links = update_first (links_to entity sid rel) (\<lambda>l. l
           \<lparr>cp_role := (if pe_roles p \<noteq> [] then Some (hd (pe_roles p)) else cp_role l), cp_sources := pe_sources p,
            cp_ownership := (if rel = ''owner'' \<and> pe_ownership p \<noteq> None then pe_ownership p else cp_ownership l)\<rparr>) links
     in (db, links, out @ (case find (links_to entity sid rel) links of None \<Rightarrow> [] | Some l \<Rightarrow> [cp_id l])))"

definition link_person :: "'c screening_env \<Rightarrow> string \<Rightarrow> string \<Rightarrow> string \<Rightarrow> person
    \<Rightarrow> 'c screening_db \<times> company_person list \<Rightarrow> 'c screening_db \<times> company_person list \<times> string list" where
  "link_person E entity rid sid p state =
     fold (link_one E entity rid sid p) (pe_relationships p) (fst state, snd state, [])"

section \<open>Screening people\<close>

fun disposition_text :: "disposition \<Rightarrow> string" where
  "disposition_text CLEAR = ''CLEAR''"
| "disposition_text REVIEW = ''REVIEW''"
| "disposition_text MATCH = ''MATCH''"

fun source_json :: "person_source \<Rightarrow> json" where
  "source_json Declared = JDict [(''source'', JText ''declared''), (''locator'', JText ''submission'')]"
| "source_json (Registry provider loc) = JDict ([(''source'', JText ''registry''), (''provider'', JText provider)]
     @ (case loc of None \<Rightarrow> [] | Some l \<Rightarrow> [(''locator'', JText l)]))"

definition json_opt :: "('a \<Rightarrow> json) \<Rightarrow> 'a option \<Rightarrow> json" where
  "json_opt f x = (case x of None \<Rightarrow> JNull | Some v \<Rightarrow> f v)"

definition officer_evidence :: "string \<Rightarrow> string \<Rightarrow> int \<Rightarrow> person \<Rightarrow> string \<Rightarrow> string list \<Rightarrow> screening_run
    \<Rightarrow> 'c decision_row option \<Rightarrow> evidence" where
  "officer_evidence i rid time p sid link_ids run decision =
    (let value = (case decision of None \<Rightarrow> ''unavailable'' | Some d \<Rightarrow> disposition_text (dec_disposition d))
     in \<lparr>ev_id = i, ev_run = rid, source = OFFICER_SCREENING_SOURCE, tier = 1,
         ev_field = Some OFFICER_SCREENING_FIELD, raw_value = Some value, normalized_value = Some value,
         raw_payload = Some
           [(''company_person_ids'', JList (map JText link_ids)), (''screening_run_id'', JText (sr_id run)),
            (''screening_subject_id'', JText sid), (''screening_status'', JText (run_status (sr_state run))),
            (''relationships'', JList (map JText (pe_relationships p))), (''roles'', JList (map JText (pe_roles p))),
            (''sources'', JList (map source_json (pe_sources p))), (''ownership_pct'', json_opt JFloat (pe_ownership p)),
            (''auto_closed'', json_opt (JBool \<circ> dec_auto_closed) decision),
            (''top_score'', json_opt JFloat (Option.bind decision dec_top_score))],
         fetched_at = Some time, created_at = time, ev_confidence = Some (dec 9 1),
         attribution = Some [(''provider'', JText ''entityiq_individual_screening''), (''screening_run_id'', JText (sr_id run))]\<rparr>)"

definition officer_run :: "'c screening_env \<Rightarrow> string \<Rightarrow> 'c screening_db \<Rightarrow> screening_run" where
  "officer_run E sid db = \<lparr>sr_id = uuid E (next_id db), sr_subject = sid, sr_rule = None, sr_trigger = ''kyb_officer'',
     sr_snapshot = None, sr_prior = None, sr_created = clock E,
     sr_state = \<lparr>run_status = ''pending'', started_at = None, finished_at = None, failure_reason = None,
       availability = []\<rparr>\<rparr>"

definition unhurried :: "bool list \<Rightarrow> timing list" where
  "unhurried limits = map (\<lambda>l. \<lparr>spent = False, overran = False, task_limit = l\<rparr>) limits"

definition screen_person :: "'c screening_env \<Rightarrow> (string \<Rightarrow> bool list \<times> int \<times> int) \<Rightarrow> string \<Rightarrow> string \<Rightarrow> person
    \<Rightarrow> 'c kyb_state \<times> (string \<times> subject) list \<Rightarrow> ('c kyb_state \<times> (string \<times> subject) list) option" where
  \<comment> \<open>\<open>T\<close>: for a screening run, which of its stages the task limit strikes, its start and its finish\<close>
  "screen_person E T rid entity p state = (case state of (st, known) \<Rightarrow> do {
     (sid, db1, known') \<leftarrow> subject_for E entity p (ks_db st, known);
     let (db2, links, link_ids) = link_person E entity rid sid p (db1, ks_links st);
     let run = officer_run E sid db2;
     let db3 = db2\<lparr>runs := runs db2 @ [run], next_id := Suc (next_id db2),
       audit := audit db2 @ [Submitted (sr_id run) sid ''kyb_officer'' rid entity]\<rparr>;
     let (limits, start, finish) = T (sr_id run);
     let db4 = run_screening E (sr_id run) (unhurried limits) start finish db3;
     screened \<leftarrow> row_by sr_id (sr_id run) (runs db4);
     let e = officer_evidence (uuid E (next_id db4)) rid (clock E) p sid link_ids screened
       (find (\<lambda>d. dec_run d = sr_id run) (decisions db4));
     Some (\<lparr>ks_db = db4\<lparr>next_id := Suc (next_id db4)\<rparr>, ks_links = links, ks_rows = ks_rows st @ [e]\<rparr>, known')
   })"

fun screen_all :: "'c screening_env \<Rightarrow> (string \<Rightarrow> bool list \<times> int \<times> int) \<Rightarrow> string \<Rightarrow> string \<Rightarrow> person list
    \<Rightarrow> 'c kyb_state \<times> (string \<times> subject) list \<Rightarrow> ('c kyb_state \<times> (string \<times> subject) list) option" where
  "screen_all E T rid entity [] state = Some state"
| "screen_all E T rid entity (p # ps) state =
     do { state' \<leftarrow> screen_person E T rid entity p state; screen_all E T rid entity ps state' }"

datatype screened = Screened nat | ScreeningNotConfigured

definition screen_people :: "'c screening_env \<Rightarrow> (string \<Rightarrow> bool list \<times> int \<times> int) \<Rightarrow> string \<Rightarrow> string \<Rightarrow> person list
    \<Rightarrow> 'c kyb_state \<Rightarrow> (screened \<times> 'c kyb_state) option" where
  "screen_people E T rid entity people st =
    (if people = [] then Some (Screened 0, st)
     else if \<not> is_configured (master_setting E) then Some (ScreeningNotConfigured, st)
     else do {
       known \<leftarrow> known_subjects E entity st;
       (st', _) \<leftarrow> screen_all E T rid entity people (st, known);
       Some (Screened (length people), st')
     })"

end
