(* ===== verification/Officers_Laws.thy ===== *)
theory Officers_Laws
  imports Officers
begin

text \<open>
  Properties of the people behind a company (\<open>Officers\<close>): one entry per person with every mention
  credited once, one link per relationship, and the outcome of each person's screening as evidence.
\<close>

section \<open>One entry per person\<close>

lemma dob_compatible_none [simp]: "dob_compatible None b" "dob_compatible a None"
  by (simp_all add: dob_compatible_def)

lemma dob_compatible_sym: "dob_compatible a b = dob_compatible b a"
  by (auto simp: dob_compatible_def)

lemma same_person_sym: "same_person L p q = same_person L q p"
  by (auto simp: same_person_def dob_compatible_sym)

lemma absorb_simps [simp]:
  "pe_name (absorb q p) = pe_name p" "pe_dob (absorb q p) = first_some (pe_dob p) (pe_dob q)"
  "pe_sources (absorb q p) = pe_sources p @ pe_sources q"
  by (simp_all add: absorb_def)

lemma first_some_simps [simp]: "first_some (Some x) y = Some x" "first_some None y = y"
  by (simp_all add: first_some_def)

lemma add_relationship_set [simp]: "set (add_relationship r rs) = insert r (set rs)"
  by (auto simp: add_relationship_def)

lemma add_role_set [simp]: "set (add_role r rs) = insert r (set rs)"
  by (auto simp: add_role_def)

lemma fold_insert_set: "(\<And>x acc. set (f x acc) = insert x (set acc)) \<Longrightarrow> set (fold f xs acc) = set xs \<union> set acc"
  by (induction xs arbitrary: acc) auto

lemma absorb_sets [simp]:
  "set (pe_relationships (absorb q p)) = set (pe_relationships q) \<union> set (pe_relationships p)"
  "set (pe_roles (absorb q p)) = set (pe_roles q) \<union> set (pe_roles p)"
  by (simp_all add: absorb_def fold_insert_set)

text \<open>A date of birth, once known, is kept, so merging never makes two entries the same person.\<close>

lemma absorb_apart: "\<not> same_person L p r \<Longrightarrow> \<not> same_person L (absorb q p) r"
  by (cases "pe_dob p") (auto simp: same_person_def)

lemma absorb_apart': "\<not> same_person L r p \<Longrightarrow> \<not> same_person L r (absorb q p)"
  using absorb_apart same_person_sym by metis

definition apart :: "textlib \<Rightarrow> person list \<Rightarrow> bool" where
  "apart L people = sorted_wrt (\<lambda>p q. \<not> same_person L p q) people"

lemma merge_person_apart: "apart L people \<Longrightarrow> apart L (merge_person L q people)"
  unfolding apart_def merge_person_def
  by (auto simp: sorted_wrt_append list_ex_iff intro!: update_first_sorted_wrt absorb_apart absorb_apart')

text \<open>An entry covers a mention of the same person when it lists all that the mention says.\<close>

definition covers :: "textlib \<Rightarrow> person \<Rightarrow> person \<Rightarrow> bool" where
  "covers L p q = (same_person L p q \<and> (pe_dob p = None \<longrightarrow> pe_dob q = None)
     \<and> set (pe_relationships q) \<subseteq> set (pe_relationships p) \<and> set (pe_roles q) \<subseteq> set (pe_roles p)
     \<and> set (pe_sources q) \<subseteq> set (pe_sources p))"

lemma covers_absorbed: "covers L p q \<Longrightarrow> covers L (absorb r p) q"
  by (cases "pe_dob p") (auto simp: covers_def same_person_def)

lemma covers_incoming: "same_person L p q \<Longrightarrow> covers L (absorb q p) q"
  by (cases "pe_dob p"; cases "pe_dob q") (auto simp: covers_def same_person_def dob_compatible_def starts_with_def)

lemma covers_self: "covers L q q"
  by (simp add: covers_def same_person_def dob_compatible_def starts_with_def)

lemma merge_person_covers:
  "\<exists>p \<in> set (merge_person L q people). covers L p q"
  "p \<in> set people \<Longrightarrow> covers L p r \<Longrightarrow> \<exists>p' \<in> set (merge_person L q people). covers L p' r"
  by (auto simp: merge_person_def covers_self intro: update_first_hit covers_incoming update_first_keeps covers_absorbed)

lemma merge_person_sources:
  "mset (concat (map pe_sources (merge_person L q people))) = mset (concat (map pe_sources people)) + mset (pe_sources q)"
proof -
  have "mset (concat (map pe_sources (update_first P (absorb q) ps))) = mset (concat (map pe_sources ps)) + mset (pe_sources q)"
    if "list_ex P ps" for P ps using that by (induction ps) auto
  then show ?thesis by (simp add: merge_person_def)
qed

definition mentions :: "raw_person list \<Rightarrow> string \<Rightarrow> raw_person list option \<Rightarrow> person list" where
  "mentions declared provider answer = map (\<lambda>raw. person_record raw Declared) declared
     @ map (\<lambda>raw. person_record raw (Registry provider (if truthy (rw_locator raw) then rw_locator raw else None)))
         (case answer of None \<Rightarrow> [] | Some rs \<Rightarrow> rs)"

lemma collect_mentions: "snd (collect_people L declared provider answer) = fold (merge_person L) (mentions declared provider answer) []"
  by (simp add: collect_people_def mentions_def Let_def fold_map comp_def)

lemma merge_all:
  assumes "apart L people"
  shows "apart L (fold (merge_person L) qs people)
    \<and> mset (concat (map pe_sources (fold (merge_person L) qs people))) = mset (concat (map pe_sources (people @ qs)))"
  using assms by (induction qs arbitrary: people) (simp_all add: merge_person_apart merge_person_sources)

lemma merge_all_keeps: "p \<in> set people \<Longrightarrow> covers L p r \<Longrightarrow> \<exists>p' \<in> set (fold (merge_person L) qs people). covers L p' r"
proof (induction qs arbitrary: people p)
  case (Cons q qs)
  obtain p' where "p' \<in> set (merge_person L q people)" "covers L p' r" using merge_person_covers(2) [OF Cons.prems] by blast
  from Cons.IH [OF this] show ?case by simp
qed auto

lemma merge_all_covers: "set qs \<subseteq> {q. \<exists>p \<in> set (fold (merge_person L) qs people). covers L p q}"
proof (induction qs arbitrary: people)
  case (Cons q qs)
  obtain p where "p \<in> set (merge_person L q people)" "covers L p q" using merge_person_covers(1) by blast
  from merge_all_keeps [OF this] Cons.IH [of "merge_person L q people"] show ?case by auto
qed simp

text \<open>Officers and owners are collected without loss and without duplicates: no two entries are the
  same person, every declared or registered mention is covered by an entry that has its
  relationship, its role and its source, and the sources of all entries together are those of the
  mentions, each counted once. The registry being unavailable shows in the status and loses no
  declared person.\<close>

theorem people_collected:
  "(let (status, people) = collect_people L declared provider answer in
      sorted_wrt (\<lambda>p q. \<not> same_person L p q) people
    \<and> set (mentions declared provider answer) \<subseteq> {q. \<exists>p \<in> set people. covers L p q}
    \<and> mset (concat (map pe_sources people)) = mset (concat (map pe_sources (mentions declared provider answer)))
    \<and> (status = ''complete'' \<longleftrightarrow> answer \<noteq> None))"
proof -
  let ?qs = "mentions declared provider answer"
  have people: "collect_people L declared provider answer
      = (if answer = None then ''unavailable'' else ''complete'', fold (merge_person L) ?qs [])"
    using collect_mentions by (simp add: collect_people_def Let_def prod_eq_iff)
  have "apart L []" by (simp add: apart_def)
  from merge_all [OF this, of ?qs] merge_all_covers [of ?qs L "[]"]
  show ?thesis unfolding people by (simp add: apart_def)
qed

section \<open>One link per relationship\<close>

definition link_key :: "company_person \<Rightarrow> string \<times> string \<times> string" where
  "link_key l = (cp_entity l, cp_subject l, cp_relationship l)"

definition link_identity :: "company_person \<Rightarrow> string \<times> string option \<times> string \<times> string \<times> string" where
  \<comment> \<open>what later runs never change\<close>
  "link_identity l = (cp_id l, cp_first_run l, link_key l)"

lemma links_to_key: "links_to entity sid rel l = (link_key l = (entity, sid, rel))"
  by (auto simp: links_to_def link_key_def)

lemma identity_key: "map link_identity xs = map link_identity ys \<Longrightarrow> map link_key xs = map link_key ys"
  by (induction xs ys rule: list_induct2') (auto simp: link_identity_def)

definition linked_to :: "string \<Rightarrow> string \<Rightarrow> company_person list \<Rightarrow> string set" where
  "linked_to entity sid links = cp_relationship ` {l \<in> set links. cp_entity l = entity \<and> cp_subject l = sid}"

lemma linked_to_member: "rel \<in> linked_to entity sid links \<longleftrightarrow> (entity, sid, rel) \<in> link_key ` set links"
  by (auto simp: linked_to_def link_key_def image_iff)

definition grows :: "company_person list \<Rightarrow> company_person list \<Rightarrow> bool" where
  "grows links links' = ((\<exists>new. map link_identity links' = map link_identity links @ new)
     \<and> (distinct (map link_key links) \<longrightarrow> distinct (map link_key links')))"

lemma grows_refl [simp]: "grows links links"
  by (simp add: grows_def)

lemma grows_trans: "grows a b \<Longrightarrow> grows b c \<Longrightarrow> grows a c"
  by (force simp: grows_def)

lemma grows_keys:
  assumes "grows a b" and "k \<in> link_key ` set a"
  shows "k \<in> link_key ` set b"
proof -
  obtain new where "map link_identity b = map link_identity a @ new" using assms(1) by (auto simp: grows_def)
  then have "link_identity ` set a \<subseteq> link_identity ` set b" by (metis Un_upper1 set_append set_map)
  then show ?thesis using assms(2) by (force simp: link_identity_def)
qed

lemma link_one_effect:
  assumes "link_one E entity rid sid p rel (db, links, out) = (db', links', out')"
  shows "grows links links'" and "rel \<in> linked_to entity sid links'" and "db' = db\<lparr>next_id := next_id db'\<rparr>"
proof -
  let ?upd = "\<lambda>l. l\<lparr>cp_role := (if pe_roles p \<noteq> [] then Some (hd (pe_roles p)) else cp_role l), cp_sources := pe_sources p,
      cp_ownership := (if rel = ''owner'' \<and> pe_ownership p \<noteq> None then pe_ownership p else cp_ownership l)\<rparr>"
  let ?P = "links_to entity sid rel"
  have ident: "link_identity (?upd l) = link_identity l" for l by (simp add: link_identity_def link_key_def)
  have same: "map link_identity (update_first ?P ?upd xs) = map link_identity xs" for xs
    by (rule update_first_map) (rule ident)
  have hit: "(entity, sid, rel) \<in> link_key ` set links" if "list_ex ?P links"
    using that by (force simp: list_ex_iff links_to_key)
  define l0 where "l0 = \<lparr>cp_id = uuid E (next_id db), cp_entity = entity, cp_first_run = Some rid, cp_subject = sid,
      cp_relationship = rel, cp_role = None, cp_sources = [], cp_ownership = None\<rparr>"
  define new where "new = (if list_ex ?P links then [] else [l0])"
  have key0: "link_key l0 = (entity, sid, rel)" by (simp add: l0_def link_key_def)
  have new: "links' = update_first ?P ?upd (links @ new)" "db' = db\<lparr>next_id := next_id db'\<rparr>"
    using assms unfolding link_one_def Let_def prod.case l0_def [symmetric] new_def by (simp_all split: if_splits) auto
  have cases: "list_ex ?P links \<and> new = [] \<or> \<not> list_ex ?P links \<and> (\<exists>l. new = [l] \<and> link_key l = (entity, sid, rel))"
    using key0 by (simp add: new_def)
  have keys: "map link_key links' = map link_key (links @ new)"
    by (rule identity_key) (simp only: new(1) same)
  have ids: "map link_identity links' = map link_identity links @ map link_identity new"
    by (simp only: new(1) same map_append)
  have fresh: "(entity, sid, rel) \<notin> link_key ` set links" if "\<not> list_ex ?P links"
    using that by (auto simp: list_ex_iff links_to_key)
  have dist: "distinct (map link_key links')" if "distinct (map link_key links)"
    using that cases fresh unfolding keys by (elim disjE conjE exE) simp_all
  show "grows links links'"
    unfolding grows_def using ids dist by blast
  have "link_key ` set links' = link_key ` set (links @ new)" using keys by (metis set_map)
  then show "rel \<in> linked_to entity sid links'" using cases hit by (auto simp: linked_to_member)
  show "db' = db\<lparr>next_id := next_id db'\<rparr>" by (rule new(2))
qed

lemma link_person_effect:
  assumes "link_person E entity rid sid p (db, links) = (db', links', out)"
  shows "grows links links' \<and> set (pe_relationships p) \<subseteq> linked_to entity sid links' \<and> db' = db\<lparr>next_id := next_id db'\<rparr>"
proof -
  have "grows links links' \<and> set rels \<subseteq> linked_to entity sid links' \<and> db' = db\<lparr>next_id := next_id db'\<rparr>"
    if "fold (link_one E entity rid sid p) rels (db, links, ids) = (db', links', out)" for rels ids
    using that
  proof (induction rels arbitrary: db links ids)
    case (Cons rel rels)
    obtain db1 links1 ids1 where one: "link_one E entity rid sid p rel (db, links, ids) = (db1, links1, ids1)"
      by (metis prod_cases3)
    note e = link_one_effect [OF one]
    have ih: "grows links1 links' \<and> set rels \<subseteq> linked_to entity sid links' \<and> db' = db1\<lparr>next_id := next_id db'\<rparr>"
      using Cons one by simp
    have "db' = db\<lparr>next_id := next_id db'\<rparr>" using ih e(3) by (metis screening_db.update_convs(12) screening_db.surjective)
    moreover have "rel \<in> linked_to entity sid links'"
      using e(2) ih grows_keys unfolding linked_to_member by blast
    ultimately show ?case using ih grows_trans [OF e(1)] by simp
  qed simp
  then show ?thesis using assms by (simp add: link_person_def)
qed

section \<open>The outcome of each screening\<close>

interpretation decisions_kept: run_invariant "screening_ops rid" "\<lambda>db. S \<subseteq> set (decisions db)" for rid S
  by unfold_locales (simp add: put_run_ops)

lemma dispose_decisions: "dispose E rid db ctx = Some (db', ctx') \<Longrightarrow> set (decisions db) \<subseteq> set (decisions db')"
  by (auto simp: dispose_def freeze_inputs_def run_rule_def current_rule_def store_decision_def Let_def
      split: bind_splits if_splits option.splits sum.splits)

lemma blocking_decisions: "block_candidates E rid db ctx = Some (db', ctx') \<Longrightarrow> set (decisions db) \<subseteq> set (decisions db')"
  by (auto simp: block_candidates_def Let_def update_availability_def add_candidates_def split: bind_splits if_splits)

lemma scoring_decisions: "score_candidates E rid db ctx = Some (db', ctx') \<Longrightarrow> set (decisions db) \<subseteq> set (decisions db')"
  by (auto simp: score_candidates_def current_rule_def Let_def split: bind_splits option.splits)

lemma run_decisions_grow: "set (decisions db) \<subseteq> set (decisions (run_screening E rid ts start finish db))"
  unfolding run_screening_def
proof (rule decisions_kept.run_sync_keeps [of _ "set (decisions db)"])
  show "\<forall>p \<in> set (zip (screening_stages E rid) ts). \<forall>d ctx d' ctx'. set (decisions db) \<subseteq> set (decisions d) \<longrightarrow>
      execute (fst p) d ctx = Some (d', ctx') \<longrightarrow> set (decisions db) \<subseteq> set (decisions d')"
    by (auto simp: screening_stages_def block_stage_def score_stage_def dispose_stage_def dest!: set_zip_leftD)
      (blast dest: dispose_decisions blocking_decisions scoring_decisions)+
qed simp_all

lemma store_pii_tables:
  assumes "store_pii E sid value db = Some db'"
  shows "decisions db' = decisions db \<and> runs db' = runs db \<and> watchlist db' = watchlist db
    \<and> snapshots db' = snapshots db \<and> rule_rows db' = rule_rows db \<and> candidate_rows db' = candidate_rows db"
  using assms by (auto simp: store_pii_def split: bind_splits sum.splits)

lemma subject_for_tables:
  assumes "subject_for E entity p (db, known) = Some (sid, db', known')"
  shows "decisions db' = decisions db \<and> runs db' = runs db \<and> watchlist db' = watchlist db
    \<and> snapshots db' = snapshots db \<and> rule_rows db' = rule_rows db \<and> candidate_rows db' = candidate_rows db"
  using assms by (auto simp: subject_for_def Let_def dest!: store_pii_tables split: option.splits if_splits bind_splits prod.splits)

text \<open>A row of evidence that reports the screening of a person: it says which subject and run it is
  about, the company is linked to the subject by each of the person's relationships, and its value is
  the disposition of a stored decision of that run, or that there was none.\<close>

definition reports :: "string \<Rightarrow> string \<Rightarrow> company_person list \<Rightarrow> 'c decision_row list \<Rightarrow> person \<Rightarrow> evidence \<Rightarrow> bool" where
  "reports rid entity links ds p e = (ev_run e = rid \<and> source e = OFFICER_SCREENING_SOURCE
     \<and> ev_field e = Some OFFICER_SCREENING_FIELD \<and> normalized_value e = raw_value e
     \<and> (\<exists>payload sid run. raw_payload e = Some payload \<and> jget payload ''screening_subject_id'' = JText sid
        \<and> jget payload ''screening_run_id'' = JText run
        \<and> jget payload ''relationships'' = JList (map JText (pe_relationships p))
        \<and> set (pe_relationships p) \<subseteq> linked_to entity sid links
        \<and> (raw_value e = Some ''unavailable''
           \<or> (\<exists>d \<in> set ds. dec_run d = run \<and> raw_value e = Some (disposition_text (dec_disposition d))))))"

lemma reports_grow:
  assumes "reports rid entity links ds p e" and "grows links links'" and "set ds \<subseteq> set ds'"
  shows "reports rid entity links' ds' p e"
proof -
  have "linked_to entity sid links \<subseteq> linked_to entity sid links'" for sid
    using grows_keys [OF assms(2)] by (auto simp: linked_to_member)
  then show ?thesis using assms(1,3) unfolding reports_def by blast
qed

lemma officer_evidence_reports:
  assumes "set (pe_relationships p) \<subseteq> linked_to entity sid links"
  shows "reports rid entity links ds p (officer_evidence i rid time p sid lids run (find (\<lambda>d. dec_run d = sr_id run) ds))"
proof (cases "find (\<lambda>d. dec_run d = sr_id run) ds")
  case None
  then show ?thesis using assms by (simp add: reports_def officer_evidence_def Let_def jget_def)
next
  case (Some d)
  then have "d \<in> set ds" "dec_run d = sr_id run" by (auto simp: find_Some_iff)
  then show ?thesis using assms Some by (auto simp: reports_def officer_evidence_def Let_def jget_def)
qed

definition advances :: "'c kyb_state \<Rightarrow> 'c kyb_state \<Rightarrow> bool" where
  "advances st st' = (grows (ks_links st) (ks_links st') \<and> set (decisions (ks_db st)) \<subseteq> set (decisions (ks_db st')))"

lemma screen_person_effect:
  assumes "screen_person E T rid entity p (st, known) = Some (st', known')"
  shows "advances st st' \<and> (\<exists>e. ks_rows st' = ks_rows st @ [e]
    \<and> reports rid entity (ks_links st') (decisions (ks_db st')) p e)"
proof -
  obtain sid db1 where sub: "subject_for E entity p (ks_db st, known) = Some (sid, db1, known')"
    using assms by (auto simp: screen_person_def Let_def split: bind_splits prod.splits)
  obtain db2 links lids where link: "link_person E entity rid sid p (db1, ks_links st) = (db2, links, lids)"
    by (metis prod_cases3)
  define run where "run = officer_run E sid db2"
  define db3 where "db3 = db2\<lparr>runs := runs db2 @ [run], next_id := Suc (next_id db2),
       audit := audit db2 @ [Submitted (sr_id run) sid ''kyb_officer'' rid entity]\<rparr>"
  obtain limits start finish where T: "T (sr_id run) = (limits, start, finish)" by (metis prod_cases3)
  define db4 where "db4 = run_screening E (sr_id run) (unhurried limits) start finish db3"
  obtain screened where row: "row_by sr_id (sr_id run) (runs db4) = Some screened"
    and st': "st' = \<lparr>ks_db = db4\<lparr>next_id := Suc (next_id db4)\<rparr>, ks_links = links, ks_rows = ks_rows st @
      [officer_evidence (uuid E (next_id db4)) rid (clock E) p sid lids screened (find (\<lambda>d. dec_run d = sr_id run) (decisions db4))]\<rparr>"
    using assms sub link T
    by (auto simp: screen_person_def Let_def run_def [symmetric] db3_def [symmetric] db4_def [symmetric] split: bind_splits)
  note l = link_person_effect [OF link]
  have id: "sr_id screened = sr_id run" using row_by_Some [OF row] by simp
  have "decisions db2 = decisions db1" using l by (metis screening_db.select_convs(10) screening_db.surjective screening_db.update_convs(12))
  then have "decisions db3 = decisions (ks_db st)" using subject_for_tables [OF sub] by (simp add: db3_def)
  then have dec: "set (decisions (ks_db st)) \<subseteq> set (decisions db4)" using run_decisions_grow [of db3] by (simp add: db4_def)
  show ?thesis
    using l dec officer_evidence_reports [of p entity sid links rid "decisions db4" _ _ lids screened] by (simp add: st' advances_def id)
qed

lemma screen_all_effect:
  assumes "screen_all E T rid entity people (st, known) = Some (st', known')"
  shows "advances st st' \<and> (\<exists>new. ks_rows st' = ks_rows st @ new
    \<and> list_all2 (reports rid entity (ks_links st') (decisions (ks_db st'))) people new)"
  using assms
proof (induction people arbitrary: st known)
  case Nil
  then show ?case by (simp add: advances_def)
next
  case (Cons p ps)
  obtain st1 known1 where one: "screen_person E T rid entity p (st, known) = Some (st1, known1)"
    and rest: "screen_all E T rid entity ps (st1, known1) = Some (st', known')"
    using Cons.prems by (auto split: bind_splits)
  obtain e where e: "advances st st1" "ks_rows st1 = ks_rows st @ [e]" "reports rid entity (ks_links st1) (decisions (ks_db st1)) p e"
    using screen_person_effect [OF one] by blast
  obtain new where new: "advances st1 st'" "ks_rows st' = ks_rows st1 @ new"
    "list_all2 (reports rid entity (ks_links st') (decisions (ks_db st'))) ps new"
    using Cons.IH [OF rest] by blast
  have "reports rid entity (ks_links st') (decisions (ks_db st')) p e"
    using reports_grow [OF e(3)] new(1) by (simp add: advances_def)
  moreover have "advances st st'" using e(1) new(1) by (auto simp: advances_def intro: grows_trans)
  ultimately show ?case using e(2) new by (intro conjI exI [of _ "e # new"]) simp_all
qed

lemma screen_people_effect:
  assumes "screen_people E T rid entity people st = Some (Screened n, st')"
  shows "n = length people \<and> advances st st' \<and> (\<exists>new. ks_rows st' = ks_rows st @ new
    \<and> list_all2 (reports rid entity (ks_links st') (decisions (ks_db st'))) people new)"
  using assms screen_all_effect
  by (fastforce simp: screen_people_def advances_def split: if_splits bind_splits)

text \<open>Every person is screened, or none: when the stage reports people as screened, it has appended one
  row of evidence per person, in order, each saying which subject and run it is about and giving the
  disposition of a stored decision of that run or that there was none; the company is linked to the
  subject by each of the person's relationships, and earlier rows of evidence are kept.\<close>

theorem people_screened:
  assumes "screen_people E T rid entity people st = Some (Screened n, st')"
  shows "n = length people \<and> (\<exists>new. ks_rows st' = ks_rows st @ new
    \<and> list_all2 (reports rid entity (ks_links st') (decisions (ks_db st'))) people new)"
  using screen_people_effect [OF assms] by blast

text \<open>Links between companies and people are unique and permanent: whatever is screened, a company has at
  most one link to a subject for a relationship, and every earlier link keeps its identifier, its
  parties and the run that found it.\<close>

theorem links_unique_and_kept:
  assumes "screen_people E T rid entity people st = Some (outcome, st')" and "distinct (map link_key (ks_links st))"
  shows "distinct (map link_key (ks_links st'))
    \<and> take (length (ks_links st)) (map link_identity (ks_links st')) = map link_identity (ks_links st)"
proof -
  have "grows (ks_links st) (ks_links st')"
  proof (cases outcome)
    case (Screened n)
    then show ?thesis using screen_people_effect assms(1) unfolding advances_def by blast
  next
    case ScreeningNotConfigured
    then show ?thesis using assms(1) by (auto simp: screen_people_def split: if_splits bind_splits prod.splits)
  qed
  then show ?thesis using assms(2) by (auto simp: grows_def)
qed

lemma list_all2_right: "list_all2 P xs ys \<Longrightarrow> y \<in> set ys \<Longrightarrow> \<exists>x \<in> set xs. P x y"
  by (induction rule: list_all2_induct) auto

lemma assess_critical:
  assumes "e \<in> set (all_rows q)" and "ev_run e = this_run q" and "critical_row e"
  shows "ra_tier (assess_run today q fcs) = escalate"
proof -
  let ?rows = "filter (\<lambda>e. ev_run e = this_run q) (all_rows q)"
  have "e \<in> set ?rows" using assms by simp
  from critical_row_signal [OF this assms(3), of today "Some q" fcs] obtain s
    where "s \<in> set (contributing_signals (engine_score today (Some q) ?rows fcs))" "sig_name s \<in> set CRITICAL_ESCALATION_SIGNALS"
    by blast
  from critical_escalates [OF this] show ?thesis by (simp add: assess_run_def Let_def)
qed

lemma reports_match: "reports rid entity links ds p e \<Longrightarrow> raw_value e = Some (disposition_text MATCH) \<Longrightarrow>
    critical_row e \<and> ev_run e = rid"
  by (simp add: reports_def critical_row_def on_field_def)


section \<open>Examples\<close>

lemma store_pii_defined:
  assumes "authentic (cipher E)" and "master (master_setting E) = Inr mk" and "find_key sid (subject_keys db) = None"
    and "row_by s_id sid (subjects db) = Some row"
  shows "\<exists>db'. store_pii E sid value db = Some db'"
  using encrypt_defined [OF assms(1-3), of "random E" "''pii''" "Pii value"] row_by_Some [OF assms(4)] assms(4)
  by (fastforce simp: store_pii_def set_subject_pii_def)

lemma screen_person_defined:
  assumes "subject_for E entity p (ks_db st, known) = Some (sid, db1, known')" and "\<And>r. length (fst (T r)) = 3"
  shows "\<exists>st'. screen_person E T rid entity p (st, known) = Some (st', known')"
proof -
  obtain db2 links lids where link: "link_person E entity rid sid p (db1, ks_links st) = (db2, links, lids)"
    by (metis prod_cases3)
  define run where "run = officer_run E sid db2"
  define db3 where "db3 = db2\<lparr>runs := runs db2 @ [run], next_id := Suc (next_id db2),
       audit := audit db2 @ [Submitted (sr_id run) sid ''kyb_officer'' rid entity]\<rparr>"
  obtain limits start finish where T: "T (sr_id run) = (limits, start, finish)" by (metis prod_cases3)
  have three: "length (unhurried limits) = 3" using assms(2) [of "sr_id run"] by (simp add: T unhurried_def)
  have "\<exists>r. row_by sr_id (sr_id run) (runs db3) = Some r"
    using find_None_iff [of "\<lambda>r. sr_id r = sr_id run" "runs db3"] by (fastforce simp: row_by_def db3_def)
  then obtain r where "row_by sr_id (sr_id run) (runs db3) = Some r" by blast
  from run_row_settles [OF this three, of E start finish]
  obtain screened where "row_by sr_id (sr_id run) (runs (run_screening E (sr_id run) (unhurried limits) start finish db3)) = Some screened"
    by blast
  then show ?thesis
    by (simp add: screen_person_def assms(1) link T Let_def run_def [symmetric] db3_def [symmetric])
qed

definition sample_person :: person where
  "sample_person = person_record \<lparr>rw_name = ''Ivan  Petrov'', rw_relationship = ''owner'', rw_role = None,
     rw_dob = Some ''1970'', rw_nationality = None, rw_ownership = Some 60, rw_locator = None\<rparr> Declared"

definition sample_kyb :: "tagged kyb_state" where
  "sample_kyb = \<lparr>ks_db = sample_db, ks_links = [], ks_rows = []\<rparr>"

definition in_time :: "string \<Rightarrow> bool list \<times> int \<times> int" where
  "in_time r = ([False, False, False], 1, 2)"

lemma sample_configured: "is_configured (master_setting sample_env)"
  using sample_master_key by (auto simp: is_configured_def sample_env_def)

lemma sample_subject_for: "\<exists>d. subject_for sample_env ''e1'' sample_person (sample_db, []) = Some d"
proof -
  let ?row = "\<lparr>s_id = ''x'', pii = None, relationship_ended_at = None, shredded_at = None, kyb_entity = Some ''e1''\<rparr>"
  let ?db = "sample_db\<lparr>subjects := subjects sample_db @ [?row], next_id := Suc (next_id sample_db)\<rparr>"
  obtain s' rows' where stored: "set_subject_pii tag_cipher sample_master sample_random (Pii sample_subject) sample_row [] = Inr (s', rows')"
    "s_id s' = ''s1''" using sample_set_pii [of "Pii sample_subject"] by blast
  have tables: "subjects sample_db = [s']" "subject_keys sample_db = rows'"
    by (simp_all add: sample_db_def sample_stored_def stored(1))
  have "map key_subject rows' = [''s1'']"
    using stored(1) by (auto simp: set_subject_pii_def and_then_Inr encrypt_for_subject_def ensure_subject_key_def
        find_key_def sample_row_def split: if_splits)
  then have fresh: "find_key ''x'' rows' = None" by (auto simp: find_key_def)
  have "\<exists>db'. store_pii sample_env ''x'' (person_pii sample_person) ?db = Some db'"
    by (rule store_pii_defined [where row = ?row])
      (use tag_cipher_authentic sample_master_key fresh tables stored in \<open>simp_all add: sample_env_def row_by_def\<close>)
  moreover have "uuid sample_env (next_id sample_db) = ''x''"
    by (simp_all add: sample_env_def sample_db_def)
  ultimately show ?thesis by (fastforce simp: subject_for_def Let_def)
qed

lemma sample_people_screened:
  "\<exists>st'. screen_people sample_env in_time ''r1'' ''e1'' [sample_person] sample_kyb = Some (Screened 1, st')"
proof -
  have known: "known_subjects sample_env ''e1'' sample_kyb = Some []"
    by (simp add: known_subjects_def sample_kyb_def)
  obtain sid db1 known' where "subject_for sample_env ''e1'' sample_person (ks_db sample_kyb, []) = Some (sid, db1, known')"
    using sample_subject_for by (auto simp: sample_kyb_def)
  from screen_person_defined [OF this, of in_time "''r1''"]
  obtain st' where "screen_person sample_env in_time ''r1'' ''e1'' sample_person (sample_kyb, []) = Some (st', known')"
    by (auto simp: in_time_def)
  then show ?thesis by (simp add: screen_people_def sample_configured known)
qed

lemma people_screened_witness:
  "\<exists>st' e. screen_people sample_env in_time ''r1'' ''e1'' [sample_person] sample_kyb = Some (Screened 1, st')
     \<and> ks_rows st' = [e] \<and> reports ''r1'' ''e1'' (ks_links st') (decisions (ks_db st')) sample_person e"
proof -
  obtain st' where "screen_people sample_env in_time ''r1'' ''e1'' [sample_person] sample_kyb = Some (Screened 1, st')"
    using sample_people_screened by blast
  from people_screened [OF this] this show ?thesis
    by (auto simp: sample_kyb_def list_all2_Cons1)
qed

lemma links_unique_and_kept_witness:
  "\<exists>out st'. screen_people sample_env in_time ''r1'' ''e1'' [sample_person] sample_kyb = Some (out, st')
     \<and> distinct (map link_key (ks_links st'))"
proof -
  obtain st' where "screen_people sample_env in_time ''r1'' ''e1'' [sample_person] sample_kyb = Some (Screened 1, st')"
    using sample_people_screened by blast
  from links_unique_and_kept [OF this] this show ?thesis by (auto simp: sample_kyb_def)
qed

end
