(* ===== verification/Access_Laws.thy ===== *)
theory Access_Laws
  imports Access
begin

text \<open>
  Properties of authentication (\<open>Access\<close>): passwords and keys are checked against what was stored,
  sessions behave as their history says in either store, and what a caller may do follows from an
  audited sign-in or an active key. The handlers are the steps of a transition system whose
  invariants are proved by rule induction.
\<close>

section \<open>Passwords\<close>

lemma split_on_append: "sep \<notin> set xs \<Longrightarrow> split_on sep (xs @ sep # ys) = xs # split_on sep ys"
  by (induction xs) auto

lemma split_on_last: "sep \<notin> set xs \<Longrightarrow> split_on sep xs = [xs]"
  by (induction xs) auto

lemma hex_char_code: "n < 16 \<Longrightarrow> of_char (hex_char n) = (if n < 10 then 48 + n else 87 + n :: nat)"
  by (simp add: hex_char_def)

lemma hex_char_other: "n < 16 \<Longrightarrow> of_char c < (48 :: nat) \<or> of_char c = (58 :: nat) \<Longrightarrow> hex_char n \<noteq> c"
  using hex_char_code [of n] by (auto split: if_splits)

lemma hex_char_facts: "n < 16 \<Longrightarrow> hex_nibble (hex_char n) = Some n \<and> hex_char n \<noteq> CHR '':''
    \<and> hex_char n \<notin> set '' \<newline>'' \<and> of_char (hex_char n) \<notin> {9::nat, 11, 12, 13}"
  using hex_char_code [of n] hex_char_other [of n]
  by (auto simp: hex_nibble_def is_digit_def lower_char_def is_upper_def Let_def)

lemma nibbles: "(of_char c :: nat) div 16 < 16" "(of_char c :: nat) mod 16 < 16"
proof -
  have "x div 16 < 16" if "x < 256" for x :: nat using that by arith
  then show "(of_char c :: nat) div 16 < 16" using nat_of_char_less_256 by blast
qed simp

lemma hex_pair: "hex_nibble (hex_char (of_char c div 16)) = Some (of_char c div 16)"
  "hex_nibble (hex_char (of_char c mod 16)) = Some (of_char c mod 16)"
  using hex_char_facts nibbles by blast+

lemma bytes_roundtrip: "bytes_fromhex (bytes_hex s) = Some s"
proof (induction s)
  case (Cons c s)
  then show ?case
    using hex_char_facts [OF nibbles(1) [of c]] by (simp add: bytes_hex_def Let_def hex_pair)
qed (simp add: bytes_hex_def)

lemma hex_pair_no_colon: "CHR '':'' \<notin> {hex_char (of_char c div 16), hex_char (of_char c mod 16)}"
  using hex_char_facts nibbles by (metis insertE singletonD)

lemma bytes_hex_no_colon: "CHR '':'' \<notin> set (bytes_hex s)"
proof (induction s)
  case (Cons c s)
  then show ?case using hex_pair_no_colon [of c] by (simp add: bytes_hex_def Let_def)
qed (simp add: bytes_hex_def)

lemma verify_hash: "verify_password E other (hash_password E salt password)
    = Some (kdf E other salt ITERATIONS = kdf E password salt ITERATIONS)"
proof -
  have split: "split_on CHR '':'' (''pbkdf2_sha256:260000:'' @ xs @ '':'' @ ys) = [''pbkdf2_sha256'', ''260000'', xs, ys]"
    if "CHR '':'' \<notin> set xs" "CHR '':'' \<notin> set ys" for xs ys
    using that by (simp add: split_on_append split_on_last)
  have "py_int ''260000'' = Some ITERATIONS" by code_simp
  then show ?thesis
    by (simp add: verify_password_def hash_password_def split [simplified] bytes_hex_no_colon bytes_roundtrip ITERATIONS_def)
qed

text \<open>A stored password is checked exactly: verification of a hash succeeds for the password it was made from,
  and for another one only if the key derivation cannot tell them apart.\<close>

theorem password_roundtrip:
  "verify_password E password (hash_password E salt password) = Some True
   \<and> verify_password E other (hash_password E salt password)
       = Some (kdf E other salt ITERATIONS = kdf E password salt ITERATIONS)"
  by (simp add: verify_hash)

section \<open>Session stores\<close>

lemma redis_delete_all: "redis_ok C \<Longrightarrow> rget C (fold (\<lambda>k s. rdelete C s k) ks s) t k
    = (if k \<in> set ks then None else rget C s t k)"
  by (induction ks arbitrary: s) (auto simp: redis_ok_def)

lemma redis_session_store:
  assumes "redis_ok C"
  shows "session_store (redis_create C) (redis_get C) (redis_delete C) (redis_clear C)"
proof
  have set: "rget C (setex C s t k ttl v) t' k' = (if k' = k then if t' < t + ttl then Some v else None else rget C s t' k')"
    and del: "rget C (rdelete C s k) t' k' = (if k' = k then None else rget C s t' k')"
    and keys: "prefix p k \<Longrightarrow> rget C s t' k \<noteq> None \<Longrightarrow> k \<in> set (rkeys C s p)" for s t k ttl v t' k' p
    using assms unfolding redis_ok_def by blast+
  fix s t k op ttl t' k'
  show "fst (redis_get C (redis_create C s t k op ttl) t' k') =
      (if k' = k then if t' < t + ttl then Some op else None else fst (redis_get C s t' k'))"
    by (simp add: redis_get_def redis_create_def set)
  show "fst (redis_get C (redis_delete C s k) t' k') = (if k' = k then None else fst (redis_get C s t' k'))"
    by (simp add: redis_get_def redis_delete_def del)
  have "prefix SESSION_PREFIX (SESSION_PREFIX @ k')" by simp
  from keys [OF this, of s t'] show "fst (redis_get C (redis_clear C s) t' k') = None"
    by (cases "rget C s t' (SESSION_PREFIX @ k')") (auto simp: redis_get_def redis_clear_def redis_delete_all [OF assms])
  show "fst (redis_get C (snd (redis_get C s t k)) t' k') = fst (redis_get C s t' k')"
    by (simp add: redis_get_def)
qed

text \<open>C21. Both session stores keep the same sessions: after any history of sign-ins, look-ups and
  sign-outs, a token is answered exactly as that history says, that is, by the operator of its last
  opening while it has not ended and was not closed, and the in-memory store and Redis agree.\<close>

theorem session_stores_agree:
  assumes "redis_ok C" and "list_all (looked_before now) ops" and "\<And>t k. rget C s t k = None"
  shows "fst (memory_get (fold (apply_op memory_create memory_get memory_delete) ops []) now k)
      = fold (recall now k) ops None
    \<and> fst (redis_get C (fold (apply_op (redis_create C) (redis_get C) (redis_delete C)) ops s) now k)
      = fold (recall now k) ops None"
  using memory.history [OF assms(2), of "[]" k]
    session_store.history [OF redis_session_store [OF assms(1)] assms(2), of s k] assms(3)
  by (simp add: memory_get_def redis_get_def)

section \<open>The handlers as steps\<close>

datatype call = Sign_in string string | Sign_out "string option" | Acting "string option"
  | Leading "string option" | Reading "string option" | New_key "string option" string
  | List_keys "string option" | Revoke "string option" string
  | As_client "string option" | As_principal "string option" "string option"
  | Guarded string string "string option"

fun handle :: "access_env \<Rightarrow> rat \<Rightarrow> rat \<Rightarrow> call \<Rightarrow> access_state \<Rightarrow> access_state" where
  "handle E ttl now (Sign_in email password) st = snd (operator_sign_in E ttl now email password st)"
| "handle E ttl now (Sign_out auth) st = operator_sign_out auth st"
| "handle E ttl now (Acting auth) st = snd (get_current_operator now auth st)"
| "handle E ttl now (Leading auth) st = snd (require_lead E now auth st)"
| "handle E ttl now (Reading auth) st = snd (require_lead_or_examiner now auth st)"
| "handle E ttl now (New_key auth name) st = snd (create_client E now auth name st)"
| "handle E ttl now (List_keys auth) st = snd (list_clients E now auth st)"
| "handle E ttl now (Revoke auth i) st = snd (revoke_client E now auth i st)"
| "handle E ttl now (As_client key) st = snd (get_current_api_client E now key st)"
| "handle E ttl now (As_principal key auth) st = snd (get_principal E now key auth st)"
| "handle E ttl now (Guarded verb path auth) st = snd (forbid_examiner_writes E now verb path auth st)"

inductive reaches :: "access_env \<Rightarrow> rat \<Rightarrow> access_state \<Rightarrow> access_state \<Rightarrow> bool" for E ttl where
  here: "reaches E ttl st st"
| step: "reaches E ttl st st' \<Longrightarrow> reaches E ttl st (handle E ttl now c st')"

text \<open>What a handler may do to the state, apart from opening a session: it drops sessions, adds to
  the audit log and leaves the operators alone.\<close>

definition tame :: "access_state \<Rightarrow> access_state \<Rightarrow> bool" where
  "tame st st' = (set (sessions st') \<subseteq> set (sessions st) \<and> set (events st) \<subseteq> set (events st') \<and> operators st' = operators st)"

lemma tame_refl [simp]: "tame st st"
  by (simp add: tame_def)

lemma tame_trans: "tame a b \<Longrightarrow> tame b c \<Longrightarrow> tame a c"
  by (auto simp: tame_def)

lemma tame_updates [simp]:
  "tame st st' \<Longrightarrow> tame st (record_event E now t oper client d st')"
  "tame st (st'\<lparr>clients := cs\<rparr>) = tame st st'" "tame st (st'\<lparr>clients := cs, draws := n\<rparr>) = tame st st'"
  by (auto simp: tame_def record_event_def)

lemma tame_token: "operator_id_from_token now token st = (holder, st') \<Longrightarrow> tame st st'"
  using delete_sub by (fastforce simp: operator_id_from_token_def memory_get_def tame_def split: option.splits if_splits)

lemma tame_operator: "get_current_operator now auth st = (r, st') \<Longrightarrow> tame st st'"
  by (auto simp: get_current_operator_def split: option.splits prod.splits dest: tame_token)

lemma tame_lead: "require_lead E now auth st = (r, st') \<Longrightarrow> tame st st'"
  by (auto simp: require_lead_def split: prod.splits reply.splits if_splits dest: tame_operator)

lemma tame_reader: "require_lead_or_examiner now auth st = (r, st') \<Longrightarrow> tame st st'"
  by (auto simp: require_lead_or_examiner_def split: prod.splits reply.splits if_splits dest: tame_operator)

lemma tame_sign_out: "tame st (operator_sign_out auth st)"
  using delete_sub by (fastforce simp: operator_sign_out_def memory_delete_def tame_def split: option.split)

lemma tame_resolve: "resolve_api_client E now key st = Some (c, st') \<Longrightarrow> tame st st'"
  by (auto simp: resolve_api_client_def Let_def split: if_splits option.splits bool.splits)

lemma tame_client: "get_current_api_client E now key st = (r, st') \<Longrightarrow> tame st st'"
  by (auto simp: get_current_api_client_def split: option.splits dest: tame_resolve)

lemma tame_principal: "get_principal E now key auth st = (r, st') \<Longrightarrow> tame st st'"
  by (auto simp: get_principal_def split: if_splits prod.splits reply.splits dest: tame_operator tame_client)

lemma create_api_client_state: "create_api_client E now name st = Some (row, key, st') \<Longrightarrow>
    st' = st\<lparr>clients := clients st @ [row], draws := Suc (draws st)\<rparr>"
  by (auto simp: create_api_client_def Let_def split: if_splits)

lemma tame_create: "create_client E now auth name st = (r, st') \<Longrightarrow> tame st st'"
  by (auto simp: create_client_def Let_def split: prod.splits reply.splits option.splits if_splits
      dest: tame_lead dest!: create_api_client_state)

lemma tame_list: "list_clients E now auth st = (r, st') \<Longrightarrow> tame st st'"
  by (auto simp: list_clients_def split: prod.splits reply.splits dest: tame_lead)

lemma tame_revoke: "revoke_client E now auth i st = (r, st') \<Longrightarrow> tame st st'"
  by (auto simp: revoke_client_def Let_def split: prod.splits reply.splits option.splits if_splits dest: tame_lead)

lemma tame_guard: "forbid_examiner_writes E now verb path auth st = (r, st') \<Longrightarrow> tame st st'"
  by (auto simp: forbid_examiner_writes_def split: prod.splits option.splits if_splits dest: tame_token)

lemmas tame_handlers = tame_operator tame_lead tame_reader tame_client tame_principal tame_create tame_list
  tame_revoke tame_guard

lemma handle_tame: "(\<And>email password. c \<noteq> Sign_in email password) \<Longrightarrow> tame st (handle E ttl now c st)"
  by (cases c) (auto simp: tame_sign_out intro: tame_handlers [OF prod.collapse [symmetric]])

section \<open>Every session was signed in\<close>

definition signed_in :: "rat \<Rightarrow> audit_event list \<Rightarrow> string \<Rightarrow> rat \<Rightarrow> bool" where
  "signed_in ttl es oper expires = (\<exists>e \<in> set es. ae_type e = ''operator.sign_in'' \<and> ae_operator e = Some oper
     \<and> ae_at e + ttl = expires)"

definition audited :: "rat \<Rightarrow> access_state \<Rightarrow> bool" where
  "audited ttl st = (\<forall>(token, oper, expires) \<in> set (sessions st). signed_in ttl (events st) oper expires)"

lemma audited_tame: "audited ttl st \<Longrightarrow> tame st st' \<Longrightarrow> audited ttl st'"
  unfolding audited_def tame_def signed_in_def by fast

lemma audited_sign_in:
  assumes "audited ttl st"
  shows "audited ttl (snd (operator_sign_in E ttl now email password st))"
proof (cases "sign_in E ttl now email password st")
  case (Some x)
  obtain tok st1 where x: "x = (tok, st1)" by (cases x)
  show ?thesis
  proof (cases tok)
    case None
    then show ?thesis using Some x assms
      by (auto simp: operator_sign_in_def sign_in_def Let_def split: option.splits if_splits bool.splits)
  next
    case (Some token)
    then obtain oper where oper: "operator_by_email email st = Some oper"
      and st1: "st1 = st\<lparr>sessions := memory_create (sessions st) now token (op_id oper) ttl, draws := Suc (draws st)\<rparr>"
      using \<open>sign_in E ttl now email password st = Some x\<close> x
      by (auto simp: sign_in_def Let_def split: option.splits if_splits bool.splits)
    let ?st' = "record_event E now ''operator.sign_in'' (Some (op_id oper)) None [(''email'', JText email)] st1"
    have same: "operator_by_email email st1 = Some oper" using oper by (simp add: st1 operator_by_email_def)
    have new: "signed_in ttl (events ?st') (op_id oper) (now + ttl)" by (auto simp: signed_in_def record_event_def)
    have old: "signed_in ttl (events ?st') i e" if "signed_in ttl (events st) i e" for i e
      using that by (auto simp: signed_in_def record_event_def st1)
    have "set (sessions ?st') \<subseteq> set (sessions st) \<union> {(token, op_id oper, now + ttl)}"
      using update_sub by (force simp: record_event_def st1 memory_create_def)
    then have "audited ttl ?st'" using assms new old by (fastforce simp: audited_def)
    then show ?thesis using \<open>sign_in E ttl now email password st = Some x\<close> x Some same
      by (simp add: operator_sign_in_def)
  qed
qed (simp add: operator_sign_in_def assms)

lemma handle_audited: "audited ttl st \<Longrightarrow> audited ttl (handle E ttl now c st)"
proof (cases "\<exists>email password. c = Sign_in email password")
  case True
  then show "audited ttl st \<Longrightarrow> ?thesis" using audited_sign_in by auto
next
  case False
  then show "audited ttl st \<Longrightarrow> ?thesis" using audited_tame [OF _ handle_tame] by blast
qed

lemma reaches_audited: "reaches E ttl st st' \<Longrightarrow> audited ttl st \<Longrightarrow> audited ttl st'"
  by (induction rule: reaches.induct) (auto intro: handle_audited)

lemma served_session:
  assumes "get_current_operator now auth st = (Served oper, st')"
  shows "\<exists>token expires. (token, op_id oper, expires) \<in> set (sessions st) \<and> now < expires \<and> oper \<in> set (operators st)"
proof -
  obtain token holder st1 where t: "extract_bearer_token auth = Some token" "operator_id_from_token now token st = (holder, st1)"
    and o: "Option.bind holder (\<lambda>i. operator_by_id i st1) = Some oper"
    using assms by (auto simp: get_current_operator_def split: option.splits prod.splits)
  obtain i where i: "holder = Some i" "operator_by_id i st1 = Some oper" using o by (cases holder) auto
  have "oper \<in> set (operators st1)" "op_id oper = i" using i(2) by (auto simp: operator_by_id_def find_Some_iff)
  moreover obtain expires where "map_of (sessions st) token = Some (i, expires)" "now < expires"
    using t(2) i(1) by (auto simp: operator_id_from_token_def memory_get_def split: option.splits if_splits prod.splits)
  moreover have "operators st1 = operators st" using tame_token [OF t(2)] by (simp add: tame_def)
  ultimately show ?thesis using map_of_SomeD by metis
qed

text \<open>C22. Acting as an operator takes a recorded sign-in: starting without sessions, whatever is called and
  in whatever order, a request is served as an operator only if the audit log holds a sign-in of
  that operator less than one session length before it.\<close>

theorem served_only_after_sign_in:
  assumes "reaches E ttl st0 st" and "sessions st0 = []" and "get_current_operator now auth st = (Served oper, st')"
  shows "\<exists>e \<in> set (events st). ae_type e = ''operator.sign_in'' \<and> ae_operator e = Some (op_id oper) \<and> now < ae_at e + ttl"
proof -
  have "audited ttl st" using reaches_audited [OF assms(1)] assms(2) by (simp add: audited_def)
  then show ?thesis using served_session [OF assms(3)] by (fastforce simp: audited_def signed_in_def)
qed

section \<open>Keys over time\<close>

definition ages :: "client_row \<Rightarrow> client_row \<Rightarrow> bool" where
  \<comment> \<open>what handlers may change of a row: its last use, and from active to revoked\<close>
  "ages c d = (cl_client d = cl_client c \<and> cl_prefix d = cl_prefix c \<and> cl_hash d = cl_hash c \<and> cl_name d = cl_name c
     \<and> (cl_active d \<longrightarrow> cl_active c))"

lemma ages_refl [simp]: "ages c c"
  by (simp add: ages_def)

definition clients_age :: "client_row list \<Rightarrow> client_row list \<Rightarrow> bool" where
  "clients_age cs ds = (list_all2 ages cs (take (length cs) ds)
     \<and> (distinct (map cl_prefix cs) \<longrightarrow> distinct (map cl_prefix ds)))"

lemma clients_age_refl [simp]: "clients_age cs cs"
  by (simp add: clients_age_def list_all2_refl)

lemma clients_age_trans:
  assumes "clients_age a b" and "clients_age b c"
  shows "clients_age a c"
proof -
  have n: "length a \<le> length b" using assms(1) by (auto simp: clients_age_def dest: list_all2_lengthD)
  have "list_all2 ages (take (length a) b) (take (length a) c)"
    using assms(2) n by (auto simp: clients_age_def dest: list_all2_takeI [where n = "length a"])
  moreover have "ages x z" if "ages x y" "ages y z" for x y z using that by (auto simp: ages_def)
  ultimately have "list_all2 ages a (take (length a) c)"
    using assms(1) by (auto simp: clients_age_def elim: list_all2_trans [rotated])
  then show ?thesis using assms by (auto simp: clients_age_def)
qed

lemma clients_age_update: "(\<And>x. ages x (f x)) \<Longrightarrow> clients_age cs (update_first P f cs)"
proof -
  assume f: "\<And>x. ages x (f x)"
  have "list_all2 ages cs (update_first P f cs)" using f by (induction cs) (auto simp: list_all2_refl)
  moreover have "map cl_prefix (update_first P f cs) = map cl_prefix cs"
    by (rule update_first_map) (use f in \<open>simp add: ages_def\<close>)
  ultimately show ?thesis using list_all2_lengthD by (fastforce simp: clients_age_def)
qed

lemma clients_age_append: "\<forall>c \<in> set cs. cl_prefix c \<noteq> cl_prefix row \<Longrightarrow> clients_age cs (cs @ [row])"
  by (auto simp: clients_age_def list_all2_refl)

lemma clients_same:
  "operator_id_from_token now token st = (holder, st') \<Longrightarrow> clients st' = clients st"
  "get_current_operator now auth st = (r, st') \<Longrightarrow> clients st' = clients st"
  "require_lead E now auth st = (r', st') \<Longrightarrow> clients st' = clients st"
  "require_lead_or_examiner now auth st = (r, st') \<Longrightarrow> clients st' = clients st"
  "clients (record_event E now t oper cl d st) = clients st"
  "clients (operator_sign_out auth st) = clients st"
  by (auto simp: operator_id_from_token_def get_current_operator_def require_lead_def require_lead_or_examiner_def
      record_event_def operator_sign_out_def split: option.splits prod.splits reply.splits if_splits)

lemmas clients_snd = clients_same(2-4) [OF prod.collapse [symmetric]]

lemma age_sign_in: "clients (snd (operator_sign_in E ttl now email password st)) = clients st"
  by (auto simp: operator_sign_in_def sign_in_def Let_def clients_same(5) split: option.splits prod.splits if_splits bool.splits)

lemma age_resolve: "resolve_api_client E now key st = Some (c, st') \<Longrightarrow> clients_age (clients st) (clients st')"
  by (auto simp: resolve_api_client_def Let_def ages_def intro!: clients_age_update split: if_splits option.splits bool.splits)

lemma age_create: "create_api_client E now name st = Some (row, key, st') \<Longrightarrow> clients_age (clients st) (clients st')"
  by (auto simp: create_api_client_def Let_def list_ex_iff simp del: take_append intro!: clients_age_append split: if_splits)

lemma handle_age: "clients_age (clients st) (clients (handle E ttl now c st))"
proof (cases c)
  case (New_key auth name)
  show ?thesis
    by (auto simp: New_key create_client_def Let_def clients_same split: prod.split reply.split option.split
        dest: clients_same(3) age_create)
next
  case (Revoke auth i)
  show ?thesis
    by (auto simp: Revoke revoke_client_def Let_def clients_same(5) ages_def split: prod.split reply.split option.split
        dest!: clients_same(3) intro!: clients_age_update)
next
  case (As_client key)
  show ?thesis
    by (auto simp: As_client get_current_api_client_def split: option.split dest: age_resolve)
next
  case (As_principal key auth)
  show ?thesis
    by (auto simp: As_principal get_principal_def get_current_api_client_def split: option.splits prod.split reply.split
        dest: age_resolve clients_same(2))
qed (auto simp: age_sign_in clients_same clients_snd list_clients_def forbid_examiner_writes_def
    split: option.split prod.split reply.split dest: clients_same(1-4))

lemma reaches_age: "reaches E ttl st st' \<Longrightarrow> clients_age (clients st) (clients st')"
  by (induction rule: reaches.induct) (auto intro: clients_age_trans handle_age)

lemma find_prefix: "distinct (map cl_prefix cs) \<Longrightarrow> c \<in> set cs \<Longrightarrow> find (\<lambda>x. cl_prefix x = cl_prefix c) cs = Some c"
  by (induction cs) auto

lemma aged_row:
  assumes "reaches E ttl st st'" and "distinct (map cl_prefix (clients st))" and "c \<in> set (clients st)"
  shows "\<exists>d. ages c d \<and> find (\<lambda>x. cl_prefix x = cl_prefix c) (clients st') = Some d"
proof -
  have age: "clients_age (clients st) (clients st')" by (rule reaches_age [OF assms(1)])
  obtain i where i: "i < length (clients st)" "clients st ! i = c" using assms(3) by (auto simp: in_set_conv_nth)
  have all: "list_all2 ages (clients st) (take (length (clients st)) (clients st'))" using age by (simp add: clients_age_def)
  have n: "length (clients st) \<le> length (clients st')" using list_all2_lengthD [OF all] by simp
  have d: "ages c (clients st' ! i)" using list_all2_nthD [OF all i(1)] i by simp
  have mem: "clients st' ! i \<in> set (clients st')" using i(1) n by simp
  have dist: "distinct (map cl_prefix (clients st'))" using age assms(2) by (simp add: clients_age_def)
  from find_prefix [OF dist mem] d show ?thesis by (auto simp: ages_def)
qed

lemma principal_of_key:
  assumes "find (\<lambda>x. cl_prefix x = take PREFIX_LEN key) (clients st) = Some d" and "PREFIX_LEN < length key"
    and "cl_active d \<Longrightarrow> verify_password E key (cl_hash d) = Some True"
  shows "fst (get_principal E now (Some key) auth st) = (if cl_active d
      then Served \<lparr>pr_kind = SystemKind, pr_id = cl_client d, pr_name = cl_name d, pr_operator = None, pr_client = Some (cl_client d)\<rparr>
      else Refused 401)"
  using assms by (auto simp: get_principal_def get_current_api_client_def resolve_api_client_def Let_def PREFIX_LEN_def)

text \<open>An API key works until it is revoked: from its creation on, whatever is called, the key identifies
  the client it was created for as long as that client's row is active, and is refused otherwise.\<close>

theorem api_key_identifies_client:
  assumes "create_client E now auth name st = (Served (row, key), st1)" and "reaches E ttl st1 st2"
    and "distinct (map cl_prefix (clients st))" and "\<And>n. 8 < length (fresh_token E n)"
  shows "\<exists>d. ages row d \<and> find (\<lambda>x. cl_prefix x = take PREFIX_LEN key) (clients st2) = Some d
    \<and> fst (get_principal E later (Some key) auth' st2) = (if cl_active d
      then Served \<lparr>pr_kind = SystemKind, pr_id = cl_client row, pr_name = cl_name row, pr_operator = None,
             pr_client = Some (cl_client row)\<rparr>
      else Refused 401)"
proof -
  obtain lead st0 where lead: "require_lead E now auth st = (Served lead, st0)"
    using assms(1) by (cases "require_lead E now auth st"; cases "fst (require_lead E now auth st)") (auto simp: create_client_def)
  obtain st0' where create: "create_api_client E now (str_strip name) st0 = Some (row, key, st0')" and st1: "clients st1 = clients st0'"
    using assms(1) lead by (auto simp: create_client_def Let_def clients_same(5) split: if_splits option.splits)
  have same: "clients st0 = clients st" by (rule clients_same(3) [OF lead])
  have key: "key = API_KEY_PREFIX @ fresh_token E (draws st0)" "cl_prefix row = take PREFIX_LEN key"
    "cl_hash row = hash_password E (fresh_salt E (draws st0)) key"
    and all: "clients st0' = clients st @ [row]"
    using create same by (auto simp: create_api_client_def Let_def split: if_splits)
  have dist: "distinct (map cl_prefix (clients st1))"
    using age_create [OF create] assms(3) same st1 by (simp add: clients_age_def)
  have row: "row \<in> set (clients st1)" using all st1 by simp
  obtain d where d: "ages row d" "find (\<lambda>x. cl_prefix x = take PREFIX_LEN key) (clients st2) = Some d"
    using aged_row [OF assms(2) dist row] key(2) by auto
  have long: "PREFIX_LEN < length key" using assms(4) [of "draws st0"] by (simp add: key(1) PREFIX_LEN_def API_KEY_PREFIX_def)
  have hash: "verify_password E key (cl_hash d) = Some True" using d(1) key(3) by (simp add: ages_def verify_hash)
  show ?thesis using principal_of_key [OF d(2) long hash, of later auth'] d by (auto simp: ages_def)
qed

text \<open>A revoked key is refused for good: once a lead has revoked a client, no later request is served with
  a key of that client, whatever is called in between.\<close>

theorem revoked_key_refused:
  assumes "revoke_client E now auth i st = (Served answer, st1)" and "reaches E ttl st1 st2"
    and "distinct (map cl_prefix (clients st))" and "c \<in> set (clients st)" and "cl_client c = i"
    and "distinct (map cl_client (clients st))" and "take PREFIX_LEN key = cl_prefix c" and "key \<noteq> []"
  shows "fst (get_principal E later (Some key) auth' st2) = Refused 401"
proof -
  obtain lead st0 where lead: "require_lead E now auth st = (Served lead, st0)"
    using assms(1) by (cases "require_lead E now auth st"; cases "fst (require_lead E now auth st)") (auto simp: revoke_client_def)
  have same: "clients st0 = clients st" by (rule clients_same(3) [OF lead])
  let ?off = "\<lambda>x. x\<lparr>cl_active := False\<rparr>"
  have rows: "clients st1 = update_first (\<lambda>x. cl_client x = i) ?off (clients st)"
    using assms(1) lead same by (auto simp: revoke_client_def Let_def clients_same(5) split: option.splits if_splits)
  have off: "?off c \<in> set (update_first (\<lambda>x. cl_client x = i) ?off cs)"
    if "distinct (map cl_client cs)" "c \<in> set cs" for cs using that assms(5) by (induction cs) auto
  have dist: "distinct (map cl_prefix (clients st1))"
    unfolding rows by (subst update_first_map) (simp_all add: assms(3))
  obtain d where d: "ages (?off c) d" "find (\<lambda>x. cl_prefix x = cl_prefix c) (clients st2) = Some d"
    using aged_row [OF assms(2) dist, of "?off c"] off [OF assms(6,4)] rows by auto
  have inactive: "\<not> cl_active d" using d(1) by (simp add: ages_def)
  then show ?thesis using d(2) assms(7,8)
    by (auto simp: get_principal_def get_current_api_client_def resolve_api_client_def Let_def)
qed

section \<open>Roles\<close>

lemma lead_served: "require_lead E now auth st = (Served oper, st') \<Longrightarrow>
    get_current_operator now auth st = (Served oper, st') \<and> op_role oper = ''lead''"
  by (auto simp: require_lead_def split: prod.splits reply.splits if_splits)

lemma create_client_cases: "case create_client E now auth name st of
      (Served _, _) \<Rightarrow> (\<exists>oper st'. require_lead E now auth st = (Served oper, st'))
    | (Refused _, st') \<Rightarrow> clients st' = clients st"
  by (cases "require_lead E now auth st")
    (auto simp: create_client_def Let_def split: prod.splits reply.splits option.splits if_splits dest: clients_same(3))

lemma revoke_client_cases: "case revoke_client E now auth i st of
      (Served _, _) \<Rightarrow> (\<exists>oper st'. require_lead E now auth st = (Served oper, st'))
    | (Refused _, st') \<Rightarrow> clients st' = clients st"
  by (cases "require_lead E now auth st")
    (auto simp: revoke_client_def Let_def split: prod.splits reply.splits option.splits if_splits dest: clients_same(3))

text \<open>C23. Keys are managed by leads only, and examiners only read: creating or revoking a key is
  served only to an operator whose role is lead, any other attempt leaves the keys as they are, and
  the guard refuses exactly the requests of an examiner that are not a read, a sign-in or sign-out or a replay.\<close>

theorem roles_are_enforced:
  "(case create_client E now auth name st of
      (Served _, _) \<Rightarrow> (\<exists>oper st'. get_current_operator now auth st = (Served oper, st') \<and> op_role oper = ''lead'')
    | (Refused _, st') \<Rightarrow> clients st' = clients st)
    \<and> (case revoke_client E now auth i st of
      (Served _, _) \<Rightarrow> (\<exists>oper st'. get_current_operator now auth st = (Served oper, st') \<and> op_role oper = ''lead'')
    | (Refused _, st') \<Rightarrow> clients st' = clients st)
    \<and> (case get_current_operator now auth st of
      (Served oper, _) \<Rightarrow> (fst (forbid_examiner_writes E now verb path auth st) = Refused 403)
        = (op_role oper = ''examiner'' \<and> verb \<notin> set READ_METHODS \<and> \<not> sign_path path \<and> \<not> replay_path path)
    | (Refused _, _) \<Rightarrow> fst (forbid_examiner_writes E now verb path auth st) = Served ())"
proof (intro conjI)
  show "case create_client E now auth name st of
      (Served _, _) \<Rightarrow> (\<exists>oper st'. get_current_operator now auth st = (Served oper, st') \<and> op_role oper = ''lead'')
    | (Refused _, st') \<Rightarrow> clients st' = clients st"
    using create_client_cases [where E = E and now = now and auth = auth and name = name and st = st] by (auto split: prod.splits reply.splits dest: lead_served)
  show "case revoke_client E now auth i st of
      (Served _, _) \<Rightarrow> (\<exists>oper st'. get_current_operator now auth st = (Served oper, st') \<and> op_role oper = ''lead'')
    | (Refused _, st') \<Rightarrow> clients st' = clients st"
    using revoke_client_cases [where E = E and now = now and auth = auth and i = i and st = st] by (auto split: prod.splits reply.splits dest: lead_served)
  show "case get_current_operator now auth st of
      (Served oper, _) \<Rightarrow> (fst (forbid_examiner_writes E now verb path auth st) = Refused 403)
        = (op_role oper = ''examiner'' \<and> verb \<notin> set READ_METHODS \<and> \<not> sign_path path \<and> \<not> replay_path path)
    | (Refused _, _) \<Rightarrow> fst (forbid_examiner_writes E now verb path auth st) = Served ()"
    by (auto simp: get_current_operator_def forbid_examiner_writes_def split: option.splits prod.splits)
qed

section \<open>Examples\<close>

definition sample_access_env :: access_env where
  "sample_access_env = \<lparr>kdf = (\<lambda>p s n. p @ s), fresh_uuid = (\<lambda>n. replicate n CHR ''u''),
     fresh_token = (\<lambda>n. replicate 10 CHR ''t'' @ replicate n CHR ''t''), fresh_salt = (\<lambda>n. replicate n CHR ''s'')\<rparr>"

definition sample_access :: access_state where
  "sample_access = \<lparr>operators = [\<lparr>op_id = ''o1'', op_email = ''lead@x'', op_role = ''lead'',
       op_password = Some ''pbkdf2_sha256:1:61:7061''\<rparr>],
     clients = [], sessions = [], events = [], draws = 1\<rparr>"

definition sample_signed_in :: access_state where
  "sample_signed_in = handle sample_access_env 100 5 (Sign_in ''lead@x'' ''p'') sample_access"

abbreviation sample_bearer :: "string option" where
  "sample_bearer \<equiv> Some ''Bearer ttttttttttt''"

definition sample_client :: client_row where
  "sample_client = \<lparr>cl_client = ''uuu'', cl_created = 50, cl_name = ''sys'', cl_prefix = ''eiq_tttttttt'',
     cl_hash = hash_password sample_access_env ''sss'' ''eiq_ttttttttttttt'', cl_active = True, cl_last_used = None\<rparr>"

definition sample_created :: "(client_row \<times> string) reply \<times> access_state" where
  "sample_created = create_client sample_access_env 50 sample_bearer ''sys'' sample_signed_in"

lemma sample_no_clients: "clients sample_signed_in = []" and sample_draws: "draws sample_signed_in = 3"
  by code_simp+

lemma sample_lead_served: "get_current_operator 50 sample_bearer sample_signed_in = (Served (hd (operators sample_access)), sample_signed_in)"
  by code_simp

lemma sample_lead: "require_lead sample_access_env 50 sample_bearer sample_signed_in = (Served (hd (operators sample_access)), sample_signed_in)"
  by (simp add: require_lead_def sample_lead_served sample_access_def)

lemma sample_name: "str_strip ''sys'' = ''sys''"
  by code_simp

lemma sample_key_row: "create_api_client sample_access_env 50 ''sys'' sample_signed_in
    = Some (sample_client, ''eiq_ttttttttttttt'', sample_signed_in\<lparr>clients := [sample_client], draws := 4\<rparr>)"
  by (simp add: create_api_client_def Let_def sample_no_clients sample_draws sample_client_def sample_access_env_def
      API_KEY_PREFIX_def PREFIX_LEN_def numeral_eq_Suc)

lemma sample_created_served: "fst sample_created = Served (sample_client, ''eiq_ttttttttttttt'')"
  and sample_created_rows: "clients (snd sample_created) = [sample_client]" "sessions (snd sample_created) = sessions sample_signed_in"
    "operators (snd sample_created) = operators sample_signed_in"
  by (simp_all add: sample_created_def create_client_def sample_lead sample_name sample_no_clients sample_key_row record_event_def)

lemma password_roundtrip_sample: "verify_password sample_access_env ''q'' (hash_password sample_access_env ''s'' ''p'') = Some False"
  by (simp add: verify_hash sample_access_env_def)

lemma served_only_after_sign_in_witness:
  "\<exists>e \<in> set (events sample_signed_in). ae_type e = ''operator.sign_in'' \<and> ae_operator e = Some ''o1'' \<and> 50 < ae_at e + 100"
proof -
  have "reaches sample_access_env 100 sample_access sample_signed_in"
    unfolding sample_signed_in_def by (rule reaches.intros)+
  from served_only_after_sign_in [OF this _ sample_lead_served] show ?thesis by (simp add: sample_access_def)
qed

lemma sample_fresh_keys: "8 < length (fresh_token sample_access_env n)"
  by (simp add: sample_access_env_def)

lemma api_key_identifies_client_witness:
  "\<exists>d. ages sample_client d \<and> fst (get_principal sample_access_env 60 (Some ''eiq_ttttttttttttt'') None (snd sample_created))
     = (if cl_active d then Served \<lparr>pr_kind = SystemKind, pr_id = ''uuu'', pr_name = ''sys'', pr_operator = None, pr_client = Some ''uuu''\<rparr>
        else Refused 401)"
proof -
  have "create_client sample_access_env 50 sample_bearer ''sys'' sample_signed_in
      = (Served (sample_client, ''eiq_ttttttttttttt''), snd sample_created)"
    using sample_created_served by (simp add: prod_eq_iff sample_created_def)
  from api_key_identifies_client [OF this reaches.here _ sample_fresh_keys, where later = 60 and auth' = None] show ?thesis
    by (auto simp: sample_no_clients sample_client_def)
qed

definition sample_revoked :: "(string \<times> string \<times> bool) reply \<times> access_state" where
  "sample_revoked = revoke_client sample_access_env 60 sample_bearer ''uuu'' (snd sample_created)"

lemma sample_revoked_served: "fst sample_revoked = Served (''uuu'', ''sys'', False)"
proof -
  have bearer: "extract_bearer_token sample_bearer = Some ''ttttttttttt''" by code_simp
  have holder: "memory_get (sessions sample_signed_in) 60 ''ttttttttttt'' = (Some ''o1'', sessions sample_signed_in)" by code_simp
  have ops: "operators sample_signed_in = operators sample_access" by code_simp
  show ?thesis
    by (simp add: sample_revoked_def revoke_client_def require_lead_def get_current_operator_def bearer
        operator_id_from_token_def sample_created_rows holder operator_by_id_def ops sample_access_def sample_client_def Let_def)
qed

lemma revoked_key_refused_witness:
  "fst (get_principal sample_access_env 70 (Some ''eiq_ttttttttttttt'') None (snd sample_revoked)) = Refused 401"
proof -
  have "revoke_client sample_access_env 60 sample_bearer ''uuu'' (snd sample_created)
      = (Served (''uuu'', ''sys'', False), snd sample_revoked)"
    using sample_revoked_served by (simp add: prod_eq_iff sample_revoked_def)
  from revoked_key_refused [OF this reaches.here, where c = sample_client and key = "''eiq_ttttttttttttt''" and later = 70 and auth' = None] show ?thesis
    by (simp add: sample_created_rows sample_client_def PREFIX_LEN_def)
qed

text \<open>A Redis client over a dictionary.\<close>

definition dict_redis :: "session_dict redis" where
  "dict_redis = \<lparr>setex = (\<lambda>s t k ttl v. memory_create s t k v ttl), rget = (\<lambda>s t k. fst (memory_get s t k)),
     rdelete = memory_delete, rkeys = (\<lambda>s p. filter (prefix p) (map fst s))\<rparr>"

lemma dict_redis_ok: "redis_ok dict_redis"
proof -
  have "k \<in> fst ` set s" if "fst (memory_get s t' k) \<noteq> None" for s t' k
    using that by (cases "map_of s k") (auto simp: memory_get_def dest!: map_of_SomeD intro: rev_image_eqI)
  then show ?thesis unfolding redis_ok_def dict_redis_def by (simp add: memory.get_created memory.get_deleted)
qed

lemma session_stores_agree_witness:
  "fst (memory_get (fold (apply_op memory_create memory_get memory_delete) [Open 1 ''t'' ''o'' 10, Look 3 ''t''] []) 5 ''t'') = Some ''o''"
  using session_stores_agree [OF dict_redis_ok, of 5 "[Open 1 ''t'' ''o'' 10, Look 3 ''t'']" "[]" "''t''"]
  by (simp add: dict_redis_def memory_get_def)

end
