(* ===== verification/Patterns.thy ===== *)
theory Patterns
  imports Prelude
begin

text \<open>
  The regular expressions the code searches with are sequences of literals and repeated character
  classes, some of them captured: a matcher for these, with the order Python's \<open>re\<close> tries
  alternatives in (leftmost start, longest repetition first) and literals compared without case.
  \<open>Between\<close> captures a repetition with a bound, \<open>Stop\<close> is the end a \<open>fullmatch\<close> asks for.
\<close>

datatype item = Lit string | One "char \<Rightarrow> bool" | Many "char \<Rightarrow> bool" nat | Capture "char \<Rightarrow> bool" nat
  | Between "char \<Rightarrow> bool" nat nat | Stop

fun greedy :: "(char \<Rightarrow> bool) \<Rightarrow> nat \<Rightarrow> (string \<Rightarrow> string \<Rightarrow> 'r option) \<Rightarrow> string \<Rightarrow> string \<Rightarrow> 'r option" where
  \<comment> \<open>at least \<open>n\<close> characters of a class; the continuation gets those taken and the rest\<close>
  "greedy P n k taken [] = (if n \<le> length taken then k taken [] else None)"
| "greedy P n k taken (c # cs) =
     (case (if P c then greedy P n k (taken @ [c]) cs else None) of
        Some r \<Rightarrow> Some r
      | None \<Rightarrow> if n \<le> length taken then k taken (c # cs) else None)"

fun bounded :: "(char \<Rightarrow> bool) \<Rightarrow> nat \<Rightarrow> nat \<Rightarrow> (string \<Rightarrow> string \<Rightarrow> 'r option) \<Rightarrow> string \<Rightarrow> string \<Rightarrow> 'r option" where
  \<comment> \<open>at least \<open>n\<close> and at most \<open>m\<close> more characters of a class\<close>
  "bounded P n (Suc m) k taken (c # cs) =
     (case (if P c then bounded P n m k (taken @ [c]) cs else None) of
        Some r \<Rightarrow> Some r
      | None \<Rightarrow> if n \<le> length taken then k taken (c # cs) else None)"
| "bounded P n m k taken s = (if n \<le> length taken then k taken s else None)"

fun match_items :: "item list \<Rightarrow> string list \<Rightarrow> string \<Rightarrow> string list option" where
  "match_items [] found s = Some found"
| "match_items (Lit p # items) found s =
     (if length p \<le> length s \<and> str_lower (take (length p) s) = str_lower p
      then match_items items found (drop (length p) s) else None)"
| "match_items (One P # items) found s = (case s of [] \<Rightarrow> None | c # cs \<Rightarrow> if P c then match_items items found cs else None)"
| "match_items (Many P n # items) found s = greedy P n (\<lambda>_ rest. match_items items found rest) [] s"
| "match_items (Capture P n # items) found s = greedy P n (\<lambda>w rest. match_items items (found @ [w]) rest) [] s"
| "match_items (Between P n m # items) found s = bounded P n m (\<lambda>w rest. match_items items (found @ [w]) rest) [] s"
| "match_items (Stop # items) found s = (if s = [] then match_items items found s else None)"

fun search :: "item list \<Rightarrow> string \<Rightarrow> string list option" where
  "search items [] = match_items items [] []"
| "search items (c # cs) = (case match_items items [] (c # cs) of Some r \<Rightarrow> Some r | None \<Rightarrow> search items cs)"

section \<open>Facts for proofs about matches\<close>

lemma greedy_none: "(\<And>w t. suffix t s \<Longrightarrow> k w t = None) \<Longrightarrow> greedy P n k taken s = None"
  by (induction s arbitrary: taken) (auto simp: suffix_Cons split: if_splits)

lemma greedy_step: "P c \<Longrightarrow> greedy P n k taken (c # cs) =
    (case greedy P n k (taken @ [c]) cs of Some r \<Rightarrow> Some r | None \<Rightarrow> if n \<le> length taken then k taken (c # cs) else None)"
  by simp

lemma greedy_stop: "\<not> P c \<Longrightarrow> greedy P n k taken (c # cs) = (if n \<le> length taken then k taken (c # cs) else None)"
  by simp

lemma greedy_all: "list_all P w \<Longrightarrow> k (taken @ w) [] = Some r \<Longrightarrow> n \<le> length taken + length w \<Longrightarrow> greedy P n k taken w = Some r"
  by (induction w arbitrary: taken) auto

lemma bounded_found:
  assumes "bounded P n m k taken s = Some r"
  shows "\<exists>w rest. s = w @ rest \<and> list_all P w \<and> n \<le> length taken + length w \<and> length w \<le> m \<and> k (taken @ w) rest = Some r"
  using assms
proof (induction P n m k taken s rule: bounded.induct)
  case (1 P n m k taken c cs)
  show ?case
  proof (cases "if P c then bounded P n m k (taken @ [c]) cs else None")
    case None
    then have "n \<le> length taken \<and> k taken (c # cs) = Some r" using 1(2) by (auto split: if_splits)
    then show ?thesis by (intro exI [of _ "[]"] exI [of _ "c # cs"]) simp
  next
    case (Some r')
    then have "P c" and "bounded P n m k (taken @ [c]) cs = Some r" using 1(2) by (auto split: if_splits)
    from 1(1) [OF this] obtain w rest where "cs = w @ rest" "list_all P w" "n \<le> length (taken @ [c]) + length w"
      "length w \<le> m" "k ((taken @ [c]) @ w) rest = Some r" by blast
    then show ?thesis using \<open>P c\<close> by (intro exI [of _ "c # w"] exI [of _ rest]) simp
  qed
qed (auto split: if_splits intro: exI [of _ "[]"])

lemma greedy_found:
  assumes "greedy P n k taken s = Some r"
  shows "\<exists>w rest. s = w @ rest \<and> list_all P w \<and> n \<le> length taken + length w \<and> k (taken @ w) rest = Some r"
  using assms
proof (induction s arbitrary: taken)
  case Nil
  then show ?case by (auto split: if_splits)
next
  case (Cons c cs)
  show ?case
  proof (cases "if P c then greedy P n k (taken @ [c]) cs else None")
    case None
    then have "n \<le> length taken \<and> k taken (c # cs) = Some r" using Cons.prems by (auto split: if_splits)
    then show ?thesis by (intro exI [of _ "[]"] exI [of _ "c # cs"]) simp
  next
    case (Some r')
    then have "P c" and "greedy P n k (taken @ [c]) cs = Some r" using Cons.prems by (auto split: if_splits)
    from Cons.IH [OF this(2)] obtain w rest where "cs = w @ rest" "list_all P w" "n \<le> length (taken @ [c]) + length w"
      "k ((taken @ [c]) @ w) rest = Some r" by blast
    then show ?thesis using \<open>P c\<close> by (intro exI [of _ "c # w"] exI [of _ rest]) simp
  qed
qed

text \<open>What a match captured has the length and the characters its items ask for.\<close>

fun fits :: "item list \<Rightarrow> string list \<Rightarrow> bool" where
  "fits (Capture P n # items) (w # ws) = (list_all P w \<and> n \<le> length w \<and> fits items ws)"
| "fits (Between P n m # items) (w # ws) = (list_all P w \<and> n \<le> length w \<and> length w \<le> m \<and> fits items ws)"
| "fits (Capture P n # items) [] = False"
| "fits (Between P n m # items) [] = False"
| "fits (_ # items) ws = fits items ws"
| "fits [] ws = (ws = [])"

lemma match_items_fits: "match_items items found s = Some r \<Longrightarrow> \<exists>ws. r = found @ ws \<and> fits items ws"
proof (induction items arbitrary: found s r)
  case (Cons i items)
  then show ?case
  proof (cases i)
    case (Capture P n)
    then obtain w rest where w: "list_all P w" "n \<le> length w" "match_items items (found @ [w]) rest = Some r"
      using Cons.prems greedy_found [of P n "\<lambda>w rest. match_items items (found @ [w]) rest" "[]" s r] by auto
    from Cons.IH [OF w(3)] obtain ws where "r = found @ w # ws" "fits items ws" by auto
    then show ?thesis using Capture w(1,2) by (intro exI [of _ "w # ws"]) simp
  next
    case (Between P n m)
    then obtain w rest where w: "list_all P w" "n \<le> length w" "length w \<le> m" "match_items items (found @ [w]) rest = Some r"
      using Cons.prems bounded_found [of P n m "\<lambda>w rest. match_items items (found @ [w]) rest" "[]" s r] by auto
    from Cons.IH [OF w(4)] obtain ws where "r = found @ w # ws" "fits items ws" by auto
    then show ?thesis using Between w(1,2,3) by (intro exI [of _ "w # ws"]) simp
  next
    case (Many P n)
    then obtain w rest where "match_items items found rest = Some r"
      using Cons.prems greedy_found [of P n "\<lambda>_ rest. match_items items found rest" "[]" s r] by auto
    from Cons.IH [OF this] show ?thesis using Many by simp
  qed (auto split: if_splits list.splits)
qed simp

lemma greedy_exact:
  assumes "list_all P w" and "\<not> P c" and "n \<le> length taken + length w" and "k (taken @ w) (c # cs) = Some r"
  shows "greedy P n k taken (w @ c # cs) = Some r"
  using assms by (induction w arbitrary: taken) auto

lemma search_skip: "(\<And>t. suffix t (pre @ s) \<Longrightarrow> length s < length t \<Longrightarrow> match_items items [] t = None) \<Longrightarrow>
    search items (pre @ s) = search items s"
proof (induction pre)
  case (Cons c pre)
  have "match_items items [] ((c # pre) @ s) = None" by (rule Cons.prems) simp_all
  moreover have "search items (pre @ s) = search items s"
    by (rule Cons.IH, rule Cons.prems) (simp_all add: suffix_Cons)
  ultimately show ?case by simp
qed simp

lemma search_here: "match_items items [] s = Some r \<Longrightarrow> search items s = Some r"
  by (cases s) simp_all

end
