(* ===== verification/Ip_Address.thy ===== *)
theory Ip_Address
  imports Prelude "HOL-Library.Word"
begin

text \<open>
  What the code uses of Python's \<open>ipaddress\<close>: parsing and printing of addresses, networks of a
  given prefix and the reserved ranges, as of Python 3.11. An IPv4 address is a word of 32 bits, an
  IPv6 address one of 128 bits with its scope.
\<close>

unbundle bit_operations_syntax

section \<open>Parsing\<close>

datatype ip = V4 "32 word" | V6 "128 word" "string option"

definition parse_octet :: "string \<Rightarrow> 32 word option" where
  "parse_octet s =
    (if s = [] \<or> \<not> list_all is_digit s \<or> 3 < length s \<or> s \<noteq> ''0'' \<and> hd s = CHR ''0'' then None
     else case unsigned_int s of None \<Rightarrow> None | Some n \<Rightarrow> if 255 < n then None else Some (word_of_int n))"

definition parse_ipv4 :: "string \<Rightarrow> 32 word option" where
  "parse_ipv4 s =
    (if CHR ''/'' \<in> set s then None
     else case split_on CHR ''.'' s of
       [a, b, c, d] \<Rightarrow> do {
         w \<leftarrow> parse_octet a; x \<leftarrow> parse_octet b; y \<leftarrow> parse_octet c; z \<leftarrow> parse_octet d;
         Some (push_bit 24 w OR push_bit 16 x OR push_bit 8 y OR z)
       }
     | _ \<Rightarrow> None)"

definition hex_value :: "char \<Rightarrow> nat option" where
  "hex_value c =
    (if is_digit c then Some (of_char c - 48)
     else let n = (of_char (lower_char c) :: nat) in if 97 \<le> n \<and> n \<le> 102 then Some (n - 87) else None)"

definition parse_hextet :: "string \<Rightarrow> 128 word option" where
  "parse_hextet s =
    (if s = [] \<or> 4 < length s then None
     else fold (\<lambda>c acc. do { w \<leftarrow> acc; n \<leftarrow> hex_value c; Some (push_bit 4 w OR of_nat n) }) s (Some 0))"

fun hex_digits :: "nat \<Rightarrow> string" where
  "hex_digits n =
    (let d = n mod 16; c = char_of (if d < 10 then 48 + d else 87 + d)
     in if n < 16 then [c] else hex_digits (n div 16) @ [c])"

declare hex_digits.simps [simp del]

definition add_hextets :: "string list \<Rightarrow> 128 word \<Rightarrow> 128 word option" where
  "add_hextets parts w = fold (\<lambda>p acc. do { v \<leftarrow> acc; h \<leftarrow> parse_hextet p; Some (push_bit 16 v OR h) }) parts (Some w)"

definition ipv6_parts :: "string \<Rightarrow> string list option" where
  \<comment> \<open>an IPv4 suffix becomes two hextets\<close>
  "ipv6_parts s =
    (let parts = split_on CHR '':'' s
     in if length parts < 3 then None
        else if CHR ''.'' \<in> set (last parts) then
          (case parse_ipv4 (last parts) of None \<Rightarrow> None
           | Some w \<Rightarrow> Some (butlast parts @ [hex_digits (unat (drop_bit 16 w)), hex_digits (unat (w AND 0xFFFF))]))
        else Some parts)"

definition parse_ipv6 :: "string \<Rightarrow> 128 word option" where
  "parse_ipv6 s = do {
     parts \<leftarrow> ipv6_parts s;
     if 9 < length parts then None else
     (case filter (\<lambda>i. parts ! i = []) [1..<length parts - 1] of
        [] \<Rightarrow> if length parts = 8 \<and> hd parts \<noteq> [] \<and> last parts \<noteq> [] then add_hextets parts 0 else None
      | [k] \<Rightarrow>
          let hi = (if hd parts = [] then k - 1 else k);
              lo = (if last parts = [] then length parts - k - 2 else length parts - k - 1)
          in if hd parts = [] \<and> hi \<noteq> 0 \<or> last parts = [] \<and> lo \<noteq> 0 \<or> 7 < hi + lo then None
             else do {
               w \<leftarrow> add_hextets (take hi parts) 0;
               add_hextets (drop (length parts - lo) parts) (push_bit (16 * (8 - (hi + lo))) w)
             }
      | _ \<Rightarrow> None)
   }"

definition split_scope :: "string \<Rightarrow> (string \<times> string option) option" where
  "split_scope s = (case dropWhile (\<lambda>c. c \<noteq> CHR ''%'') s of
       [] \<Rightarrow> Some (s, None)
     | _ # scope \<Rightarrow> if scope = [] \<or> CHR ''%'' \<in> set scope then None
         else Some (takeWhile (\<lambda>c. c \<noteq> CHR ''%'') s, Some scope))"

definition ip_address :: "string \<Rightarrow> ip option" where
  "ip_address s = (case parse_ipv4 s of
       Some w \<Rightarrow> Some (V4 w)
     | None \<Rightarrow> if CHR ''/'' \<in> set s then None
         else do { (addr, scope) \<leftarrow> split_scope s; w \<leftarrow> parse_ipv6 addr; Some (V6 w scope) })"

section \<open>Printing\<close>

definition show_ipv4 :: "32 word \<Rightarrow> string" where
  "show_ipv4 w = str_join ''.'' (map (\<lambda>k. nat_digits (unat (drop_bit k w AND 0xFF))) [24, 16, 8, 0])"

definition zero_run :: "nat \<times> string \<Rightarrow> (nat option \<times> nat) \<times> nat option \<times> nat
    \<Rightarrow> (nat option \<times> nat) \<times> nat option \<times> nat" where
  "zero_run item state = (case (item, state) of ((i, h), (best, start, n)) \<Rightarrow>
     if h = ''0'' then
       let n = Suc n; start = (if start = None then Some i else start)
       in (if snd best < n then (start, n) else best, start, n)
     else (best, None, 0))"

definition compress_hextets :: "string list \<Rightarrow> string list" where
  "compress_hextets hs = (case fst (fold zero_run (enumerate 0 hs) ((None, 0), None, 0)) of
       (Some start, n) \<Rightarrow>
         if 1 < n then
           let hs1 = (if start + n = length hs then hs @ [[]] else hs);
               hs2 = take start hs1 @ [[]] @ drop (start + n) hs1
           in if start = 0 then [] # hs2 else hs2
         else hs
     | _ \<Rightarrow> hs)"

definition show_ipv6 :: "128 word \<Rightarrow> string" where
  "show_ipv6 w = str_join '':'' (compress_hextets
     (map (\<lambda>k. hex_digits (unat (drop_bit k w AND 0xFFFF))) [112, 96, 80, 64, 48, 32, 16, 0]))"

section \<open>Networks\<close>

definition high_bits :: "nat \<Rightarrow> 'a::len word \<Rightarrow> 'a word" where
  "high_bits p w = w AND NOT (mask (LENGTH('a) - p))"

definition in_net :: "'a::len word \<Rightarrow> nat \<Rightarrow> 'a word \<Rightarrow> bool" where
  "in_net net p w = (high_bits p w = net)"

definition show_network :: "ip \<Rightarrow> string" where
  \<comment> \<open>the network of 24 or 48 bits around the address; an address that is the network's own keeps its scope\<close>
  "show_network a = (case a of
       V4 w \<Rightarrow> show_ipv4 (high_bits 24 w) @ ''/24''
     | V6 w scope \<Rightarrow> show_ipv6 (high_bits 48 w)
         @ (case scope of Some s \<Rightarrow> if high_bits 48 w = w then CHR ''%'' # s else [] | None \<Rightarrow> []) @ ''/48'')"

section \<open>Reserved ranges\<close>

definition PRIVATE_V4 :: "(32 word \<times> nat) list" where
  "PRIVATE_V4 = [(0x00000000, 8), (0x0A000000, 8), (0x7F000000, 8), (0xA9FE0000, 16), (0xAC100000, 12),
     (0xC0000000, 24), (0xC00000AA, 31), (0xC0000200, 24), (0xC0A80000, 16), (0xC6120000, 15),
     (0xC6336400, 24), (0xCB007100, 24), (0xF0000000, 4), (0xFFFFFFFF, 32)]"

definition PUBLIC_EXCEPTIONS_V4 :: "(32 word \<times> nat) list" where
  "PUBLIC_EXCEPTIONS_V4 = [(0xC0000009, 32), (0xC000000A, 32)]"

definition PRIVATE_V6 :: "(128 word \<times> nat) list" where
  "PRIVATE_V6 = [(1, 128), (0, 128), (push_bit 32 0xFFFF, 96), (push_bit 80 0x0064FF9B0001, 48),
     (push_bit 112 0x0100, 64), (push_bit 112 0x2001, 23), (push_bit 96 0x20010DB8, 32),
     (push_bit 112 0x2002, 16), (push_bit 112 0xFC00, 7), (push_bit 112 0xFE80, 10)]"

definition PUBLIC_EXCEPTIONS_V6 :: "(128 word \<times> nat) list" where
  "PUBLIC_EXCEPTIONS_V6 = [(push_bit 96 0x20010001 OR 1, 128), (push_bit 96 0x20010001 OR 2, 128),
     (push_bit 96 0x20010003, 32), (push_bit 80 0x200100040112, 48), (push_bit 96 0x20010020, 28),
     (push_bit 96 0x20010030, 28)]"

definition listed :: "('a::len word \<times> nat) list \<Rightarrow> 'a word \<Rightarrow> bool" where
  "listed nets w = list_ex (\<lambda>(net, p). in_net net p w) nets"

definition private_v4 :: "32 word \<Rightarrow> bool" where
  "private_v4 w = (listed PRIVATE_V4 w \<and> \<not> listed PUBLIC_EXCEPTIONS_V4 w)"

definition ipv4_mapped :: "128 word \<Rightarrow> 32 word option" where
  "ipv4_mapped w = (if drop_bit 32 w = 0xFFFF then Some (ucast w) else None)"

definition is_private :: "ip \<Rightarrow> bool" where
  "is_private a = (case a of
       V4 w \<Rightarrow> private_v4 w
     | V6 w _ \<Rightarrow> (case ipv4_mapped w of
         Some v \<Rightarrow> private_v4 v
       | None \<Rightarrow> listed PRIVATE_V6 w \<and> \<not> listed PUBLIC_EXCEPTIONS_V6 w))"

definition is_global :: "ip \<Rightarrow> bool" where
  "is_global a = (case a of
       V4 w \<Rightarrow> \<not> in_net 0x64400000 10 w \<and> \<not> is_private a
     | V6 _ _ \<Rightarrow> \<not> is_private a)"

definition is_multicast :: "ip \<Rightarrow> bool" where
  "is_multicast a = (case a of V4 w \<Rightarrow> in_net 0xE0000000 4 w | V6 w _ \<Rightarrow> in_net (push_bit 120 0xFF) 8 w)"

end
