(* ===== verification/Ownership.thy ===== *)
theory Ownership
  imports Kyb_Evidence Access Patterns Ip_Address
begin

text \<open>
  Domain ownership: \<open>app/pipeline/ownership.py\<close>, \<open>app/api/ownership.py\<close> and
  \<open>app/models/ownership_challenge.py\<close>. The network is outside: a request carries what DNS, the page
  fetch and the mail backend answer. A time is a number; the descriptions of audit events and the
  messages of answers are left out.
\<close>

section \<open>Challenges\<close>

record challenge =
  ch_id :: string
  ch_run :: string
  ch_submission :: string
  ch_domain :: string
  ch_method :: string
  ch_token :: string
  ch_target :: "string option"
  ch_status :: string
  ch_issued_at :: rat
  ch_verified_at :: "rat option"
  ch_evidence :: "string option"
  ch_operator :: "string option"
  ch_client :: "string option"
  ch_last_error :: "string option"

definition CHALLENGE_METHODS :: "string list" where
  "CHALLENGE_METHODS = [''dns_txt'', ''email'', ''html_meta'']"

definition EVIDENCE_SOURCE :: string where "EVIDENCE_SOURCE = ''ownership''"

definition EVIDENCE_FIELD :: string where "EVIDENCE_FIELD = ''domain_ownership_verified''"

definition TXT_PREFIX :: string where "TXT_PREFIX = ''entityiq-domain-verification=''"

definition META_TAG_NAME :: string where "META_TAG_NAME = ''entityiq-domain-verification''"

definition QUOTE :: string where "QUOTE = [CHR 0x22]"

definition dns_txt_record_value :: "string \<Rightarrow> string" where
  "dns_txt_record_value token = TXT_PREFIX @ token"

definition html_meta_snippet :: "string \<Rightarrow> string" where
  "html_meta_snippet token = ''<meta name='' @ QUOTE @ META_TAG_NAME @ QUOTE @ '' content='' @ QUOTE @ token @ QUOTE @ ''>''"

section \<open>Public hosts\<close>

definition rstrip_dot :: "string \<Rightarrow> string" where
  "rstrip_dot s = rev (dropWhile (\<lambda>c. c = CHR ''.'') (rev s))"

definition strip_brackets :: "string \<Rightarrow> string" where
  "strip_brackets s = rev (dropWhile (\<lambda>c. c \<in> set ''[]'') (rev (dropWhile (\<lambda>c. c \<in> set ''[]'') s)))"

definition assert_public_host :: "(string \<Rightarrow> string list option) \<Rightarrow> string \<Rightarrow> bool option" where
  \<comment> \<open>\<open>Some True\<close> lets the host pass, \<open>Some False\<close> is \<open>UnsafeFetchTarget\<close>, None the \<open>ValueError\<close> of an address
    that does not parse; \<open>resolve\<close> is None when the system cannot resolve the host\<close>
  "assert_public_host resolve domain =
    (let host = rstrip_dot (strip_brackets (str_strip domain)) in
     if ip_address host \<noteq> None then Some False
     else case resolve host of
         None \<Rightarrow> Some False
       | Some addresses \<Rightarrow>
           if addresses = [] then Some False
           else fold (\<lambda>raw verdict. if verdict \<noteq> Some True then verdict
               else map_option (\<lambda>a. is_global a \<and> \<not> is_multicast a) (ip_address raw)) addresses (Some True))"

section \<open>Proofs of control\<close>

definition is_ascii :: "string \<Rightarrow> bool" where
  "is_ascii s = list_all (\<lambda>c. of_char c < (128 :: nat)) s"

definition compare_digest :: "string \<Rightarrow> string \<Rightarrow> bool option" where
  \<comment> \<open>None: the \<open>TypeError\<close> for text that is not ASCII\<close>
  "compare_digest a b = (if is_ascii a \<and> is_ascii b then Some (a = b) else None)"

definition check_dns_txt :: "(string \<Rightarrow> string list option) \<Rightarrow> string \<Rightarrow> string \<Rightarrow> bool" where
  "check_dns_txt query domain token = (case query domain of
       None \<Rightarrow> False
     | Some records \<Rightarrow> list_ex (\<lambda>r. str_in (dns_txt_record_value token) r) records)"

abbreviation in_tag :: "char \<Rightarrow> bool" where "in_tag c \<equiv> c \<noteq> CHR ''>''"

abbreviation is_quote :: "char \<Rightarrow> bool" where "is_quote c \<equiv> c = CHR 0x22 \<or> c = CHR 0x27"

definition equals_sign :: "item list" where
  "equals_sign = [Many is_space 0, Lit ''='', Many is_space 0, One is_quote]"

definition content_group :: "item list" where
  "content_group = [Lit ''content''] @ equals_sign @ [Capture (\<lambda>c. \<not> is_quote c) 1, One is_quote]"

definition name_first :: "string \<Rightarrow> item list" where
  "name_first name = [Lit ''<meta'', Many in_tag 1, Lit ''name''] @ equals_sign
     @ [Lit name, One is_quote, Many in_tag 1] @ content_group"

definition content_first :: "string \<Rightarrow> item list" where
  "content_first name = [Lit ''<meta'', Many in_tag 1] @ content_group
     @ [Many in_tag 1, Lit ''name''] @ equals_sign @ [Lit name, One is_quote]"

definition extract_meta_content :: "string \<Rightarrow> string \<Rightarrow> string option" where
  "extract_meta_content html name = (case search (name_first name) html of
       Some found \<Rightarrow> Some (str_strip (hd found))
     | None \<Rightarrow> map_option (str_strip \<circ> hd) (search (content_first name) html))"

definition check_html_meta :: "(string \<Rightarrow> string option) \<Rightarrow> string \<Rightarrow> string \<Rightarrow> bool option" where
  "check_html_meta fetch domain token = (case fetch (''https://'' @ domain @ ''/'') of
       None \<Rightarrow> Some False
     | Some html \<Rightarrow> (case extract_meta_content html META_TAG_NAME of
         None \<Rightarrow> Some False
       | Some content \<Rightarrow> compare_digest content token))"

definition check_email_token :: "string option \<Rightarrow> string \<Rightarrow> bool option" where
  "check_email_token submitted expected =
    (if \<not> truthy submitted then Some False else compare_digest (the submitted) expected)"

section \<open>Issuing and verifying\<close>

record ownership_state =
  os_runs :: "verification_run list"
  os_domains :: "(string \<times> string) list" \<comment> \<open>the domain of a submission\<close>
  os_challenges :: "challenge list"
  os_rows :: "evidence list"
  os_events :: "audit_event list"
  os_next :: nat

record ownership_env =
  oe_uuid :: "nat \<Rightarrow> string"
  oe_token :: "nat \<Rightarrow> string" \<comment> \<open>\<open>secrets.token_hex(16)\<close>\<close>

record world =
  query_txt :: "string \<Rightarrow> string list option"
  fetch_text :: "string \<Rightarrow> string option"
  send_mail :: "string \<Rightarrow> string \<Rightarrow> string option" \<comment> \<open>the error, None when sent\<close>
  time_now :: rat

datatype issue_error = UnknownChallengeMethod | TargetRequired | RunNotFound | SubmissionNotFound

definition run_by_id :: "string \<Rightarrow> ownership_state \<Rightarrow> verification_run option" where
  "run_by_id i st = find (\<lambda>r. run_id r = i) (os_runs st)"

definition challenge_by_id :: "string \<Rightarrow> ownership_state \<Rightarrow> challenge option" where
  "challenge_by_id i st = find (\<lambda>c. ch_id c = i) (os_challenges st)"

definition put_challenge :: "challenge \<Rightarrow> ownership_state \<Rightarrow> ownership_state" where
  "put_challenge c st = st\<lparr>os_challenges := update_first (\<lambda>x. ch_id x = ch_id c) (\<lambda>_. c) (os_challenges st)\<rparr>"

definition issue_challenge :: "ownership_env \<Rightarrow> world \<Rightarrow> string \<Rightarrow> string \<Rightarrow> string option \<Rightarrow> string option \<Rightarrow> string option
    \<Rightarrow> ownership_state \<Rightarrow> (issue_error + challenge) \<times> ownership_state" where
  "issue_challenge E w rid method target operator client st =
    (if method \<notin> set CHALLENGE_METHODS then (Inl UnknownChallengeMethod, st)
     else if method = ''email'' \<and> \<not> truthy target then (Inl TargetRequired, st)
     else case run_by_id rid st of
         None \<Rightarrow> (Inl RunNotFound, st)
       | Some run \<Rightarrow> (case map_of (os_domains st) (submission_id run) of
           None \<Rightarrow> (Inl SubmissionNotFound, st)
         | Some domain \<Rightarrow>
             let c = \<lparr>ch_id = oe_uuid E (os_next st), ch_run = run_id run, ch_submission = submission_id run,
                   ch_domain = domain, ch_method = method, ch_token = oe_token E (os_next st), ch_target = target,
                   ch_status = ''pending'', ch_issued_at = time_now w, ch_verified_at = None, ch_evidence = None,
                   ch_operator = operator, ch_client = client, ch_last_error = None\<rparr>;
                 c = (if method = ''email'' then (case send_mail w (the target) (ch_token c) of
                        None \<Rightarrow> c | Some err \<Rightarrow> c\<lparr>ch_last_error := Some (''email send failed: '' @ err)\<rparr>) else c)
             in (Inr c, st\<lparr>os_challenges := os_challenges st @ [c], os_next := Suc (os_next st)\<rparr>)))"

definition proof_found :: "world \<Rightarrow> challenge \<Rightarrow> string option \<Rightarrow> bool option" where
  "proof_found w c submitted =
    (if ch_method c = ''dns_txt'' then Some (check_dns_txt (query_txt w) (ch_domain c) (ch_token c))
     else if ch_method c = ''html_meta'' then check_html_meta (fetch_text w) (ch_domain c) (ch_token c)
     else if ch_method c = ''email'' then check_email_token submitted (ch_token c)
     else Some False)"

definition ownership_evidence :: "string \<Rightarrow> rat \<Rightarrow> challenge \<Rightarrow> evidence" where
  "ownership_evidence i moment c = \<lparr>ev_id = i, ev_run = ch_run c, source = EVIDENCE_SOURCE, tier = 3,
     ev_field = Some EVIDENCE_FIELD, raw_value = Some (ch_method c), normalized_value = Some ''true'',
     raw_payload = Some [(''domain'', JText (ch_domain c)), (''method'', JText (ch_method c)), (''challenge_id'', JText (ch_id c))],
     fetched_at = Some (floor (1000000 * moment)), created_at = floor (1000000 * moment), ev_confidence = Some (dec 6 1),
     attribution = Some [(''provider'', JText ''ownership''), (''method'', JText (ch_method c))]\<rparr>"

definition attempt_verification :: "ownership_env \<Rightarrow> world \<Rightarrow> challenge \<Rightarrow> string option \<Rightarrow> ownership_state
    \<Rightarrow> (bool \<times> challenge \<times> ownership_state) option" where
  \<comment> \<open>None is an exception, before anything is written\<close>
  "attempt_verification E w c submitted st =
    (if ch_status c = ''verified'' then Some (True, c, st)
     else case proof_found w c submitted of
         None \<Rightarrow> None
       | Some False \<Rightarrow> Some (False, c, st)
       | Some True \<Rightarrow>
           let e = ownership_evidence (oe_uuid E (os_next st)) (time_now w) c;
               c' = c\<lparr>ch_status := ''verified'', ch_verified_at := Some (time_now w), ch_evidence := Some (ev_id e)\<rparr>
           in Some (True, c', put_challenge c' (st\<lparr>os_rows := os_rows st @ [e], os_next := Suc (os_next st)\<rparr>)))"

section \<open>The endpoints\<close>

record instructions =
  in_method :: string
  in_dns :: "(string \<times> string \<times> string) option" \<comment> \<open>record type, name and value\<close>
  in_html :: "string option"
  in_email :: "string option"

definition instructions_for :: "challenge \<Rightarrow> instructions" where
  "instructions_for c =
    (if ch_method c = ''dns_txt'' then \<lparr>in_method = ''dns_txt'',
        in_dns = Some (''TXT'', ch_domain c, dns_txt_record_value (ch_token c)), in_html = None, in_email = None\<rparr>
     else if ch_method c = ''html_meta'' then \<lparr>in_method = ''html_meta'', in_dns = None,
        in_html = Some (html_meta_snippet (ch_token c)), in_email = None\<rparr>
     else \<lparr>in_method = ''email'', in_dns = None, in_html = None, in_email = ch_target c\<rparr>)"

record challenge_response =
  cr_challenge :: string
  cr_run :: string
  cr_submission :: string
  cr_domain :: string
  cr_method :: string
  cr_token :: "string option"
  cr_status :: string
  cr_issued_at :: rat
  cr_verified_at :: "rat option"
  cr_instructions :: instructions

definition to_response :: "challenge \<Rightarrow> challenge_response" where
  "to_response c = \<lparr>cr_challenge = ch_id c, cr_run = ch_run c, cr_submission = ch_submission c, cr_domain = ch_domain c,
     cr_method = ch_method c, cr_token = (if ch_method c = ''email'' then None else Some (ch_token c)),
     cr_status = ch_status c, cr_issued_at = ch_issued_at c, cr_verified_at = ch_verified_at c,
     cr_instructions = instructions_for c\<rparr>"

definition challenge_event :: "ownership_env \<Rightarrow> world \<Rightarrow> string \<Rightarrow> principal \<Rightarrow> challenge \<Rightarrow> (string \<times> json) list
    \<Rightarrow> ownership_state \<Rightarrow> ownership_state" where
  "challenge_event E w type p c details st = st
     \<lparr>os_events := os_events st @ [\<lparr>ae_id = oe_uuid E (os_next st), ae_type = type, ae_operator = pr_operator p,
        ae_client = pr_client p, ae_run = Some (ch_run c), ae_submission = Some (ch_submission c),
        ae_payload = details, ae_at = time_now w\<rparr>],
      os_next := Suc (os_next st)\<rparr>"

fun issue_status :: "issue_error \<Rightarrow> nat" where
  "issue_status UnknownChallengeMethod = 422"
| "issue_status TargetRequired = 422"
| "issue_status RunNotFound = 404"
| "issue_status SubmissionNotFound = 404"

definition issue_challenge_endpoint :: "ownership_env \<Rightarrow> world \<Rightarrow> principal \<Rightarrow> string \<Rightarrow> string \<Rightarrow> string option
    \<Rightarrow> ownership_state \<Rightarrow> challenge_response reply \<times> ownership_state" where
  "issue_challenge_endpoint E w p rid method target st =
    (case issue_challenge E w rid method target (pr_operator p) (pr_client p) st of
       (Inl err, st) \<Rightarrow> (Refused (issue_status err), st)
     | (Inr c, st) \<Rightarrow> (Served (to_response c), challenge_event E w ''ownership.challenge_issued'' p c
         [(''challenge_id'', JText (ch_id c)), (''method'', JText (ch_method c)), (''domain'', JText (ch_domain c))] st))"

definition list_challenges_endpoint :: "string \<Rightarrow> ownership_state \<Rightarrow> challenge_response list reply" where
  "list_challenges_endpoint rid st = (case run_by_id rid st of
       None \<Rightarrow> Refused 404
     | Some _ \<Rightarrow> Served (map to_response (sort_key (\<lambda>c. - ch_issued_at c) (filter (\<lambda>c. ch_run c = rid) (os_challenges st)))))"

definition verify_challenge_endpoint :: "ownership_env \<Rightarrow> world \<Rightarrow> principal \<Rightarrow> string \<Rightarrow> string option
    \<Rightarrow> ownership_state \<Rightarrow> (string \<times> string \<times> bool \<times> string \<times> rat option) reply \<times> ownership_state" where
  \<comment> \<open>answers the challenge, its method, the verdict, the status and the time of verification\<close>
  "verify_challenge_endpoint E w p cid submitted st = (case challenge_by_id cid st of
       None \<Rightarrow> (Refused 404, st)
     | Some c \<Rightarrow>
         if ch_method c = ''email'' \<and> ch_status c \<noteq> ''verified'' \<and> \<not> truthy submitted then (Refused 422, st)
         else (case attempt_verification E w c submitted st of
             None \<Rightarrow> (Refused 500, st)
           | Some (verified, c, st) \<Rightarrow> (Served (ch_id c, ch_method c, verified, ch_status c, ch_verified_at c),
               challenge_event E w (if verified then ''ownership.challenge_verified'' else ''ownership.verification_failed'')
                 p c [(''challenge_id'', JText (ch_id c)), (''method'', JText (ch_method c)), (''verified'', JBool verified)] st)))"

end
