(* ===== verification/Ownership_Laws.thy ===== *)
theory Ownership_Laws
  imports Ownership
begin

text \<open>
  Properties of domain ownership (\<open>Ownership\<close>): the instructions handed out lead to verification,
  nothing else does, the token of an e-mail challenge stays with the mailbox, and the page fetch
  reaches public addresses only.
\<close>

section \<open>Reading back the tag\<close>

lemma greedy_fails:
  assumes "\<not> P c" and "\<And>i. i \<le> length w \<Longrightarrow> k (taken @ take i w) (drop i w @ c # cs) = None"
  shows "greedy P n k taken (w @ c # cs) = None"
  using assms
proof (induction w arbitrary: taken)
  case Nil
  then show ?case using Nil(2) [of 0] by simp
next
  case (Cons x w)
  have "greedy P n k (taken @ [x]) (w @ c # cs) = None"
    by (rule Cons.IH) (use Cons.prems(1) Cons.prems(2) [of "Suc _"] in simp_all)
  then show ?case using Cons.prems(2) [of 0] by simp
qed

lemma greedy_last:
  assumes "list_all P u" and "list_all P v" and "\<not> P c" and "n \<le> length taken + length u"
    and "k (taken @ u) (v @ c # cs) = Some r"
    and "\<And>i. i < length v \<Longrightarrow> k (taken @ u @ take (Suc i) v) (drop (Suc i) v @ c # cs) = None"
  shows "greedy P n k taken (u @ v @ c # cs) = Some r"
  using assms
proof (induction u arbitrary: taken)
  case Nil
  show ?case
  proof (cases v)
    case Nil
    then show ?thesis using Nil.prems by simp
  next
    case (Cons y v')
    have "greedy P n k (taken @ [y]) (v' @ c # cs) = None"
      by (rule greedy_fails) (use Nil.prems(3) Nil.prems(6) Cons in \<open>simp_all add: less_Suc_eq_le\<close>)
    then show ?thesis using Nil.prems Cons by simp
  qed
next
  case (Cons x u)
  have "greedy P n k (taken @ [x]) (u @ v @ c # cs) = Some r"
    by (rule Cons.IH) (use Cons.prems in simp_all)
  then show ?case using Cons.prems(1) by simp
qed

section \<open>The tag is read back\<close>

definition is_hex :: "char \<Rightarrow> bool" where
  "is_hex c = (is_digit c \<or> c \<in> set ''abcdef'')"

lemma hex_plain: "is_hex c \<Longrightarrow> c \<noteq> CHR ''>'' \<and> \<not> is_quote c \<and> \<not> is_space c \<and> of_char c < (128 :: nat)
    \<and> lower_char c \<notin> {CHR ''n'', CHR ''o''} \<and> c \<noteq> CHR ''<''"
  by (auto simp: is_hex_def is_digit_def is_space_def lower_char_def is_upper_def Let_def)

lemma lit_cons: "match_items (Lit (p # ps) # items) found (c # cs)
    = (if lower_char c = lower_char p then match_items (Lit ps # items) found cs else None)"
  by (simp add: str_lower_def)

lemma lit_nil: "match_items (Lit [] # items) found s = match_items items found s"
  by (simp add: str_lower_def)

lemma lit_end: "match_items (Lit (p # ps) # items) found [] = None"
  by simp

lemmas lit_simps = lit_cons lit_nil lit_end

lemma equals_quote: "match_items (equals_sign @ items) found (CHR ''='' # CHR 0x22 # s) = match_items items found s"
  by (simp add: equals_sign_def str_lower_def is_space_def lower_char_def is_upper_def)

lemma capture_token:
  assumes "list_all is_hex token" and "token \<noteq> []"
  shows "match_items [Capture (\<lambda>c. \<not> is_quote c) 1, One is_quote] found (token @ CHR 0x22 # s) = Some (found @ [token])"
proof -
  have "list_all (\<lambda>c. \<not> is_quote c) token" using assms(1) hex_plain by (fastforce simp: list_all_iff)
  then show ?thesis using assms(2)
    by (auto intro!: greedy_exact simp: Suc_le_eq)
qed

lemma lit_fails: "str_lower (take (length p) t) \<noteq> str_lower p \<Longrightarrow> match_items (Lit p # items) found t = None"
  by simp

lemma drop_tail: "i \<le> length F + length token \<Longrightarrow> length F \<le> i \<Longrightarrow>
    drop i (F @ token @ q) = drop (i - length F) token @ q"
  by simp

lemma token_tail: "list_all is_hex token \<Longrightarrow> \<exists>x t. drop i token @ CHR 0x22 # s = x # t \<and> lower_char x \<noteq> CHR ''n''
    \<and> (lower_char x = CHR ''c'' \<longrightarrow> (\<exists>y u. t = y # u \<and> lower_char y \<noteq> CHR ''o''))"
proof -
  assume "list_all is_hex token"
  then have hex: "list_all is_hex (drop i token)" by (auto simp: list_all_iff dest: in_set_dropD)
  have q: "lower_char (CHR 0x22) = CHR 0x22" by (simp add: lower_char_def is_upper_def)
  show ?thesis
  proof (cases "drop i token")
    case Nil
    then show ?thesis by (simp add: q)
  next
    case (Cons x xs)
    then have "lower_char x \<noteq> CHR ''n''" "\<exists>y u. xs @ CHR 0x22 # s = y # u \<and> lower_char y \<noteq> CHR ''o''"
      using hex hex_plain q by (auto simp: neq_Nil_conv split: list.splits) (cases xs; auto)+
    then show ?thesis using Cons by auto
  qed
qed

text \<open>A literal that does not occur again in the fixed part of the tag is not found in the rest of it.\<close>

definition seen_once :: "string \<Rightarrow> string \<Rightarrow> bool" where
  "seen_once p F = list_all (\<lambda>i. str_lower (take (length p) (drop i F)) \<noteq> str_lower (take (length F - i) p)) [1..<length F]"

lemma take_front: "take (length d) (take n (d @ r)) = take n d"
  by (cases "n \<le> length d") auto

lemma literal_absent:
  assumes "list_all is_hex token" and "seen_once p F" and "1 \<le> i" and "i \<le> length F + length token"
    and "p = CHR ''n'' # p' \<or> p = CHR ''c'' # CHR ''o'' # p'"
  shows "match_items (Lit p # items) found (drop i (F @ token) @ CHR 0x22 # s) = None"
proof (cases "i < length F")
  case True
  let ?t = "drop i (F @ token) @ CHR 0x22 # s"
  have differ: "str_lower (take (length p) (drop i F)) \<noteq> str_lower (take (length F - i) p)"
    using assms(2,3) True by (auto simp: seen_once_def list_all_iff)
  have "?t = drop i F @ token @ CHR 0x22 # s" using True by simp
  then have "take (length F - i) (take (length p) ?t) = take (length p) (drop i F)"
    using take_front [of "drop i F" "length p"] by (simp only: length_drop)
  then have "str_lower (take (length p) ?t) \<noteq> str_lower p"
    using differ by (metis str_lower_def take_map)
  then show ?thesis by (rule lit_fails)
next
  case False
  then have t: "drop i (F @ token) @ CHR 0x22 # s = drop (i - length F) token @ CHR 0x22 # s" by simp
  obtain x u where u: "drop (i - length F) token @ CHR 0x22 # s = x # u" "lower_char x \<noteq> CHR ''n''"
    "lower_char x = CHR ''c'' \<longrightarrow> (\<exists>y v. u = y # v \<and> lower_char y \<noteq> CHR ''o'')"
    using token_tail [OF assms(1)] by metis
  have low: "lower_char (CHR ''n'') = CHR ''n''" "lower_char (CHR ''c'') = CHR ''c''" "lower_char (CHR ''o'') = CHR ''o''"
    by (simp_all add: lower_char_def is_upper_def)
  from assms(5) show ?thesis unfolding t u(1)
    by (elim disjE; use u(2,3) low in \<open>auto simp only: lit_cons simp_thms if_False split: if_splits\<close>)
qed

definition NAME_PART :: string where
  "NAME_PART = ''name='' @ QUOTE @ META_TAG_NAME @ QUOTE @ '' content='' @ QUOTE"

definition CONTENT_PART :: string where
  "CONTENT_PART = ''content='' @ QUOTE"

lemma parts_seen_once: "seen_once ''name'' NAME_PART" "seen_once ''content'' CONTENT_PART"
  by code_simp+

lemma literal_absent_later:
  assumes "list_all is_hex token" and "seen_once p F" and "i < length (F @ token @ QUOTE)"
    and "p = CHR ''n'' # p' \<or> p = CHR ''c'' # CHR ''o'' # p'"
  shows "match_items (Lit p # items) found (drop (Suc i) (F @ token @ QUOTE) @ CHR ''>'' # post) = None"
proof (cases "Suc i \<le> length F + length token")
  case True
  then have "drop (Suc i) (F @ token @ QUOTE) @ CHR ''>'' # post = drop (Suc i) (F @ token) @ CHR 0x22 # CHR ''>'' # post"
    by (simp add: QUOTE_def)
  then show ?thesis using literal_absent [OF assms(1,2) _ True assms(4)] by (simp only: One_nat_def le_add1 Suc_le_mono zero_le simp_thms)
next
  case False
  then have "drop (Suc i) (F @ token @ QUOTE) = []" using assms(3) by (simp add: QUOTE_def)
  moreover have "match_items (Lit p # items) found (CHR ''>'' # post) = None"
    using assms(4) by (auto simp del: match_items.simps simp: lit_cons lower_char_def is_upper_def)
  ultimately show ?thesis by simp
qed

lemma tag_inside: "list_all in_tag NAME_PART" "list_all in_tag CONTENT_PART"
  by code_simp+

lemma token_inside: "list_all is_hex token \<Longrightarrow> list_all in_tag (token @ QUOTE)"
  using hex_plain by (fastforce simp: list_all_iff QUOTE_def)

lemma match_content:
  assumes "list_all is_hex token" and "token \<noteq> []"
  shows "match_items (Many in_tag 1 # content_group) [] ('' '' @ (CONTENT_PART @ token @ QUOTE) @ CHR ''>'' # post) = Some [token]"
proof -
  have here: "match_items content_group [] ((CONTENT_PART @ token @ QUOTE) @ CHR ''>'' # post) = Some [token]"
    using capture_token [OF assms, of "[]"] equals_quote [of "[Capture (\<lambda>c. \<not> is_quote c) 1, One is_quote]"]
    by (simp add: content_group_def CONTENT_PART_def QUOTE_def str_lower_def)
  have "greedy in_tag 1 (\<lambda>_. match_items content_group []) [] ('' '' @ (CONTENT_PART @ token @ QUOTE) @ CHR ''>'' # post) = Some [token]"
  proof (rule greedy_last)
    show "list_all in_tag (CONTENT_PART @ token @ QUOTE)" using tag_inside(2) token_inside [OF assms(1)] by simp
    show "match_items content_group [] (drop (Suc i) (CONTENT_PART @ token @ QUOTE) @ CHR ''>'' # post) = None"
      if "i < length (CONTENT_PART @ token @ QUOTE)" for i
      unfolding content_group_def append_Cons append_Nil by (rule literal_absent_later [OF assms(1) parts_seen_once(2) that]) simp
  qed (use here in simp_all)
  then show ?thesis by simp
qed

lemma match_tag:
  assumes "list_all is_hex token" and "token \<noteq> []"
  shows "match_items (name_first META_TAG_NAME) [] (html_meta_snippet token @ post) = Some [token]"
proof -
  let ?rest = "Lit ''name'' # equals_sign @ [Lit META_TAG_NAME, One is_quote, Many in_tag 1] @ content_group"
  have form: "html_meta_snippet token @ post = ''<meta'' @ '' '' @ (NAME_PART @ token @ QUOTE) @ CHR ''>'' # post"
    by (simp add: html_meta_snippet_def NAME_PART_def QUOTE_def)
  have here: "match_items ?rest [] ((NAME_PART @ token @ QUOTE) @ CHR ''>'' # post) = Some [token]"
    using match_content [OF assms, of post] equals_quote [of "[Lit META_TAG_NAME, One is_quote, Many in_tag 1] @ content_group"]
    by (simp add: NAME_PART_def CONTENT_PART_def QUOTE_def str_lower_def META_TAG_NAME_def)
  have "greedy in_tag 1 (\<lambda>_. match_items ?rest []) [] ('' '' @ (NAME_PART @ token @ QUOTE) @ CHR ''>'' # post) = Some [token]"
  proof (rule greedy_last)
    show "list_all in_tag (NAME_PART @ token @ QUOTE)" using tag_inside(1) token_inside [OF assms(1)] by simp
    show "match_items ?rest [] (drop (Suc i) (NAME_PART @ token @ QUOTE) @ CHR ''>'' # post) = None"
      if "i < length (NAME_PART @ token @ QUOTE)" for i
      by (rule literal_absent_later [OF assms(1) parts_seen_once(1) that]) simp
  qed (use here in simp_all)
  then show ?thesis unfolding form name_first_def by (simp add: str_lower_def)
qed

lemma no_earlier_tag:
  assumes "\<not> str_in ''<meta'' (str_lower pre)" and "suffix t (pre @ CHR ''<'' # s)" and "Suc (length s) < length t"
  shows "match_items (Lit ''<meta'' # items) [] t = None"
proof (rule lit_fails)
  have "\<not> suffix t (CHR ''<'' # s)" using assms(3) suffix_length_le [of t "CHR ''<'' # s"] by fastforce
  then obtain p2 where t: "t = p2 @ CHR ''<'' # s" "suffix p2 pre"
    using assms(2) unfolding suffix_append by blast
  then have ne: "p2 \<noteq> []" using assms(3) by auto
  show "str_lower (take (length ''<meta'') t) \<noteq> str_lower ''<meta''"
  proof (cases "5 \<le> length p2")
    case True
    then have "take 5 t = take 5 p2" by (simp add: t(1))
    moreover have "suffix (str_lower p2) (str_lower pre)" using t(2) by (auto simp: suffix_def str_lower_def)
    moreover have "prefix (str_lower (take 5 p2)) (str_lower p2)" unfolding str_lower_def take_map [symmetric] by (rule take_is_prefix)
    moreover have "str_lower ''<meta'' = ''<meta''" by code_simp
    ultimately have "str_in ''<meta'' (str_lower pre)" if "str_lower (take 5 t) = str_lower ''<meta''"
      using that by (auto simp only: str_in_def list_ex_iff in_set_suffixes)
    moreover have "length ''<meta'' = 5" by simp
    ultimately show ?thesis using assms(1) by metis
  next
    case False
    then have n: "length p2 < 5" by simp
    then have "str_lower (take 5 t) ! length p2 = CHR ''<''"
      by (simp add: t(1) str_lower_def lower_char_def is_upper_def nth_append)
    moreover have "length p2 \<in> {1, 2, 3, 4}" using n length_greater_0_conv [THEN iffD2, OF ne] unfolding insert_iff empty_iff by presburger
    moreover have "str_lower ''<meta'' = ''<meta''" by code_simp
    moreover have "length ''<meta'' = 5" by simp
    ultimately have "\<exists>n \<in> {1, 2, 3, 4}. ''<meta'' ! n = CHR ''<''"
      if "str_lower (take (length ''<meta'') t) = str_lower ''<meta''" using that by metis
    then show ?thesis by auto
  qed
qed

lemma strip_plain: "list_all (\<lambda>c. \<not> is_space c) s \<Longrightarrow> str_strip s = s"
proof -
  assume plain: "list_all (\<lambda>c. \<not> is_space c) s"
  have "dropWhile is_space u = u" if "list_all (\<lambda>c. \<not> is_space c) u" for u using that by (cases u) auto
  then show ?thesis using plain by (simp add: str_strip_def list_all_rev)
qed

lemma page_content:
  assumes "list_all is_hex token" and "token \<noteq> []" and "\<not> str_in ''<meta'' (str_lower pre)"
  shows "extract_meta_content (pre @ html_meta_snippet token @ post) META_TAG_NAME = Some token"
proof -
  let ?tag = "html_meta_snippet token @ post"
  obtain s where s: "?tag = CHR ''<'' # s" by (simp add: html_meta_snippet_def)
  have "search (name_first META_TAG_NAME) (pre @ ?tag) = search (name_first META_TAG_NAME) ?tag"
    by (rule search_skip) (use no_earlier_tag [OF assms(3)] in \<open>simp add: name_first_def s\<close>)
  also have "\<dots> = Some [token]" by (rule search_here [OF match_tag [OF assms(1,2)]])
  finally have "search (name_first META_TAG_NAME) (pre @ ?tag) = Some [token]" .
  moreover have "str_strip token = token"
    by (rule strip_plain) (use assms(1) hex_plain in \<open>auto simp: list_all_iff\<close>)
  ultimately show ?thesis by (simp add: extract_meta_content_def)
qed

section \<open>Verification\<close>

lemma hex_ascii: "list_all is_hex token \<Longrightarrow> is_ascii token"
  using hex_plain by (auto simp: is_ascii_def list_all_iff)

lemma hex_digest: "list_all is_hex token \<Longrightarrow> compare_digest token token = Some True"
  using hex_ascii by (simp add: compare_digest_def)


section \<open>A sample domain\<close>

definition sample_challenge :: challenge where
  "sample_challenge = \<lparr>ch_id = ''q'', ch_run = ''r'', ch_submission = ''s'', ch_domain = ''acme.io'', ch_method = ''html_meta'',
     ch_token = ''0a1b'', ch_target = None, ch_status = ''pending'', ch_issued_at = 0, ch_verified_at = None,
     ch_evidence = None, ch_operator = None, ch_client = None, ch_last_error = None\<rparr>"

definition sample_world :: world where
  "sample_world = \<lparr>query_txt = (\<lambda>d. None), fetch_text = (\<lambda>u. Some (''<html><head>'' @ html_meta_snippet ''0a1b'' @ ''</head>'')),
     send_mail = (\<lambda>to body. None), time_now = 0\<rparr>"

definition sample_operator :: principal where
  "sample_operator = \<lparr>pr_kind = OperatorKind, pr_id = ''a'', pr_name = ''Ada'', pr_operator = Some ''a'', pr_client = None\<rparr>"

definition sample_env :: ownership_env where
  "sample_env = \<lparr>oe_uuid = (\<lambda>n. replicate n (CHR ''u'')), oe_token = (\<lambda>n. ''0a1b'')\<rparr>"

definition sample_site :: ownership_state where
  "sample_site = \<lparr>os_runs = [\<lparr>run_id = ''r'', submission_id = ''s'', entity_id = ''e''\<rparr>], os_domains = [(''s'', ''acme.io'')],
     os_challenges = [], os_rows = [], os_events = [], os_next = 0\<rparr>"

lemma sample_uuid: "inj (oe_uuid sample_env)"
  by (auto simp: inj_on_def sample_env_def dest: arg_cong [of _ _ length])


section \<open>Requests as steps\<close>

datatype ownership_request = Issue string string "string option" | Verify string "string option"

definition serve :: "ownership_env \<Rightarrow> world \<times> principal \<times> ownership_request \<Rightarrow> ownership_state \<Rightarrow> ownership_state" where
  "serve E r st = (case r of
       (w, p, Issue rid method target) \<Rightarrow> snd (issue_challenge_endpoint E w p rid method target st)
     | (w, p, Verify cid submitted) \<Rightarrow> snd (verify_challenge_endpoint E w p cid submitted st))"

text \<open>The rows of evidence a challenge has, by the identifier in their payload.\<close>

definition rows_of :: "string \<Rightarrow> evidence list \<Rightarrow> evidence list" where
  "rows_of cid rows = filter (\<lambda>e. source e = EVIDENCE_SOURCE \<and> jget (payload e) ''challenge_id'' = JText cid) rows"

definition settled_challenge :: "evidence list \<Rightarrow> challenge \<Rightarrow> bool" where
  "settled_challenge rows c =
    (if ch_status c = ''verified'' then (\<exists>e. rows_of (ch_id c) rows = [e] \<and> ch_evidence c = Some (ev_id e) \<and> ev_run e = ch_run c)
     else ch_status c = ''pending'' \<and> ch_evidence c = None \<and> rows_of (ch_id c) rows = [])"

definition ownership_ok :: "ownership_env \<Rightarrow> ownership_state \<Rightarrow> bool" where
  "ownership_ok E st = (list_all (settled_challenge (os_rows st)) (os_challenges st) \<and> distinct (map ch_id (os_challenges st))
     \<and> (\<forall>n \<ge> os_next st. oe_uuid E n \<notin> ch_id ` set (os_challenges st) \<and> rows_of (oe_uuid E n) (os_rows st) = []))"

lemma ownership_evidence_of: "rows_of cid [ownership_evidence i t c] = (if ch_id c = cid then [ownership_evidence i t c] else [])"
  by (simp add: rows_of_def ownership_evidence_def payload_def jget_def)

lemma rows_of_append: "rows_of cid (xs @ ys) = rows_of cid xs @ rows_of cid ys"
  by (simp add: rows_of_def)

lemma issue_effect:
  "issue_challenge E w rid method target oper client st = (r, st') \<Longrightarrow>
    (\<exists>err. r = Inl err \<and> st' = st) \<or> (\<exists>c. r = Inr c \<and> st' = st\<lparr>os_challenges := os_challenges st @ [c], os_next := Suc (os_next st)\<rparr>
      \<and> ch_id c = oe_uuid E (os_next st) \<and> ch_status c = ''pending'' \<and> ch_evidence c = None \<and> ch_run c = rid \<and> ch_method c = method)"
  by (auto simp: issue_challenge_def Let_def run_by_id_def find_Some_iff split: if_splits option.splits)

lemma ownership_ok_event: "ownership_ok E st \<Longrightarrow> ownership_ok E (challenge_event E w t p c d st)"
  by (auto simp: ownership_ok_def challenge_event_def)

lemma ownership_ok_issue:
  assumes "inj (oe_uuid E)" and "ownership_ok E st"
  shows "ownership_ok E (snd (issue_challenge_endpoint E w p rid method target st))"
proof (cases "issue_challenge E w rid method target (pr_operator p) (pr_client p) st")
  case (Pair r st')
  from issue_effect [OF Pair] show ?thesis
  proof (elim disjE exE conjE)
    fix c
    assume r: "r = Inr c" and st': "st' = st\<lparr>os_challenges := os_challenges st @ [c], os_next := Suc (os_next st)\<rparr>"
      and c: "ch_id c = oe_uuid E (os_next st)" "ch_status c = ''pending''" "ch_evidence c = None"
    have "ownership_ok E st'"
      using assms(2) c inj_eq [OF assms(1)] by (auto simp: ownership_ok_def st' settled_challenge_def)
    then show ?thesis using ownership_ok_event by (simp add: issue_challenge_endpoint_def Pair r)
  qed (use assms(2) in \<open>simp add: issue_challenge_endpoint_def Pair\<close>)
qed

lemma challenge_in: "challenge_by_id cid st = Some c \<Longrightarrow> c \<in> set (os_challenges st) \<and> ch_id c = cid"
  by (auto simp: challenge_by_id_def find_Some_iff)

lemma put_in_place: "distinct (map ch_id cs) \<Longrightarrow> ch_id d \<in> ch_id ` set cs \<Longrightarrow>
    update_first (\<lambda>x. ch_id x = ch_id d) (\<lambda>_. d) cs = map (\<lambda>x. if ch_id x = ch_id d then d else x) cs"
proof (induction cs)
  case (Cons x cs)
  show ?case
  proof (cases "ch_id x = ch_id d")
    case True
    then have "\<forall>y \<in> set cs. ch_id y \<noteq> ch_id d" using Cons.prems(1) by (auto simp: image_iff)
    then have "map (\<lambda>x. if ch_id x = ch_id d then d else x) cs = cs" by (auto intro: map_idI)
    then show ?thesis using True by simp
  next
    case False
    then show ?thesis using Cons by simp
  qed
qed simp

lemma ownership_ok_verified:
  assumes "inj (oe_uuid E)" and "ownership_ok E st" and "c \<in> set (os_challenges st)" and "ch_status c \<noteq> ''verified''"
    and "attempt_verification E w c submitted st = Some (True, c', st')"
  shows "ownership_ok E st'"
proof -
  let ?e = "ownership_evidence (oe_uuid E (os_next st)) (time_now w) c"
  let ?c = "c\<lparr>ch_status := ''verified'', ch_verified_at := Some (time_now w), ch_evidence := Some (ev_id ?e)\<rparr>"
  have st': "st' = put_challenge ?c (st\<lparr>os_rows := os_rows st @ [?e], os_next := Suc (os_next st)\<rparr>)"
    using assms(4,5) by (auto simp: attempt_verification_def Let_def split: option.splits bool.splits)
  have ok: "list_all (settled_challenge (os_rows st)) (os_challenges st)" "distinct (map ch_id (os_challenges st))"
    and free: "\<And>n. os_next st \<le> n \<Longrightarrow> oe_uuid E n \<notin> ch_id ` set (os_challenges st) \<and> rows_of (oe_uuid E n) (os_rows st) = []"
    using assms(2) by (auto simp: ownership_ok_def)
  have cs: "os_challenges st' = map (\<lambda>x. if ch_id x = ch_id c then ?c else x) (os_challenges st)"
    using put_in_place [OF ok(2), of ?c] assms(3) by (simp add: st' put_challenge_def)
  have rows: "os_rows st' = os_rows st @ [?e]" and nxt: "os_next st' = Suc (os_next st)" by (simp_all add: st' put_challenge_def)
  have ids: "map ch_id (os_challenges st') = map ch_id (os_challenges st)" by (simp add: cs comp_def)
  have pending: "rows_of (ch_id c) (os_rows st) = []"
    using ok(1) assms(3,4) by (auto simp: list_all_iff settled_challenge_def split: if_splits)
  have "settled_challenge (os_rows st') ?c"
    using pending by (auto simp: settled_challenge_def rows rows_of_append ownership_evidence_of) (simp add: ownership_evidence_def)
  moreover have "settled_challenge (os_rows st') x" if "x \<in> set (os_challenges st)" "ch_id x \<noteq> ch_id c" for x
    using ok(1) that by (auto simp: list_all_iff settled_challenge_def rows rows_of_append ownership_evidence_of)
  ultimately have "list_all (settled_challenge (os_rows st')) (os_challenges st')" by (auto simp: list_all_iff cs)
  moreover have "oe_uuid E n \<notin> ch_id ` set (os_challenges st') \<and> rows_of (oe_uuid E n) (os_rows st') = []" if "os_next st' \<le> n" for n
  proof -
    have f: "oe_uuid E n \<notin> ch_id ` set (os_challenges st)" "rows_of (oe_uuid E n) (os_rows st) = []"
      using free [of n] that nxt by auto
    moreover have "ch_id ` set (os_challenges st') = ch_id ` set (os_challenges st)" using ids by (metis set_map)
    moreover have "ch_id c \<noteq> oe_uuid E n" using f(1) assms(3) by (metis imageI)
    ultimately show ?thesis by (auto simp: rows rows_of_append ownership_evidence_of)
  qed
  ultimately show ?thesis using ok(2) ids by (simp add: ownership_ok_def)
qed

lemma ownership_ok_verify:
  assumes "inj (oe_uuid E)" and "ownership_ok E st"
  shows "ownership_ok E (snd (verify_challenge_endpoint E w p cid submitted st))"
proof (cases "challenge_by_id cid st")
  case (Some c)
  show ?thesis
  proof (cases "attempt_verification E w c submitted st")
    case (Some out)
    obtain v c' st' where out: "out = (v, c', st')" by (cases out)
    have "ownership_ok E st'"
    proof (cases "v \<and> ch_status c \<noteq> ''verified''")
      case True
      have "c \<in> set (os_challenges st)" using challenge_in [OF \<open>challenge_by_id cid st = Some c\<close>] by simp
      then show ?thesis using ownership_ok_verified [OF assms] True Some by (simp add: out)
    next
      case False
      then have "st' = st" using Some out
        by (auto simp: attempt_verification_def Let_def split: if_splits option.splits bool.splits)
      then show ?thesis using assms(2) by simp
    qed
    then show ?thesis using assms(2) ownership_ok_event \<open>challenge_by_id cid st = Some c\<close> Some out
      by (auto simp: verify_challenge_endpoint_def)
  qed (simp add: verify_challenge_endpoint_def \<open>challenge_by_id cid st = Some c\<close> assms(2))
qed (simp add: verify_challenge_endpoint_def assms(2))

lemma serve_ok: "inj (oe_uuid E) \<Longrightarrow> ownership_ok E st \<Longrightarrow> ownership_ok E (serve E r st)"
  by (auto simp: serve_def ownership_ok_issue ownership_ok_verify split: ownership_request.split prod.split)

lemma serve_all_ok: "inj (oe_uuid E) \<Longrightarrow> ownership_ok E st \<Longrightarrow> ownership_ok E (fold (serve E) rs st)"
  by (induction rs arbitrary: st) (simp_all add: serve_ok)

text \<open>C25. One signal per proof: whatever is issued and verified, in whatever order, a challenge is pending without
  evidence or verified with exactly one row of evidence, attached to the run it was issued for.\<close>

theorem challenge_evidence_exact:
  assumes "inj (oe_uuid E)" and "os_challenges st = []" and "\<And>n. rows_of (oe_uuid E n) (os_rows st) = []"
  shows "let st' = fold (serve E) rs st in
    list_all (settled_challenge (os_rows st')) (os_challenges st') \<and> distinct (map ch_id (os_challenges st'))"
proof -
  have "ownership_ok E st" using assms(2,3) by (simp add: ownership_ok_def)
  from serve_all_ok [OF assms(1) this, of rs] show ?thesis by (simp add: ownership_ok_def Let_def)
qed

lemma challenge_evidence_exact_witness:
  "let st' = fold (serve sample_env) [(sample_world, sample_operator,
      Issue ''r'' ''html_meta'' None)] sample_site in
    list_all (settled_challenge (os_rows st')) (os_challenges st') \<and> distinct (map ch_id (os_challenges st'))"
  by (rule challenge_evidence_exact [OF sample_uuid]) (simp_all add: sample_site_def rows_of_def)

definition proven :: "(world \<times> principal \<times> ownership_request) list \<Rightarrow> challenge \<Rightarrow> bool" where
  "proven rs c = (\<exists>w p submitted. (w, p, Verify (ch_id c) submitted) \<in> set rs \<and> proof_found w c submitted = Some True)"

lemma proof_found_fields: "ch_domain d = ch_domain c \<Longrightarrow> ch_method d = ch_method c \<Longrightarrow> ch_token d = ch_token c \<Longrightarrow>
    proof_found w d submitted = proof_found w c submitted"
  by (simp add: proof_found_def)

lemma update_first_member: "x \<in> set (update_first P (\<lambda>_. y) xs) \<Longrightarrow> x \<in> set xs \<or> x = y"
  using update_first_set [of P "\<lambda>_. y" xs] by auto

lemma attempt_cases:
  assumes "attempt_verification E w c submitted st = Some (v, c', st')"
  shows "st' = st \<or> proof_found w c submitted = Some True
    \<and> (\<forall>x \<in> set (os_challenges st'). x \<in> set (os_challenges st) \<or> x = c')
    \<and> ch_id c' = ch_id c \<and> ch_domain c' = ch_domain c \<and> ch_method c' = ch_method c \<and> ch_token c' = ch_token c"
proof (cases "st' = st")
  case False
  with assms have found: "proof_found w c submitted = Some True"
    by (auto simp: attempt_verification_def Let_def split: if_splits option.splits bool.splits)
  with assms False have "c' = c\<lparr>ch_status := ''verified'', ch_verified_at := Some (time_now w),
        ch_evidence := Some (ev_id (ownership_evidence (oe_uuid E (os_next st)) (time_now w) c))\<rparr>"
    and "os_challenges st' = update_first (\<lambda>x. ch_id x = ch_id c') (\<lambda>_. c') (os_challenges st)"
    by (auto simp: attempt_verification_def Let_def put_challenge_def split: if_splits)
  then show ?thesis using found by (auto dest: update_first_member)
qed simp

lemma served_challenge:
  assumes "x \<in> set (os_challenges (serve E r st))" and "ch_status x = ''verified''"
  shows "x \<in> set (os_challenges st) \<or> proven [r] x"
proof -
  obtain w p q where r: "r = (w, p, q)" by (metis prod_cases3)
  show ?thesis
  proof (cases q)
    case (Issue rid meth goal)
    obtain res st' where i: "issue_challenge E w rid meth goal (pr_operator p) (pr_client p) st = (res, st')" by fastforce
    show ?thesis using issue_effect [OF i] assms
      by (auto simp: serve_def r Issue issue_challenge_endpoint_def i challenge_event_def)
  next
    case (Verify cid submitted)
    show ?thesis
    proof (cases "challenge_by_id cid st")
      case None
      then show ?thesis using assms by (simp add: serve_def r Verify verify_challenge_endpoint_def)
    next
      case (Some c)
      have cid: "ch_id c = cid" using challenge_in [OF Some] by simp
      show ?thesis
      proof (cases "attempt_verification E w c submitted st")
        case None
        then show ?thesis using assms Some by (auto simp: serve_def r Verify verify_challenge_endpoint_def split: if_splits)
      next
        case (Some out)
        obtain v c' st' where out: "out = (v, c', st')" by (cases out)
        have "x \<in> set (os_challenges st) \<or> x \<in> set (os_challenges st')"
          using assms Some out \<open>challenge_by_id cid st = Some c\<close>
          by (auto simp: serve_def r Verify verify_challenge_endpoint_def challenge_event_def split: if_splits)
        then show ?thesis using attempt_cases [OF Some [unfolded out]] proof_found_fields [of c' c w submitted] cid
          by (auto simp: proven_def r Verify)
      qed
    qed
  qed
qed

text \<open>C26. No verification without a proof: a challenge is verified only after a request to verify it for which the
  proof of its method, for its own domain and token, was found: the record in DNS, the tag on the page or the
  mailed token.\<close>

theorem verified_was_proven:
  assumes "os_challenges st = []" and "c \<in> set (os_challenges (fold (serve E) rs st))" and "ch_status c = ''verified''"
  shows "\<exists>w p submitted. (w, p, Verify (ch_id c) submitted) \<in> set rs \<and> proof_found w c submitted = Some True"
proof -
  have "c \<in> set (os_challenges (fold (serve E) rs st)) \<Longrightarrow> proven rs c"
  proof (induction rs rule: rev_induct)
    case (snoc r rs)
    then show ?case using served_challenge [of c E r "fold (serve E) rs st"] assms(3) by (auto simp: proven_def)
  qed (use assms(1) in simp)
  then show ?thesis using assms(2) by (simp add: proven_def)
qed

definition sample_requests :: "(world \<times> principal \<times> ownership_request) list" where
  "sample_requests = [(sample_world, sample_operator, Issue ''r'' ''email'' (Some ''ceo@acme.io'')), (sample_world, sample_operator, Verify [] (Some ''0a1b''))]"

lemma verified_was_proven_witness:
  "\<exists>c \<in> set (os_challenges (fold (serve sample_env) sample_requests sample_site)).
    ch_status c = ''verified'' \<and> (\<exists>w p submitted. (w, p, Verify (ch_id c) submitted) \<in> set sample_requests
      \<and> proof_found w c submitted = Some True)"
proof -
  let ?c = "hd (os_challenges (fold (serve sample_env) sample_requests sample_site))"
  have c: "?c \<in> set (os_challenges (fold (serve sample_env) sample_requests sample_site))" "ch_status ?c = ''verified''"
    by code_simp+
  moreover have "os_challenges sample_site = []" by (simp add: sample_site_def)
  ultimately show ?thesis using verified_was_proven [of sample_site ?c sample_env sample_requests] by blast
qed

text \<open>The mailed token stays with the mailbox: issuing an e-mail challenge answers and records the same whatever
  the token is, and no listing of challenges depends on the token of an e-mail challenge.\<close>

theorem email_token_withheld:
  "fst (issue_challenge_endpoint E w p rid ''email'' target st)
      = fst (issue_challenge_endpoint (E\<lparr>oe_token := other\<rparr>) w p rid ''email'' target st)
    \<and> os_events (snd (issue_challenge_endpoint E w p rid ''email'' target st))
      = os_events (snd (issue_challenge_endpoint (E\<lparr>oe_token := other\<rparr>) w p rid ''email'' target st))
    \<and> list_challenges_endpoint i st = list_challenges_endpoint i
        (st\<lparr>os_challenges := map (\<lambda>c. if ch_method c = ''email'' then c\<lparr>ch_token := secret\<rparr> else c) (os_challenges st)\<rparr>)"
proof (intro conjI)
  show "fst (issue_challenge_endpoint E w p rid ''email'' target st)
      = fst (issue_challenge_endpoint (E\<lparr>oe_token := other\<rparr>) w p rid ''email'' target st)"
    by (simp add: issue_challenge_endpoint_def issue_challenge_def Let_def run_by_id_def to_response_def instructions_for_def
        split: option.split)
  show "os_events (snd (issue_challenge_endpoint E w p rid ''email'' target st))
      = os_events (snd (issue_challenge_endpoint (E\<lparr>oe_token := other\<rparr>) w p rid ''email'' target st))"
    by (simp add: issue_challenge_endpoint_def issue_challenge_def Let_def run_by_id_def challenge_event_def
        split: option.split)
  let ?h = "\<lambda>c :: challenge. if ch_method c = ''email'' then c\<lparr>ch_token := secret\<rparr> else c"
  have resp: "to_response (?h c) = to_response c" for c by (simp add: to_response_def instructions_for_def)
  have key: "ch_issued_at (?h c) = ch_issued_at c" "ch_run (?h c) = ch_run c" for c by simp_all
  have hom: "insort_key (\<lambda>c. - ch_issued_at c) (?h c) (map ?h cs) = map ?h (insort_key (\<lambda>c. - ch_issued_at c) c cs)" for c cs
    by (induction cs) (simp_all add: key)
  have sort: "sort_key (\<lambda>c. - ch_issued_at c) (map ?h cs) = map ?h (sort_key (\<lambda>c. - ch_issued_at c) cs)" for cs
    by (induction cs) (simp_all add: sort_key_simps hom)
  have "filter (\<lambda>c. ch_run c = i) (map ?h cs) = map ?h (filter (\<lambda>c. ch_run c = i) cs)" for cs
    by (simp add: filter_map comp_def key)
  then show "list_challenges_endpoint i st = list_challenges_endpoint i (st\<lparr>os_challenges := map ?h (os_challenges st)\<rparr>)"
    by (simp add: list_challenges_endpoint_def run_by_id_def sort comp_def resp split: option.split)
qed

end
