(* ===== verification/Intake.thy ===== *)
theory Intake
  imports Kyb_Evidence Access
begin

text \<open>
  Business submissions: \<open>app/schemas/submission.py\<close>, \<open>app/api/submissions.py\<close> and the rows of
  \<open>app/models/submission.py\<close>, \<open>review.py\<close>, \<open>entity.py\<close> and \<open>verification_run.py\<close>, with the creation of
  runs of \<open>app/pipeline/orchestrator.py\<close>. What pydantic checks of an e-mail address or a URL and what Starlette
  parses of a request is outside; a run handed to Celery is its identifier in a queue. Times are numbers.
\<close>

section \<open>Declared people\<close>

record declared_person =
  dp_name :: string
  dp_relationship :: string
  dp_role :: "string option"
  dp_dob :: "string option"
  dp_nationality :: "string option"
  dp_ownership :: "rat option"

definition name_not_blank :: "string \<Rightarrow> string option" where
  \<comment> \<open>None is the \<open>ValueError\<close>\<close>
  "name_not_blank v = (let v = str_join '' '' (str_split v) in if v = [] then None else Some v)"

definition month_digits :: "string \<Rightarrow> bool" where
  "month_digits s = (case s of
       [a, b] \<Rightarrow> a = CHR ''0'' \<and> is_digit b \<and> b \<noteq> CHR ''0'' \<or> a = CHR ''1'' \<and> b \<in> set ''012''
     | _ \<Rightarrow> False)"

definition day_digits :: "string \<Rightarrow> bool" where
  "day_digits s = (case s of
       [a, b] \<Rightarrow> a = CHR ''0'' \<and> is_digit b \<and> b \<noteq> CHR ''0'' \<or> a \<in> set ''12'' \<and> is_digit b
         \<or> a = CHR ''3'' \<and> b \<in> set ''01''
     | _ \<Rightarrow> False)"

definition dob_pattern :: "string \<Rightarrow> bool" where
  "dob_pattern s = (case split_on CHR ''-'' s of
       [y] \<Rightarrow> length y = 4 \<and> list_all is_digit y
     | [y, m] \<Rightarrow> length y = 4 \<and> list_all is_digit y \<and> month_digits m
     | [y, m, d] \<Rightarrow> length y = 4 \<and> list_all is_digit y \<and> month_digits m \<and> day_digits d
     | _ \<Rightarrow> False)"

definition dob_shape :: "string option \<Rightarrow> string option option" where
  "dob_shape v = (case v of
       None \<Rightarrow> Some None
     | Some s \<Rightarrow> if dob_pattern (str_strip s) then Some (Some (str_strip s)) else None)"

definition char_count :: "string \<Rightarrow> nat" where
  \<comment> \<open>the number of characters in the UTF-8 bytes: the bytes that do not continue another\<close>
  "char_count s = length (filter (\<lambda>c. of_char c div 64 \<noteq> (2 :: nat)) s)"

definition declared_person_of :: "declared_person \<Rightarrow> declared_person option" where
  \<comment> \<open>the validation of one declared person, None when it is refused\<close>
  "declared_person_of p =
    (if 256 < char_count (dp_name p) \<or> dp_relationship p \<notin> {''officer'', ''owner''}
        \<or> (case dp_role p of None \<Rightarrow> False | Some r \<Rightarrow> 128 < char_count r)
        \<or> (case dp_nationality p of None \<Rightarrow> False | Some n \<Rightarrow> 64 < char_count n)
        \<or> (case dp_ownership p of None \<Rightarrow> False | Some x \<Rightarrow> x < 0 \<or> 100 < x)
     then None
     else do {
       name \<leftarrow> name_not_blank (dp_name p);
       dob \<leftarrow> dob_shape (dp_dob p);
       Some (p\<lparr>dp_name := name, dp_dob := dob\<rparr>)
     })"

section \<open>Requests\<close>

record submission_request =
  rq_company :: string
  rq_email :: string
  rq_domain :: string
  rq_country :: string
  rq_tax :: "string option"
  rq_registration :: "string option"
  rq_address :: "string option"
  rq_phone :: "string option"
  rq_requester :: "string option"
  rq_linkedin :: "string option"
  rq_extra :: "(string \<times> json) list option"
  rq_people :: "declared_person list option"
  rq_key :: "string option"

definition drop_scheme :: "string \<Rightarrow> string \<Rightarrow> string" where
  "drop_scheme p domain = (if take (length p) (str_lower domain) = p then drop (length p) domain else domain)"

definition coerce_domain :: "string \<Rightarrow> string" where
  "coerce_domain domain =
     str_lower (str_strip (hd (split_on CHR ''/'' (drop_scheme ''http://'' (drop_scheme ''https://'' domain)))))"

fun option_all :: "('a \<Rightarrow> 'b option) \<Rightarrow> 'a list \<Rightarrow> 'b list option" where
  "option_all f [] = Some []"
| "option_all f (x # xs) = do { y \<leftarrow> f x; ys \<leftarrow> option_all f xs; Some (y # ys) }"

definition submission_request_of :: "submission_request \<Rightarrow> submission_request option" where
  "submission_request_of r = (case rq_people r of
       None \<Rightarrow> Some (r\<lparr>rq_domain := coerce_domain (rq_domain r)\<rparr>)
     | Some ps \<Rightarrow> if 50 < length ps then None else do {
         ps' \<leftarrow> option_all declared_person_of ps;
         Some (r\<lparr>rq_people := Some ps', rq_domain := coerce_domain (rq_domain r)\<rparr>)
       })"

section \<open>Rows\<close>

record submission =
  su_id :: string
  su_key :: "string option"
  su_company :: "string option" \<comment> \<open>this and the next three columns are never NULL\<close>
  su_domain :: "string option"
  su_email :: "string option"
  su_country :: "string option"
  su_tax :: "string option"
  su_address :: "string option"
  su_phone :: "string option"
  su_requester :: "string option"
  su_linkedin :: "string option"
  su_people :: "declared_person list option"
  su_extra :: "(string \<times> json) list option"
  su_ip :: "string option"
  su_agent :: "string option"
  su_headers :: "(string \<times> string) list option"
  su_endpoint :: "string option"
  su_entity :: string
  su_client :: "string option"
  su_at :: rat

record entity_row =
  en_id :: string
  en_name :: string
  en_domain :: string

record run_row = verification_run +
  rn_status :: string
  rn_supersedes :: "string option"
  rn_created :: rat

record review =
  rv_id :: string
  rv_run :: string
  rv_operator :: string
  rv_status :: string
  rv_notes :: "string option"
  rv_corrections :: "(string \<times> string option) list option"
  rv_decided :: "rat option"
  rv_updated :: rat

record kyb =
  kb_submissions :: "submission list"
  kb_entities :: "entity_row list"
  kb_runs :: "run_row list"
  kb_reviews :: "review list"
  kb_rows :: "evidence list"
  kb_events :: "audit_event list"
  kb_queue :: "string list" \<comment> \<open>the runs handed to the workers\<close>
  kb_next :: nat

definition log_event :: "(nat \<Rightarrow> string) \<Rightarrow> rat \<Rightarrow> string \<Rightarrow> string option \<Rightarrow> string option \<Rightarrow> string option \<Rightarrow> string option
    \<Rightarrow> (string \<times> json) list \<Rightarrow> kyb \<Rightarrow> kyb" where
  "log_event uuid now type operator client run submission details st = st
     \<lparr>kb_events := kb_events st @ [\<lparr>ae_id = uuid (kb_next st), ae_type = type, ae_operator = operator, ae_client = client,
        ae_run = run, ae_submission = submission, ae_payload = details, ae_at = now\<rparr>],
      kb_next := Suc (kb_next st)\<rparr>"

section \<open>The address of the client\<close>

record http_request =
  hr_peer :: "string option"
  hr_headers :: "(string \<times> string) list" \<comment> \<open>names in lower case\<close>
  hr_path :: string

definition forwarded_parts :: "http_request \<Rightarrow> string list" where
  "forwarded_parts r = filter (\<lambda>p. p \<noteq> [])
     (map str_strip (split_on CHR '','' (case map_of (hr_headers r) ''x-forwarded-for'' of None \<Rightarrow> [] | Some v \<Rightarrow> v)))"

definition get_trusted_client_ip :: "int \<Rightarrow> http_request \<Rightarrow> string option option" where
  \<comment> \<open>None is the \<open>IndexError\<close> of a negative depth\<close>
  "get_trusted_client_ip depth r =
    (if depth = 0 then Some (hr_peer r)
     else let parts = forwarded_parts r in
       if depth \<le> int (length parts)
       then (if 0 < depth then Some (Some (parts ! (length parts - nat depth)))
             else if nat (- depth) < length parts then Some (Some (parts ! nat (- depth))) else None)
       else Some (hr_peer r))"

definition FORWARDED_HEADERS :: "string list" where
  "FORWARDED_HEADERS = [''x-forwarded-for'', ''x-real-ip'', ''x-forwarded-host'', ''x-forwarded-proto'', ''forwarded'',
     ''cf-connecting-ip'', ''true-client-ip'']"

definition collect_forwarded_headers :: "http_request \<Rightarrow> (string \<times> string) list" where
  "collect_forwarded_headers r =
     List.map_filter (\<lambda>h. map_option (\<lambda>v. (h, v)) (map_of (hr_headers r) h)) FORWARDED_HEADERS"

section \<open>Free e-mail domains\<close>

definition FREE_EMAIL_DOMAINS :: "string list" where
  "FREE_EMAIL_DOMAINS = [''gmail.com'', ''yahoo.com'', ''yahoo.co.uk'', ''hotmail.com'', ''hotmail.co.uk'', ''outlook.com'',
     ''live.com'', ''icloud.com'', ''me.com'', ''mac.com'', ''aol.com'', ''protonmail.com'', ''proton.me'', ''tutanota.com'',
     ''mailinator.com'', ''guerrillamail.com'', ''throwam.com'', ''temp-mail.org'', ''yopmail.com'', ''sharklasers.com'',
     ''guerrillamailblock.com'', ''grr.la'', ''guerrillamail.info'', ''guerrillamail.biz'', ''guerrillamail.de'',
     ''guerrillamail.net'', ''guerrillamail.org'', ''spam4.me'', ''trashmail.com'', ''trashmail.me'', ''trashmail.net'',
     ''dispostable.com'']"

definition after_at :: "string \<Rightarrow> string option" where
  \<comment> \<open>\<open>email.split("@", 1)[1]\<close>, None for the \<open>IndexError\<close>\<close>
  "after_at email = (case dropWhile (\<lambda>c. c \<noteq> CHR ''@'') email of [] \<Rightarrow> None | _ # domain \<Rightarrow> Some domain)"

definition is_free_email_domain :: "string \<Rightarrow> bool" where
  "is_free_email_domain email = (case after_at email of
       None \<Rightarrow> False
     | Some domain \<Rightarrow> str_lower domain \<in> set FREE_EMAIL_DOMAINS)"

section \<open>Runs\<close>

definition new_verification_run :: "(nat \<Rightarrow> string) \<Rightarrow> rat \<Rightarrow> string \<Rightarrow> string \<Rightarrow> string option \<Rightarrow> kyb \<Rightarrow> run_row \<times> kyb" where
  "new_verification_run uuid now submission entity supersedes st =
    (let r = \<lparr>run_id = uuid (kb_next st), submission_id = submission, entity_id = entity, rn_status = ''pending'',
           rn_supersedes = supersedes, rn_created = now\<rparr>
     in (r, st\<lparr>kb_runs := kb_runs st @ [r], kb_next := Suc (kb_next st)\<rparr>))"

definition enqueue_run :: "string \<Rightarrow> kyb \<Rightarrow> kyb" where
  "enqueue_run i st = st\<lparr>kb_queue := kb_queue st @ [i]\<rparr>"

definition run_row_by :: "string \<Rightarrow> kyb \<Rightarrow> run_row option" where
  "run_row_by i st = find (\<lambda>r. run_id r = i) (kb_runs st)"

definition enqueue_reanalysis :: "(nat \<Rightarrow> string) \<Rightarrow> rat \<Rightarrow> string \<Rightarrow> string \<Rightarrow> kyb \<Rightarrow> (string \<times> kyb) option" where
  \<comment> \<open>None is the \<open>ValueError\<close> of an unknown run\<close>
  "enqueue_reanalysis uuid now entity supersedes st = (case run_row_by supersedes st of
       None \<Rightarrow> None
     | Some prior \<Rightarrow>
         let (r, st) = new_verification_run uuid now (submission_id prior) entity (Some supersedes) st
         in Some (run_id r, enqueue_run (run_id r) st))"

definition newest_run :: "run_row list \<Rightarrow> run_row option" where
  \<comment> \<open>the first row ordered by \<open>created_at\<close> descending\<close>
  "newest_run rs = (case sort_key (\<lambda>r. - rn_created r) rs of [] \<Rightarrow> None | r # _ \<Rightarrow> Some r)"

section \<open>Submitting\<close>

definition kind_name :: "principal \<Rightarrow> string" where
  "kind_name p = (case pr_kind p of OperatorKind \<Rightarrow> ''operator'' | SystemKind \<Rightarrow> ''system'')"

record submission_response =
  sr_submission :: string
  sr_run :: string
  sr_status :: string
  sr_free :: bool

definition known_submission :: "string option \<Rightarrow> kyb \<Rightarrow> submission option" where
  "known_submission key st = (if truthy key then find (\<lambda>s. su_key s = key) (kb_submissions st) else None)"

definition submission_of :: "(nat \<Rightarrow> string) \<Rightarrow> rat \<Rightarrow> principal \<Rightarrow> http_request \<Rightarrow> string option \<Rightarrow> submission_request \<Rightarrow> kyb
    \<Rightarrow> submission" where
  "submission_of uuid now p r ip b st = \<lparr>su_id = uuid (Suc (kb_next st)), su_key = rq_key b, su_company = Some (rq_company b),
     su_domain = Some (rq_domain b), su_email = Some (rq_email b), su_country = Some (rq_country b),
     su_tax = opt_or (rq_tax b) (rq_registration b), su_address = rq_address b, su_phone = rq_phone b,
     su_requester = rq_requester b, su_linkedin = (if truthy (rq_linkedin b) then rq_linkedin b else None),
     su_people = (case rq_people b of Some (x # xs) \<Rightarrow> Some (x # xs) | _ \<Rightarrow> None), su_extra = rq_extra b, su_ip = ip,
     su_agent = map_of (hr_headers r) ''user-agent'',
     su_headers = (let hs = collect_forwarded_headers r in if hs = [] then None else Some hs),
     su_endpoint = Some (hr_path r), su_entity = uuid (kb_next st), su_client = pr_client p, su_at = now\<rparr>"

text \<open>The column of the key is unique: an empty key is not looked up, and storing it a second time fails.\<close>

definition submit :: "(nat \<Rightarrow> string) \<Rightarrow> rat \<Rightarrow> int \<Rightarrow> principal \<Rightarrow> http_request \<Rightarrow> submission_request \<Rightarrow> kyb
    \<Rightarrow> submission_response reply \<times> kyb" where
  "submit uuid now depth p r b st = (case known_submission (rq_key b) st of
       Some known \<Rightarrow>
         (case newest_run (filter (\<lambda>x. submission_id x = su_id known) (kb_runs st)) of
            Some run \<Rightarrow> (Served \<lparr>sr_submission = su_id known, sr_run = run_id run, sr_status = rn_status run,
              sr_free = is_free_email_domain (rq_email b)\<rparr>, st)
          | None \<Rightarrow> (Served \<lparr>sr_submission = su_id known, sr_run = [], sr_status = ''pending'',
              sr_free = is_free_email_domain (rq_email b)\<rparr>, st))
     | None \<Rightarrow> (case get_trusted_client_ip depth r of
         None \<Rightarrow> (Refused 500, st)
       | Some ip \<Rightarrow> if rq_key b \<noteq> None \<and> list_ex (\<lambda>s. su_key s = rq_key b) (kb_submissions st) then (Refused 500, st) else
           let e = \<lparr>en_id = uuid (kb_next st), en_name = rq_company b, en_domain = rq_domain b\<rparr>;
               s = submission_of uuid now p r ip b st;
               st1 = st\<lparr>kb_entities := kb_entities st @ [e], kb_submissions := kb_submissions st @ [s],
                 kb_next := kb_next st + 2\<rparr>;
               (run, st2) = new_verification_run uuid now (su_id s) (en_id e) None st1;
               st3 = log_event uuid now (kind_name p @ ''.submission_received'') (pr_operator p) (pr_client p)
                 (Some (run_id run)) (Some (su_id s))
                 [(kind_name p, JText (pr_name p)), (''endpoint'', JText (hr_path r)), (''submitted_at'', JFloat now)] st2
           in (Served \<lparr>sr_submission = su_id s, sr_run = run_id run, sr_status = ''pending'',
                 sr_free = is_free_email_domain (rq_email b)\<rparr>, enqueue_run (run_id run) st3)))"

end
