(* ===== verification/Casework.thy ===== *)
theory Casework
  imports Intake
begin

text \<open>
  What operators do with a run: \<open>app/api/reviews.py\<close>, \<open>app/api/workflow.py\<close> and \<open>app/api/reanalysis.py\<close>. Each
  handler takes the operator its dependency has already identified. A failed constraint of the database rolls the
  request back and is answered with 500.
\<close>

section \<open>Fields of a submission\<close>

definition CORRECTABLE_FIELDS :: "string list" where
  "CORRECTABLE_FIELDS = [''company_name'', ''domain'', ''work_email'', ''country'', ''tax_id'', ''billing_address'',
     ''phone'', ''requester_full_name'', ''linkedin_url'']"

definition field_of :: "submission \<Rightarrow> string \<Rightarrow> string option" where
  "field_of s f =
    (if f = ''company_name'' then su_company s else if f = ''domain'' then su_domain s
     else if f = ''work_email'' then su_email s else if f = ''country'' then su_country s
     else if f = ''tax_id'' then su_tax s else if f = ''billing_address'' then su_address s
     else if f = ''phone'' then su_phone s else if f = ''requester_full_name'' then su_requester s
     else if f = ''linkedin_url'' then su_linkedin s else None)"

definition set_field :: "string \<times> string option \<Rightarrow> submission \<Rightarrow> submission" where
  "set_field c s = (case c of (f, v) \<Rightarrow>
     if f = ''company_name'' then s\<lparr>su_company := v\<rparr> else if f = ''domain'' then s\<lparr>su_domain := v\<rparr>
     else if f = ''work_email'' then s\<lparr>su_email := v\<rparr> else if f = ''country'' then s\<lparr>su_country := v\<rparr>
     else if f = ''tax_id'' then s\<lparr>su_tax := v\<rparr> else if f = ''billing_address'' then s\<lparr>su_address := v\<rparr>
     else if f = ''phone'' then s\<lparr>su_phone := v\<rparr> else if f = ''requester_full_name'' then s\<lparr>su_requester := v\<rparr>
     else if f = ''linkedin_url'' then s\<lparr>su_linkedin := v\<rparr> else s)"

definition columns_filled :: "submission \<Rightarrow> bool" where
  \<comment> \<open>the NOT NULL columns\<close>
  "columns_filled s = (su_company s \<noteq> None \<and> su_domain s \<noteq> None \<and> su_email s \<noteq> None \<and> su_country s \<noteq> None)"

definition text_json :: "string option \<Rightarrow> json" where
  "text_json v = (case v of None \<Rightarrow> JNull | Some s \<Rightarrow> JText s)"

section \<open>Marking a run as reviewed\<close>

definition review_by_run :: "string \<Rightarrow> kyb \<Rightarrow> review option" where
  "review_by_run i st = find (\<lambda>v. rv_run v = i) (kb_reviews st)"

definition add_review :: "review \<Rightarrow> kyb \<Rightarrow> kyb" where
  "add_review v st = st\<lparr>kb_reviews := kb_reviews st @ [v], kb_next := Suc (kb_next st)\<rparr>"

definition mark_reviewed :: "(nat \<Rightarrow> string) \<Rightarrow> rat \<Rightarrow> operator_row \<Rightarrow> string \<Rightarrow> string option \<Rightarrow> string \<Rightarrow> kyb
    \<Rightarrow> review reply \<times> kyb" where
  "mark_reviewed uuid now oper rid notes verdict st = (case run_row_by rid st of
       None \<Rightarrow> (Refused 404, st)
     | Some run \<Rightarrow>
         if review_by_run rid st \<noteq> None then (Refused 409, st)
         else let v = \<lparr>rv_id = uuid (kb_next st), rv_run = rid, rv_operator = op_id oper, rv_status = verdict,
                rv_notes = notes, rv_corrections = None, rv_decided = Some now, rv_updated = now\<rparr>
           in (Served v, log_event uuid now ''operator.mark_reviewed'' (Some (op_id oper)) None (Some rid)
             (Some (submission_id run)) [(''review_id'', JText (rv_id v)), (''review_status'', JText verdict),
               (''notes'', text_json notes), (''decided_at'', JFloat now)] (add_review v st)))"

section \<open>Correcting a submission\<close>

definition append_notes :: "string option \<Rightarrow> string \<Rightarrow> string" where
  "append_notes old new = str_strip (text_or old [] @ [CHR 0x0A] @ new)"

definition correct_review :: "rat \<Rightarrow> (string \<times> string option) list \<Rightarrow> string option \<Rightarrow> review \<Rightarrow> review" where
  "correct_review now corrections notes v = v
     \<lparr>rv_corrections := Some (fold (\<lambda>(f, x). AList.update f x) corrections (case rv_corrections v of None \<Rightarrow> [] | Some d \<Rightarrow> d)),
      rv_notes := (if truthy notes then Some (append_notes (rv_notes v) (the notes)) else rv_notes v),
      rv_updated := now\<rparr>"

definition upsert_corrections :: "(nat \<Rightarrow> string) \<Rightarrow> rat \<Rightarrow> operator_row \<Rightarrow> string \<Rightarrow> (string \<times> string option) list
    \<Rightarrow> string option \<Rightarrow> kyb \<Rightarrow> kyb" where
  "upsert_corrections uuid now oper rid corrections notes st =
    (if review_by_run rid st \<noteq> None
     then st\<lparr>kb_reviews := update_first (\<lambda>v. rv_run v = rid) (correct_review now corrections notes) (kb_reviews st)\<rparr>
     else add_review \<lparr>rv_id = uuid (kb_next st), rv_run = rid, rv_operator = op_id oper, rv_status = ''reviewed'',
       rv_notes = notes, rv_corrections = Some corrections, rv_decided = Some now, rv_updated = now\<rparr> st)"

definition submission_by :: "string \<Rightarrow> kyb \<Rightarrow> submission option" where
  "submission_by i st = find (\<lambda>s. su_id s = i) (kb_submissions st)"

definition before_values :: "submission \<Rightarrow> (string \<times> string option) list \<Rightarrow> (string \<times> json) list" where
  "before_values s corrections = map (\<lambda>(f, _). (f, text_json (field_of s f))) corrections"

definition correct_and_rerun :: "(nat \<Rightarrow> string) \<Rightarrow> rat \<Rightarrow> operator_row \<Rightarrow> string \<Rightarrow> (string \<times> string option) list
    \<Rightarrow> string option \<Rightarrow> kyb \<Rightarrow> string reply \<times> kyb" where
  \<comment> \<open>answers the new run; \<open>corrections\<close> is a dictionary: its keys are distinct\<close>
  "correct_and_rerun uuid now oper rid corrections notes st =
    (if corrections = [] \<or> \<not> fst ` set corrections \<subseteq> set CORRECTABLE_FIELDS then (Refused 422, st)
     else case run_row_by rid st of
       None \<Rightarrow> (Refused 404, st)
     | Some prior \<Rightarrow> (case submission_by (submission_id prior) st of
         None \<Rightarrow> (Refused 404, st)
       | Some s \<Rightarrow>
           let s' = fold set_field corrections s;
               st1 = st\<lparr>kb_submissions := update_first (\<lambda>x. su_id x = su_id s) (\<lambda>_. s') (kb_submissions st)\<rparr>;
               st2 = upsert_corrections uuid now oper rid corrections notes st1
           in if \<not> columns_filled s' then (Refused 500, st)
              else case enqueue_reanalysis uuid now (entity_id prior) rid st2 of
                None \<Rightarrow> (Refused 500, st)
              | Some (new, st3) \<Rightarrow> (Served new, log_event uuid now ''operator.correct_and_rerun'' (Some (op_id oper)) None
                  (Some new) (Some (submission_id prior))
                  [(''new_run_id'', JText new), (''supersedes_run_id'', JText rid), (''submission_id'', JText (submission_id prior)),
                   (''corrections'', JDict (map (\<lambda>(f, x). (f, text_json x)) corrections)),
                   (''before'', JDict (before_values s corrections)), (''notes'', text_json notes),
                   (''triggered_at'', JFloat now)] st3)))"

section \<open>Notes\<close>

definition note_review :: "rat \<Rightarrow> string \<Rightarrow> string option \<Rightarrow> review \<Rightarrow> review" where
  "note_review now notes verdict v = v\<lparr>rv_notes := Some (append_notes (rv_notes v) notes),
     rv_status := (case verdict of None \<Rightarrow> rv_status v | Some s \<Rightarrow> s), rv_updated := now\<rparr>"

definition add_notes :: "(nat \<Rightarrow> string) \<Rightarrow> rat \<Rightarrow> operator_row \<Rightarrow> string \<Rightarrow> string \<Rightarrow> string option \<Rightarrow> kyb \<Rightarrow> review reply \<times> kyb" where
  "add_notes uuid now oper rid notes verdict st = (case run_row_by rid st of
       None \<Rightarrow> (Refused 404, st)
     | Some run \<Rightarrow>
         let (v, st) = (case review_by_run rid st of
               Some v \<Rightarrow> (note_review now notes verdict v,
                 st\<lparr>kb_reviews := update_first (\<lambda>v. rv_run v = rid) (note_review now notes verdict) (kb_reviews st)\<rparr>)
             | None \<Rightarrow>
                 let v = \<lparr>rv_id = uuid (kb_next st), rv_run = rid, rv_operator = op_id oper,
                   rv_status = text_or verdict ''reviewed'', rv_notes = Some notes, rv_corrections = None,
                   rv_decided = Some now, rv_updated = now\<rparr>
                 in (v, add_review v st))
         in (Served v, log_event uuid now ''operator.add_notes'' (Some (op_id oper)) None (Some rid) (Some (submission_id run))
           [(''review_id'', JText (rv_id v)), (''notes_added'', JText notes), (''review_status'', JText (rv_status v)),
            (''updated_at'', JFloat now)] st))"

section \<open>Analysing again\<close>

definition trigger_reanalysis :: "(nat \<Rightarrow> string) \<Rightarrow> rat \<Rightarrow> operator_row \<Rightarrow> string \<Rightarrow> kyb \<Rightarrow> string reply \<times> kyb" where
  "trigger_reanalysis uuid now oper rid st = (case run_row_by rid st of
       None \<Rightarrow> (Refused 404, st)
     | Some prior \<Rightarrow> (case enqueue_reanalysis uuid now (entity_id prior) rid st of
         None \<Rightarrow> (Refused 500, st)
       | Some (new, st') \<Rightarrow> (Served new, log_event uuid now ''operator.trigger_reanalysis'' (Some (op_id oper)) None (Some new)
           (Some (submission_id prior)) [(''new_run_id'', JText new), (''supersedes_run_id'', JText rid),
             (''entity_id'', JText (entity_id prior)), (''triggered_at'', JFloat now)] st')))"

end
