(* ===== verification/Pii_Retention.thy ===== *)
theory Pii_Retention
  imports Casework Ip_Address
begin

text \<open>
  The retention job for submissions, \<open>app/db/retention.py\<close>. The three windows, read from the environment, are
  arguments; a time is a number of seconds, a day 86400 of them.
\<close>

definition ANONYMIZED_EMAIL :: string where
  "ANONYMIZED_EMAIL = ''redacted@anonymized.invalid''"

definition REQUESTER_FIELD :: string where "REQUESTER_FIELD = ''linkedin_presence''"

definition REQUESTER_KEY :: string where "REQUESTER_KEY = ''associated_people''"

record windows =
  network_days :: int
  reviewed_days :: int
  unreviewed_days :: int

definition DEFAULT_WINDOWS :: windows where
  "DEFAULT_WINDOWS = \<lparr>network_days = 90, reviewed_days = 1825, unreviewed_days = 180\<rparr>"

definition cutoff :: "rat \<Rightarrow> int \<Rightarrow> rat" where
  "cutoff now days = now - of_int (days * 86400)"

section \<open>Network metadata\<close>

definition truncate_ip :: "string \<Rightarrow> string option" where
  "truncate_ip ip = map_option show_network (ip_address ip)"

definition network_already_anonymized :: "submission \<Rightarrow> bool" where
  "network_already_anonymized s =
    (if su_agent s \<noteq> None \<or> su_headers s \<noteq> None then False
     else if (case su_ip s of None \<Rightarrow> False | Some ip \<Rightarrow> CHR ''/'' \<notin> set ip) then False
     else True)"

definition network_due :: "windows \<Rightarrow> rat \<Rightarrow> submission \<Rightarrow> bool" where
  "network_due W now s = ((su_ip s \<noteq> None \<or> su_agent s \<noteq> None \<or> su_headers s \<noteq> None)
     \<and> \<not> cutoff now (network_days W) < su_at s \<and> \<not> network_already_anonymized s)"

definition anonymize_network :: "submission \<Rightarrow> submission" where
  "anonymize_network s = s\<lparr>su_ip := (case su_ip s of None \<Rightarrow> None | Some ip \<Rightarrow> truncate_ip ip),
     su_agent := None, su_headers := None\<rparr>"

definition anonymize_network_metadata :: "windows \<Rightarrow> rat \<Rightarrow> kyb \<Rightarrow> nat \<times> kyb" where
  "anonymize_network_metadata W now st =
    (length (filter (network_due W now) (kb_submissions st)),
     st\<lparr>kb_submissions := map (\<lambda>s. if network_due W now s then anonymize_network s else s) (kb_submissions st)\<rparr>)"

section \<open>Submitted data\<close>

definition later :: "rat option \<Rightarrow> rat option \<Rightarrow> rat option" where
  "later a b = (case (a, b) of (None, _) \<Rightarrow> b | (_, None) \<Rightarrow> a | (Some x, Some y) \<Rightarrow> Some (max x y))"

definition latest_review_decision :: "kyb \<Rightarrow> string \<Rightarrow> rat option" where
  "latest_review_decision st sid =
     foldr later (map rv_decided (filter (\<lambda>v. list_ex (\<lambda>r. run_id r = rv_run v \<and> submission_id r = sid) (kb_runs st))
       (kb_reviews st))) None"

definition anonymize_submission_pii :: "submission \<Rightarrow> submission" where
  "anonymize_submission_pii s = s\<lparr>su_tax := None, su_address := None, su_phone := None, su_requester := None,
     su_linkedin := None, su_people := None, su_email := Some ANONYMIZED_EMAIL\<rparr>"

datatype pii_due = KeepPii | ReviewedPii | UnreviewedPii

definition pii_category :: "windows \<Rightarrow> rat \<Rightarrow> kyb \<Rightarrow> submission \<Rightarrow> pii_due" where
  "pii_category W now st s =
    (if su_email s = None \<or> su_email s = Some ANONYMIZED_EMAIL then KeepPii
     else case latest_review_decision st (su_id s) of
         Some t \<Rightarrow> if t \<le> cutoff now (reviewed_days W) then ReviewedPii else KeepPii
       | None \<Rightarrow> if su_at s \<le> cutoff now (unreviewed_days W) then UnreviewedPii else KeepPii)"

section \<open>People named by the LinkedIn evidence\<close>

definition names_requesters :: "string list \<Rightarrow> evidence \<Rightarrow> bool" where
  "names_requesters runs e = (ev_run e \<in> set runs \<and> ev_field e = Some REQUESTER_FIELD
     \<and> map_of (payload e) REQUESTER_KEY \<noteq> None)"

definition strip_requesters :: "evidence \<Rightarrow> evidence" where
  "strip_requesters e = e\<lparr>raw_payload := Some (AList.delete REQUESTER_KEY (payload e))\<rparr>"

definition anonymize_requester_association :: "string list \<Rightarrow> kyb \<Rightarrow> nat \<times> kyb" where
  "anonymize_requester_association sids st =
    (let runs = map run_id (filter (\<lambda>r. submission_id r \<in> set sids) (kb_runs st))
     in (length (filter (names_requesters runs) (kb_rows st)),
         st\<lparr>kb_rows := map (\<lambda>e. if names_requesters runs e then strip_requesters e else e) (kb_rows st)\<rparr>))"

section \<open>One pass\<close>

record retention_counts =
  rc_network :: nat
  rc_reviewed :: nat
  rc_unreviewed :: nat
  rc_requester :: nat

definition counts_json :: "retention_counts \<Rightarrow> (string \<times> json) list" where
  "counts_json c = [(''network_metadata'', JInt (int (rc_network c))), (''reviewed_pii'', JInt (int (rc_reviewed c))),
     (''unreviewed_pii'', JInt (int (rc_unreviewed c))), (''requester_association'', JInt (int (rc_requester c)))]"

definition run_retention :: "(nat \<Rightarrow> string) \<Rightarrow> windows \<Rightarrow> rat \<Rightarrow> kyb \<Rightarrow> retention_counts \<times> kyb" where
  "run_retention uuid W now st =
    (let (network, st1) = anonymize_network_metadata W now st;
         category = pii_category W now st1;
         st2 = st1\<lparr>kb_submissions := map (\<lambda>s. if category s = KeepPii then s else anonymize_submission_pii s) (kb_submissions st1)\<rparr>;
         done = map su_id (filter (\<lambda>s. su_email s = Some ANONYMIZED_EMAIL) (kb_submissions st2));
         (people, st3) = anonymize_requester_association done st2;
         c = \<lparr>rc_network = network, rc_reviewed = length (filter (\<lambda>s. category s = ReviewedPii) (kb_submissions st1)),
           rc_unreviewed = length (filter (\<lambda>s. category s = UnreviewedPii) (kb_submissions st1)), rc_requester = people\<rparr>
     in (c, if rc_network c = 0 \<and> rc_reviewed c = 0 \<and> rc_unreviewed c = 0 \<and> rc_requester c = 0 then st3
        else log_event uuid now ''retention.anonymized'' None None None None (counts_json c) st3))"

end
