(* ===== verification/Casework_Laws.thy ===== *)
theory Casework_Laws
  imports Pii_Retention
begin

text \<open>
  What holds of submissions, runs and reviews whatever requests and retention passes are served, in any order: the
  tables stay consistent, a retried submission is not analysed twice, every action leaves an event, and what the
  retention job reaches and what it does not.
\<close>

section \<open>Requests and passes as steps\<close>

datatype kyb_request =
    Submit int principal http_request submission_request
  | MarkReviewed operator_row string "string option" string
  | Correct operator_row string "(string \<times> string option) list" "string option"
  | AddNotes operator_row string string "string option"
  | Reanalyse operator_row string
  | Retain windows

definition kyb_step :: "(nat \<Rightarrow> string) \<Rightarrow> rat \<times> kyb_request \<Rightarrow> kyb \<Rightarrow> kyb" where
  "kyb_step uuid q st = (case q of
       (now, Submit depth p r b) \<Rightarrow> snd (submit uuid now depth p r b st)
     | (now, MarkReviewed oper rid notes verdict) \<Rightarrow> snd (mark_reviewed uuid now oper rid notes verdict st)
     | (now, Correct oper rid corrections notes) \<Rightarrow> snd (correct_and_rerun uuid now oper rid corrections notes st)
     | (now, AddNotes oper rid notes verdict) \<Rightarrow> snd (add_notes uuid now oper rid notes verdict st)
     | (now, Reanalyse oper rid) \<Rightarrow> snd (trigger_reanalysis uuid now oper rid st)
     | (now, Retain W) \<Rightarrow> snd (run_retention uuid W now st))"

definition no_kyb :: kyb where
  "no_kyb = \<lparr>kb_submissions = [], kb_entities = [], kb_runs = [], kb_reviews = [], kb_rows = [], kb_events = [],
     kb_queue = [], kb_next = 0\<rparr>"

section \<open>Consistent tables\<close>

definition issued :: "(nat \<Rightarrow> string) \<Rightarrow> nat \<Rightarrow> string \<Rightarrow> bool" where
  "issued uuid n i = (\<exists>k < n. i = uuid k)"

lemma issued_mono: "issued uuid n i \<Longrightarrow> n \<le> m \<Longrightarrow> issued uuid m i"
  unfolding issued_def using less_le_trans by blast

lemma issued_new: "n < m \<Longrightarrow> issued uuid m (uuid n)"
  by (auto simp: issued_def)

lemma not_issued: "inj uuid \<Longrightarrow> n \<le> m \<Longrightarrow> \<not> issued uuid n (uuid m)"
  by (auto simp: issued_def inj_eq)

text \<open>Every run belongs to a submission and its entity and supersedes only an earlier run of the same submission.\<close>

fun chained :: "run_row list \<Rightarrow> run_row list \<Rightarrow> bool" where
  "chained earlier [] = True"
| "chained earlier (r # rs) =
    ((case rn_supersedes r of
        None \<Rightarrow> True
      | Some p \<Rightarrow> list_ex (\<lambda>q. run_id q = p \<and> submission_id q = submission_id r \<and> entity_id q = entity_id r) earlier)
     \<and> chained (earlier @ [r]) rs)"

lemma chained_append: "chained earlier (rs @ [r]) \<longleftrightarrow> chained earlier rs
    \<and> (case rn_supersedes r of
        None \<Rightarrow> True
      | Some p \<Rightarrow> list_ex (\<lambda>q. run_id q = p \<and> submission_id q = submission_id r \<and> entity_id q = entity_id r) (earlier @ rs))"
  by (induction rs arbitrary: earlier) (auto split: option.splits)

definition sub_keys :: "kyb \<Rightarrow> (string \<times> string option \<times> string) list" where
  "sub_keys st = map (\<lambda>s. (su_id s, su_key s, su_entity s)) (kb_submissions st)"

definition consistent :: "(nat \<Rightarrow> string) \<Rightarrow> kyb \<Rightarrow> bool" where
  "consistent uuid st =
    (distinct (map fst (sub_keys st)) \<and> distinct (filter truthy (map (fst \<circ> snd) (sub_keys st)))
     \<and> distinct (map run_id (kb_runs st)) \<and> chained [] (kb_runs st)
     \<and> (\<forall>r \<in> set (kb_runs st). \<exists>key. (submission_id r, key, entity_id r) \<in> set (sub_keys st))
     \<and> distinct (map rv_run (kb_reviews st)) \<and> set (map rv_run (kb_reviews st)) \<subseteq> run_id ` set (kb_runs st)
     \<and> list_all (issued uuid (kb_next st)) (map run_id (kb_runs st)) \<and> list_all (issued uuid (kb_next st)) (map fst (sub_keys st)))"

lemma consistent_cong:
  "consistent uuid st \<Longrightarrow> sub_keys st' = sub_keys st \<Longrightarrow> kb_runs st' = kb_runs st \<Longrightarrow> map rv_run (kb_reviews st') = map rv_run (kb_reviews st)
    \<Longrightarrow> kb_next st \<le> kb_next st' \<Longrightarrow> consistent uuid st'"
  by (auto simp: consistent_def list_all_iff intro: issued_mono simp del: set_map)

lemma log_event_tables [simp]:
  "kb_submissions (log_event uuid now t oper client run sub d st) = kb_submissions st"
  "kb_runs (log_event uuid now t oper client run sub d st) = kb_runs st"
  "kb_reviews (log_event uuid now t oper client run sub d st) = kb_reviews st"
  "kb_rows (log_event uuid now t oper client run sub d st) = kb_rows st"
  "kb_next (log_event uuid now t oper client run sub d st) = Suc (kb_next st)"
  "kb_entities (log_event uuid now t oper client run sub d st) = kb_entities st"
  by (simp_all add: log_event_def)

lemma sub_keys_log [simp]: "sub_keys (log_event uuid now t oper client run sub d st) = sub_keys st"
  by (simp add: sub_keys_def)

lemma consistent_log: "consistent uuid st \<Longrightarrow> consistent uuid (log_event uuid now t oper client run sub d st)"
  by (rule consistent_cong [of uuid st]) simp_all

lemma consistent_review:
  assumes "consistent uuid st" and "rv_run v \<in> run_id ` set (kb_runs st)" and "review_by_run (rv_run v) st = None"
  shows "consistent uuid (add_review v st)"
proof -
  have "rv_run v \<notin> set (map rv_run (kb_reviews st))"
    using assms(3) by (auto simp: review_by_run_def find_None_iff)
  then show ?thesis using assms(1,2)
    by (auto simp: consistent_def add_review_def sub_keys_def list_all_iff intro: issued_mono)
qed

lemma run_row_in: "run_row_by i st = Some r \<Longrightarrow> r \<in> set (kb_runs st) \<and> run_id r = i"
  by (auto simp: run_row_by_def find_Some_iff)

lemma consistent_new_run:
  assumes "consistent uuid st" and "inj uuid" and "new_verification_run uuid now sid eid prev st = (r, st')"
    and "\<exists>key. (sid, key, eid) \<in> set (sub_keys st)"
    and "\<And>p. prev = Some p \<Longrightarrow> \<exists>q. run_row_by p st = Some q \<and> submission_id q = sid \<and> entity_id q = eid"
  shows "consistent uuid st'"
proof -
  have st': "st' = st\<lparr>kb_runs := kb_runs st @ [r], kb_next := Suc (kb_next st)\<rparr>"
    and r: "run_id r = uuid (kb_next st)" "submission_id r = sid" "entity_id r = eid" "rn_supersedes r = prev"
    using assms(3) by (auto simp: new_verification_run_def Let_def)
  have new: "run_id r \<notin> set (map run_id (kb_runs st))"
  proof
    assume "run_id r \<in> set (map run_id (kb_runs st))"
    then have "issued uuid (kb_next st) (run_id r)" using assms(1) by (auto simp: consistent_def list_all_iff)
    then show False using not_issued [OF assms(2) le_refl] by (simp add: r(1))
  qed
  have "case prev of None \<Rightarrow> True
    | Some p \<Rightarrow> list_ex (\<lambda>q. run_id q = p \<and> submission_id q = sid \<and> entity_id q = eid) (kb_runs st)"
    using assms(5) run_row_in by (fastforce simp: list_ex_iff split: option.split)
  then have "chained [] (kb_runs st @ [r])" using assms(1) by (cases prev) (simp_all add: chained_append consistent_def r)
  then show ?thesis using assms(1,4) new
    by (auto simp: consistent_def st' sub_keys_def list_all_iff r issued_new intro: issued_mono)
qed

lemma consistent_queue: "consistent uuid st \<Longrightarrow> consistent uuid (enqueue_run i st)"
  by (rule consistent_cong [of uuid st]) (simp_all add: enqueue_run_def sub_keys_def)

lemma consistent_reanalysis:
  assumes "consistent uuid st" and "inj uuid" and "run_row_by rid st = Some prior"
    and "enqueue_reanalysis uuid now (entity_id prior) rid st = Some (new, st')"
  shows "consistent uuid st'"
proof -
  obtain r st1 where new: "new_verification_run uuid now (submission_id prior) (entity_id prior) (Some rid) st = (r, st1)"
    by fastforce
  have "consistent uuid st1"
  proof (rule consistent_new_run [OF assms(1,2) new])
    show "\<exists>key. (submission_id prior, key, entity_id prior) \<in> set (sub_keys st)"
      using assms(1) run_row_in [OF assms(3)] by (auto simp: consistent_def)
  qed (use assms(3) in simp)
  then show ?thesis using assms(3,4) new consistent_queue by (auto simp: enqueue_reanalysis_def)
qed

lemma set_field_keys [simp]:
  "su_id (set_field c s) = su_id s" "su_key (set_field c s) = su_key s" "su_entity (set_field c s) = su_entity s"
  by (simp_all add: set_field_def split: prod.split)

lemma fold_set_field_keys [simp]:
  "su_id (fold set_field cs s) = su_id s" "su_key (fold set_field cs s) = su_key s"
  "su_entity (fold set_field cs s) = su_entity s"
  by (induction cs arbitrary: s) simp_all

lemma update_first_same: "find P xs = Some x \<Longrightarrow> key y = key x \<Longrightarrow> map key (update_first P (\<lambda>_. y) xs) = map key xs"
  by (induction xs) (auto split: if_splits)

lemma upsert_tables [simp]:
  "kb_submissions (upsert_corrections uuid now oper rid cs notes st) = kb_submissions st"
  "kb_runs (upsert_corrections uuid now oper rid cs notes st) = kb_runs st"
  "kb_events (upsert_corrections uuid now oper rid cs notes st) = kb_events st"
  "kb_rows (upsert_corrections uuid now oper rid cs notes st) = kb_rows st"
  "kb_next st \<le> kb_next (upsert_corrections uuid now oper rid cs notes st)"
  by (simp_all add: upsert_corrections_def add_review_def)

lemma run_row_cong: "kb_runs st' = kb_runs st \<Longrightarrow> run_row_by i st' = run_row_by i st"
  by (simp add: run_row_by_def)

lemma consistent_upsert:
  assumes "consistent uuid st" and "run_row_by rid st \<noteq> None"
  shows "consistent uuid (upsert_corrections uuid now oper rid cs notes st)"
proof (cases "review_by_run rid st")
  case None
  then show ?thesis using assms run_row_in [of rid st]
    by (auto simp: upsert_corrections_def intro!: consistent_review)
next
  case (Some v)
  show ?thesis
    by (rule consistent_cong [OF assms(1)])
      (use Some in \<open>simp_all add: upsert_corrections_def sub_keys_def update_first_map correct_review_def\<close>)
qed

definition corrected :: "submission \<Rightarrow> (string \<times> string option) list \<Rightarrow> kyb \<Rightarrow> kyb" where
  "corrected s cs st = st\<lparr>kb_submissions := update_first (\<lambda>x. su_id x = su_id s) (\<lambda>_. fold set_field cs s) (kb_submissions st)\<rparr>"

lemma corrected_tables [simp]:
  "kb_runs (corrected s cs st) = kb_runs st" "kb_reviews (corrected s cs st) = kb_reviews st"
  "kb_next (corrected s cs st) = kb_next st" "kb_events (corrected s cs st) = kb_events st"
  "kb_rows (corrected s cs st) = kb_rows st"
  by (simp_all add: corrected_def)

lemma correct_cases:
  obtains (refused) n where "correct_and_rerun uuid now oper rid cs notes st = (Refused n, st)"
  | (served) prior s new st3 d where "run_row_by rid st = Some prior" and "submission_by (submission_id prior) st = Some s"
      and "set (map fst cs) \<subseteq> set CORRECTABLE_FIELDS" and "columns_filled (fold set_field cs s)"
      and "enqueue_reanalysis uuid now (entity_id prior) rid (upsert_corrections uuid now oper rid cs notes (corrected s cs st))
        = Some (new, st3)"
      and "jget d ''before'' = JDict (before_values s cs) \<and> jget d ''corrections'' = JDict (map (\<lambda>(f, x). (f, text_json x)) cs)"
      and "correct_and_rerun uuid now oper rid cs notes st = (Served new, log_event uuid now ''operator.correct_and_rerun''
        (Some (op_id oper)) None (Some new) (Some (submission_id prior)) d st3)"
proof (cases "cs = [] \<or> \<not> fst ` set cs \<subseteq> set CORRECTABLE_FIELDS")
  case True
  then show ?thesis by (intro refused [of 422]) (simp add: correct_and_rerun_def)
next
  case fields: False
  show ?thesis
  proof (cases "run_row_by rid st")
    case None
    then show ?thesis using fields by (intro refused [of 404]) (simp add: correct_and_rerun_def)
  next
    case prior: (Some prior)
    show ?thesis
    proof (cases "submission_by (submission_id prior) st")
      case None
      then show ?thesis using fields prior by (intro refused [of 404]) (simp add: correct_and_rerun_def)
    next
      case s: (Some s)
      let ?st2 = "upsert_corrections uuid now oper rid cs notes (corrected s cs st)"
      show ?thesis
      proof (cases "columns_filled (fold set_field cs s)")
        case False
        then show ?thesis using fields prior s by (intro refused [of 500]) (simp add: correct_and_rerun_def Let_def)
      next
        case filled: True
        show ?thesis
        proof (cases "enqueue_reanalysis uuid now (entity_id prior) rid ?st2")
          case None
          then show ?thesis using fields prior s filled
            by (intro refused [of 500]) (simp add: correct_and_rerun_def corrected_def)
        next
          case (Some out)
          obtain new st3 where out: "out = (new, st3)" by (cases out)
          show ?thesis
            by (rule served [OF prior s _ filled Some [unfolded out]])
              (use fields prior s filled Some in \<open>auto simp: correct_and_rerun_def Let_def corrected_def out jget_def\<close>)
        qed
      qed
    qed
  qed
qed

lemma consistent_corrected:
  assumes "consistent uuid st" and "submission_by i st = Some s"
  shows "consistent uuid (corrected s cs st)"
proof -
  have "find (\<lambda>x. su_id x = su_id s) (kb_submissions st) = Some s"
    using assms(2) by (auto simp: submission_by_def find_Some_iff)
  then show ?thesis
    by (intro consistent_cong [OF assms(1)]) (simp_all add: sub_keys_def corrected_def update_first_same)
qed

lemma consistent_correct:
  assumes "consistent uuid st" and "inj uuid"
  shows "consistent uuid (snd (correct_and_rerun uuid now oper rid cs notes st))"
proof (cases rule: correct_cases [of uuid now oper rid cs "notes" st])
  case (served prior s new st3 d)
  let ?st2 = "upsert_corrections uuid now oper rid cs notes (corrected s cs st)"
  have "run_row_by rid (corrected s cs st) = Some prior" "run_row_by rid ?st2 = Some prior"
    using served(1) by (simp_all add: run_row_by_def)
  moreover from this have "consistent uuid ?st2"
    using consistent_upsert consistent_corrected [OF assms(1) served(2)] by simp
  ultimately have "consistent uuid st3" using consistent_reanalysis assms(2) served(5) by blast
  then show ?thesis using served(7) consistent_log by simp
qed (use assms in simp)

lemma consistent_notes:
  assumes "consistent uuid st"
  shows "consistent uuid (snd (add_notes uuid now oper rid notes verdict st))"
proof (cases "run_row_by rid st")
  case run: (Some run)
  show ?thesis
  proof (cases "review_by_run rid st")
    case None
    then show ?thesis using run_row_in [OF run]
      by (auto simp: add_notes_def run Let_def intro!: consistent_log consistent_review [OF assms])
  next
    case (Some v)
    have "consistent uuid (st\<lparr>kb_reviews := update_first (\<lambda>v. rv_run v = rid) (note_review now notes verdict) (kb_reviews st)\<rparr>)"
      by (rule consistent_cong [OF assms]) (simp_all add: sub_keys_def update_first_map note_review_def)
    then show ?thesis using Some consistent_log by (simp add: add_notes_def run Let_def)
  qed
qed (simp add: add_notes_def assms)

lemma consistent_reviewed:
  "consistent uuid st \<Longrightarrow> consistent uuid (snd (mark_reviewed uuid now oper rid notes verdict st))"
  using run_row_in [of rid st]
  by (auto simp: mark_reviewed_def Let_def split: option.split intro!: consistent_log consistent_review)

lemma consistent_reanalysed:
  "consistent uuid st \<Longrightarrow> inj uuid \<Longrightarrow> consistent uuid (snd (trigger_reanalysis uuid now oper rid st))"
  by (auto simp: trigger_reanalysis_def split: option.split intro!: consistent_log dest: consistent_reanalysis)

lemma anonymize_keys [simp]:
  "su_id (anonymize_network s) = su_id s" "su_key (anonymize_network s) = su_key s"
  "su_entity (anonymize_network s) = su_entity s"
  "su_id (anonymize_submission_pii s) = su_id s" "su_key (anonymize_submission_pii s) = su_key s"
  "su_entity (anonymize_submission_pii s) = su_entity s"
  by (simp_all add: anonymize_network_def anonymize_submission_pii_def)

definition network_pass :: "windows \<Rightarrow> rat \<Rightarrow> kyb \<Rightarrow> kyb" where
  "network_pass W now st =
     st\<lparr>kb_submissions := map (\<lambda>s. if network_due W now s then anonymize_network s else s) (kb_submissions st)\<rparr>"

definition pii_pass :: "windows \<Rightarrow> rat \<Rightarrow> kyb \<Rightarrow> kyb" where
  "pii_pass W now st =
     st\<lparr>kb_submissions := map (\<lambda>s. if pii_category W now st s = KeepPii then s else anonymize_submission_pii s) (kb_submissions st)\<rparr>"

definition done_runs :: "kyb \<Rightarrow> string list" where
  "done_runs st = map run_id (filter (\<lambda>r. submission_id r \<in> su_id ` {s \<in> set (kb_submissions st). su_email s = Some ANONYMIZED_EMAIL})
     (kb_runs st))"

definition requester_pass :: "kyb \<Rightarrow> kyb" where
  "requester_pass st = st\<lparr>kb_rows := map (\<lambda>e. if names_requesters (done_runs st) e then strip_requesters e else e) (kb_rows st)\<rparr>"

lemmas passes = network_pass_def pii_pass_def requester_pass_def

definition count_due :: "windows \<Rightarrow> rat \<Rightarrow> kyb \<Rightarrow> retention_counts" where
  "count_due W now st = (let st1 = network_pass W now st; st2 = pii_pass W now st1 in
     \<lparr>rc_network = length (filter (network_due W now) (kb_submissions st)),
      rc_reviewed = length (filter (\<lambda>s. pii_category W now st1 s = ReviewedPii) (kb_submissions st1)),
      rc_unreviewed = length (filter (\<lambda>s. pii_category W now st1 s = UnreviewedPii) (kb_submissions st1)),
      rc_requester = length (filter (names_requesters (done_runs st2)) (kb_rows st2))\<rparr>)"

definition nothing_due :: "retention_counts \<Rightarrow> bool" where
  "nothing_due c = (rc_network c = 0 \<and> rc_reviewed c = 0 \<and> rc_unreviewed c = 0 \<and> rc_requester c = 0)"

lemma network_part: "anonymize_network_metadata W now st = (rc_network (count_due W now st), network_pass W now st)"
  by (simp add: anonymize_network_metadata_def network_pass_def count_due_def Let_def)

lemma requester_part: "anonymize_requester_association (map su_id (filter (\<lambda>s. su_email s = Some ANONYMIZED_EMAIL) (kb_submissions st))) st
    = (length (filter (names_requesters (done_runs st)) (kb_rows st)), requester_pass st)"
proof -
  have "set (map su_id (filter (\<lambda>s. su_email s = Some ANONYMIZED_EMAIL) (kb_submissions st)))
      = su_id ` {s \<in> set (kb_submissions st). su_email s = Some ANONYMIZED_EMAIL}" by simp
  then show ?thesis by (simp only: anonymize_requester_association_def requester_pass_def done_runs_def Let_def)
qed

lemma retention_passes:
  "run_retention uuid W now st = (count_due W now st,
    let st' = requester_pass (pii_pass W now (network_pass W now st)) in
    if nothing_due (count_due W now st) then st'
    else log_event uuid now ''retention.anonymized'' None None None None (counts_json (count_due W now st)) st')"
proof -
  let ?st1 = "network_pass W now st"
  have "run_retention uuid W now st = (let st2 = pii_pass W now ?st1; (people, st3) = anonymize_requester_association
        (map su_id (filter (\<lambda>s. su_email s = Some ANONYMIZED_EMAIL) (kb_submissions st2))) st2;
      c = \<lparr>rc_network = rc_network (count_due W now st),
        rc_reviewed = length (filter (\<lambda>s. pii_category W now ?st1 s = ReviewedPii) (kb_submissions ?st1)),
        rc_unreviewed = length (filter (\<lambda>s. pii_category W now ?st1 s = UnreviewedPii) (kb_submissions ?st1)), rc_requester = people\<rparr>
    in (c, if nothing_due c then st3 else log_event uuid now ''retention.anonymized'' None None None None (counts_json c) st3))"
    by (simp only: run_retention_def network_part pii_pass_def nothing_due_def Let_def prod.case)
  then show ?thesis
    by (simp only: requester_part Let_def prod.case) (simp only: count_due_def Let_def retention_counts.simps)
qed

lemma passes_keep [simp]:
  "kb_runs (network_pass W now st) = kb_runs st" "kb_reviews (network_pass W now st) = kb_reviews st"
  "kb_rows (network_pass W now st) = kb_rows st" "kb_events (network_pass W now st) = kb_events st"
  "kb_next (network_pass W now st) = kb_next st"
  "kb_runs (pii_pass W now st) = kb_runs st" "kb_reviews (pii_pass W now st) = kb_reviews st"
  "kb_rows (pii_pass W now st) = kb_rows st" "kb_events (pii_pass W now st) = kb_events st" "kb_next (pii_pass W now st) = kb_next st"
  "kb_runs (requester_pass st) = kb_runs st" "kb_reviews (requester_pass st) = kb_reviews st"
  "kb_submissions (requester_pass st) = kb_submissions st" "kb_events (requester_pass st) = kb_events st"
  "kb_next (requester_pass st) = kb_next st"
  by (simp_all add: passes)

lemma passes_keys [simp]: "sub_keys (network_pass W now st) = sub_keys st" "sub_keys (pii_pass W now st) = sub_keys st"
    "sub_keys (requester_pass st) = sub_keys st"
  by (auto simp: sub_keys_def passes)

lemma retention_tables [simp]:
  "kb_runs (snd (run_retention uuid W now st)) = kb_runs st"
  "kb_reviews (snd (run_retention uuid W now st)) = kb_reviews st"
  "sub_keys (snd (run_retention uuid W now st)) = sub_keys st"
  "kb_next st \<le> kb_next (snd (run_retention uuid W now st))"
  by (simp_all add: retention_passes Let_def)

lemma consistent_retention: "consistent uuid st \<Longrightarrow> consistent uuid (snd (run_retention uuid W now st))"
  by (erule consistent_cong) simp_all

text \<open>What a submission that is accepted adds.\<close>

definition accepted :: "(nat \<Rightarrow> string) \<Rightarrow> rat \<Rightarrow> principal \<Rightarrow> http_request \<Rightarrow> string option \<Rightarrow> submission_request \<Rightarrow> kyb \<Rightarrow> kyb" where
  "accepted uuid now p r ip b st = st
     \<lparr>kb_entities := kb_entities st @ [\<lparr>en_id = uuid (kb_next st), en_name = rq_company b, en_domain = rq_domain b\<rparr>],
      kb_submissions := kb_submissions st @ [submission_of uuid now p r ip b st], kb_next := kb_next st + 2\<rparr>"

lemma accepted_tables [simp]:
  "sub_keys (accepted uuid now p r ip b st) = sub_keys st @ [(uuid (Suc (kb_next st)), rq_key b, uuid (kb_next st))]"
  "kb_runs (accepted uuid now p r ip b st) = kb_runs st" "kb_reviews (accepted uuid now p r ip b st) = kb_reviews st"
  "kb_events (accepted uuid now p r ip b st) = kb_events st" "kb_next (accepted uuid now p r ip b st) = kb_next st + 2"
  by (simp_all add: accepted_def sub_keys_def submission_of_def)

lemma submit_cases:
  obtains (duplicate) s ans where "known_submission (rq_key b) st = Some s" and "submit uuid now depth p r b st = (Served ans, st)"
      and "sr_submission ans = su_id s"
      and "\<And>run. newest_run (filter (\<lambda>x. submission_id x = su_id s) (kb_runs st)) = Some run \<Longrightarrow> sr_run ans = run_id run"
  | (refused) "known_submission (rq_key b) st = None" and "submit uuid now depth p r b st = (Refused 500, st)"
  | (fresh) ip run st2 d where "known_submission (rq_key b) st = None" and "get_trusted_client_ip depth r = Some ip"
      and "new_verification_run uuid now (uuid (Suc (kb_next st))) (uuid (kb_next st)) None (accepted uuid now p r ip b st) = (run, st2)"
      and "submit uuid now depth p r b st =
        (Served \<lparr>sr_submission = uuid (Suc (kb_next st)), sr_run = run_id run, sr_status = ''pending'',
           sr_free = is_free_email_domain (rq_email b)\<rparr>,
         enqueue_run (run_id run) (log_event uuid now (kind_name p @ ''.submission_received'') (pr_operator p) (pr_client p)
           (Some (run_id run)) (Some (uuid (Suc (kb_next st)))) d st2))"
proof (cases "known_submission (rq_key b) st")
  case (Some s)
  show ?thesis
  proof (cases "newest_run (filter (\<lambda>x. submission_id x = su_id s) (kb_runs st))")
    case None
    with Some show ?thesis by (intro duplicate) (auto simp: submit_def)
  next
    case (Some run)
    with \<open>known_submission (rq_key b) st = Some s\<close> show ?thesis by (intro duplicate) (auto simp: submit_def)
  qed
next
  case None
  show ?thesis
  proof (cases "get_trusted_client_ip depth r")
    case (Some ip)
    show ?thesis
    proof (cases "rq_key b \<noteq> None \<and> list_ex (\<lambda>s. su_key s = rq_key b) (kb_submissions st)")
      case True
      then show ?thesis using None Some by (intro refused) (simp_all add: submit_def)
    next
      case False
      obtain run st2 where
        new: "new_verification_run uuid now (uuid (Suc (kb_next st))) (uuid (kb_next st)) None (accepted uuid now p r ip b st) = (run, st2)"
        by fastforce
      show ?thesis
        by (rule fresh [OF None Some new])
          (use None Some False new in \<open>simp add: submit_def Let_def accepted_def submission_of_def\<close>)
    qed
  qed (use None refused in \<open>simp add: submit_def\<close>)
qed

lemma known_submission_in:
  "known_submission key st = Some s \<Longrightarrow> truthy key \<and> s \<in> set (kb_submissions st) \<and> su_key s = key"
  by (auto simp: known_submission_def find_Some_iff split: if_splits)

lemma consistent_accepted:
  assumes "consistent uuid st" and "inj uuid" and "known_submission (rq_key b) st = None"
  shows "consistent uuid (accepted uuid now p r ip b st)"
proof -
  have "uuid (Suc (kb_next st)) \<notin> set (map fst (sub_keys st))"
  proof
    assume "uuid (Suc (kb_next st)) \<in> set (map fst (sub_keys st))"
    then have "issued uuid (kb_next st) (uuid (Suc (kb_next st)))"
      using assms(1) unfolding consistent_def list_all_iff by blast
    then show False using not_issued [OF assms(2), of "kb_next st" "Suc (kb_next st)"] by simp
  qed
  moreover have "rq_key b \<notin> set (map (fst \<circ> snd) (sub_keys st))" if "truthy (rq_key b)"
    using assms(3) that by (auto simp: known_submission_def find_None_iff sub_keys_def)
  ultimately show ?thesis using assms(1)
    by (fastforce simp: consistent_def list_all_iff issued_new intro: issued_mono)
qed

lemma consistent_submit:
  assumes "consistent uuid st" and "inj uuid"
  shows "consistent uuid (snd (submit uuid now depth p r b st))"
proof (cases rule: submit_cases [of b st uuid now depth p r])
  case (fresh ip run st2 d)
  have "consistent uuid st2"
    by (rule consistent_new_run [OF consistent_accepted [OF assms fresh(1)] assms(2) fresh(3)])
      auto
  then show ?thesis using fresh(4) consistent_log consistent_queue by simp
qed (use assms in simp_all)

lemma kyb_step_consistent: "inj uuid \<Longrightarrow> consistent uuid st \<Longrightarrow> consistent uuid (kyb_step uuid q st)"
  by (auto simp: kyb_step_def consistent_submit consistent_reviewed consistent_correct consistent_notes
      consistent_reanalysed consistent_retention split: prod.split kyb_request.split)

lemma kyb_steps_consistent: "inj uuid \<Longrightarrow> consistent uuid st \<Longrightarrow> consistent uuid (fold (kyb_step uuid) qs st)"
  by (induction qs arbitrary: st) (simp_all add: kyb_step_consistent)

section \<open>Integrity\<close>

text \<open>C27. The tables stay consistent whatever is served: a run belongs to a stored submission and its entity and supersedes
  only an earlier run of the same submission, a run has at most one review and every review a run, and no idempotency
  key is stored twice.\<close>

theorem tables_stay_consistent:
  assumes "inj uuid"
  shows "let st = fold (kyb_step uuid) qs no_kyb in
    distinct (map run_id (kb_runs st)) \<and> chained [] (kb_runs st)
    \<and> (\<forall>r \<in> set (kb_runs st). \<exists>s \<in> set (kb_submissions st). su_id s = submission_id r \<and> su_entity s = entity_id r)
    \<and> distinct (map rv_run (kb_reviews st)) \<and> set (map rv_run (kb_reviews st)) \<subseteq> set (map run_id (kb_runs st))
    \<and> distinct (filter truthy (map su_key (kb_submissions st)))"
proof -
  have "consistent uuid no_kyb" by (simp add: consistent_def no_kyb_def sub_keys_def)
  then have ok: "consistent uuid (fold (kyb_step uuid) qs no_kyb)" by (rule kyb_steps_consistent [OF assms])
  then have "\<exists>s \<in> set (kb_submissions (fold (kyb_step uuid) qs no_kyb)). su_id s = submission_id r \<and> su_entity s = entity_id r"
    if "r \<in> set (kb_runs (fold (kyb_step uuid) qs no_kyb))" for r
    using that by (fastforce simp: consistent_def sub_keys_def)
  with ok show ?thesis by (simp add: Let_def consistent_def sub_keys_def comp_def)
qed

section \<open>Events\<close>

lemma upsert_events [simp]: "kb_queue (upsert_corrections uuid now oper rid cs notes st) = kb_queue st"
  by (simp add: upsert_corrections_def add_review_def)

lemma reanalysis_tables:
  "enqueue_reanalysis uuid now e rid st = Some (new, st') \<Longrightarrow>
   \<exists>r. kb_runs st' = kb_runs st @ [r] \<and> kb_submissions st' = kb_submissions st \<and> kb_events st' = kb_events st \<and> kb_rows st' = kb_rows st"
  by (auto simp: enqueue_reanalysis_def new_verification_run_def enqueue_run_def Let_def split: option.splits)

fun actor :: "kyb_request \<Rightarrow> string option \<times> string option" where
  "actor (Submit _ p _ _) = (pr_operator p, pr_client p)"
| "actor (MarkReviewed oper _ _ _) = (Some (op_id oper), None)"
| "actor (Correct oper _ _ _) = (Some (op_id oper), None)"
| "actor (AddNotes oper _ _ _) = (Some (op_id oper), None)"
| "actor (Reanalyse oper _) = (Some (op_id oper), None)"
| "actor (Retain _) = (None, None)"

definition logged :: "rat \<Rightarrow> string option \<times> string option \<Rightarrow> kyb \<Rightarrow> kyb \<Rightarrow> bool" where
  "logged now who st st' = (\<exists>e. kb_events st' = kb_events st @ [e] \<and> ae_at e = now \<and> (ae_operator e, ae_client e) = who)"

lemma logged_event: "kb_events st1 = kb_events st \<Longrightarrow> logged now (oper, client) st (log_event uuid now t oper client run sub d st1)"
  by (simp add: logged_def log_event_def)

lemma pii_idle: "(\<And>s. s \<in> set (kb_submissions st) \<Longrightarrow> pii_category W now st s = KeepPii) \<Longrightarrow> pii_pass W now st = st"
  by (simp add: pii_pass_def cong: map_cong)

lemma requester_idle: "filter (names_requesters (done_runs st)) (kb_rows st) = [] \<Longrightarrow> requester_pass st = st"
  by (simp add: requester_pass_def filter_empty_conv cong: map_cong)

lemma network_idle: "filter (network_due W now) (kb_submissions st) = [] \<Longrightarrow> network_pass W now st = st"
  by (simp add: network_pass_def filter_empty_conv cong: map_cong)

lemma retention_idle:
  assumes "nothing_due (count_due W now st)"
  shows "network_pass W now st = st" and "pii_pass W now st = st" and "requester_pass st = st"
proof -
  show 1: "network_pass W now st = st"
    using assms by (intro network_idle) (simp add: nothing_due_def count_due_def Let_def)
  have "pii_category W now st s = KeepPii" if "s \<in> set (kb_submissions st)" for s
    using assms that by (cases "pii_category W now st s")
      (auto simp: nothing_due_def count_due_def Let_def filter_empty_conv 1)
  then show 2: "pii_pass W now st = st" by (rule pii_idle)
  show "requester_pass st = st"
    using assms by (intro requester_idle) (simp add: nothing_due_def count_due_def Let_def 1 2)
qed

lemma retention_logged: "snd (run_retention uuid W now st) = st \<or> logged now (None, None) st (snd (run_retention uuid W now st))"
proof (cases "nothing_due (count_due W now st)")
  case True
  then show ?thesis by (simp add: retention_passes Let_def retention_idle)
next
  case False
  then show ?thesis by (auto simp: retention_passes Let_def passes intro!: logged_event)
qed

lemma step_logged: "kyb_step uuid (now, q) st = st \<or> logged now (actor q) st (kyb_step uuid (now, q) st)"
proof (cases q)
  case (Submit depth p r b)
  show ?thesis
    by (cases rule: submit_cases [of b st uuid now depth p r])
      (auto simp: kyb_step_def Submit enqueue_run_def logged_def log_event_def new_verification_run_def Let_def)
next
  case (MarkReviewed oper rid words verdict)
  then show ?thesis
    by (auto simp: kyb_step_def mark_reviewed_def Let_def add_review_def intro!: logged_event split: option.split)
next
  case (Correct oper rid cs words)
  show ?thesis
    by (cases rule: correct_cases [of uuid now oper rid cs words st])
      (auto simp: kyb_step_def Correct dest!: reanalysis_tables intro!: logged_event)
next
  case (AddNotes oper rid words verdict)
  then show ?thesis
    by (auto simp: kyb_step_def add_notes_def Let_def add_review_def intro!: logged_event split: option.split)
next
  case (Reanalyse oper rid)
  then show ?thesis
    by (auto simp: kyb_step_def trigger_reanalysis_def dest!: reanalysis_tables intro!: logged_event split: option.split)
next
  case (Retain W)
  then show ?thesis using retention_logged by (simp add: kyb_step_def)
qed


section \<open>Retried submissions\<close>

definition extends :: "kyb \<Rightarrow> kyb \<Rightarrow> bool" where
  "extends st st' = (set (sub_keys st) \<subseteq> set (sub_keys st') \<and> set (kb_runs st) \<subseteq> set (kb_runs st'))"

lemma extends_refl: "extends st st"
  by (simp add: extends_def)

lemma extends_trans: "extends a b \<Longrightarrow> extends b c \<Longrightarrow> extends a c"
  by (auto simp: extends_def)

lemma extends_same: "sub_keys st' = sub_keys st \<Longrightarrow> kb_runs st' = kb_runs st \<Longrightarrow> extends st st'"
  by (simp add: extends_def)

text \<open>Every submission has been handed to the workers: it has a run.\<close>

definition analysed :: "kyb \<Rightarrow> bool" where
  "analysed st = (\<forall>k \<in> set (sub_keys st). \<exists>r \<in> set (kb_runs st). submission_id r = fst k)"

lemma analysed_extends: "analysed st \<Longrightarrow> extends st st' \<Longrightarrow> sub_keys st' = sub_keys st \<Longrightarrow> analysed st'"
  by (fastforce simp: analysed_def extends_def)

lemma extends_reanalysis:
  "enqueue_reanalysis uuid now e rid st = Some (new, st') \<Longrightarrow> sub_keys st' = sub_keys st \<and> set (kb_runs st) \<subseteq> set (kb_runs st')"
  by (auto simp: sub_keys_def dest!: reanalysis_tables)

lemma sub_keys_corrected [simp]:
  assumes "submission_by i st = Some s"
  shows "sub_keys (corrected s cs st) = sub_keys st"
proof -
  have "find (\<lambda>x. su_id x = su_id s) (kb_submissions st) = Some s"
    using assms by (auto simp: submission_by_def find_Some_iff)
  then show ?thesis by (simp add: sub_keys_def corrected_def update_first_same)
qed

lemma sub_keys_upsert [simp]: "sub_keys (upsert_corrections uuid now oper rid cs notes st) = sub_keys st"
  by (simp add: sub_keys_def)

lemma submit_effect:
  "extends st (snd (submit uuid now depth p r b st)) \<and> (analysed st \<longrightarrow> analysed (snd (submit uuid now depth p r b st)))"
  by (cases rule: submit_cases [of b st uuid now depth p r])
    (auto simp: extends_def analysed_def sub_keys_def enqueue_run_def new_verification_run_def Let_def accepted_def submission_of_def)

lemma other_step_effect:
  assumes "\<And>depth p r b. q \<noteq> Submit depth p r b"
  shows "sub_keys (kyb_step uuid (now, q) st) = sub_keys st \<and> set (kb_runs st) \<subseteq> set (kb_runs (kyb_step uuid (now, q) st))"
proof (cases q)
  case (MarkReviewed oper rid words verdict)
  then show ?thesis by (auto simp: kyb_step_def mark_reviewed_def Let_def add_review_def sub_keys_def split: option.split)
next
  case (Correct oper rid cs words)
  show ?thesis
    by (cases rule: correct_cases [of uuid now oper rid cs words st])
      (auto simp: kyb_step_def Correct dest!: extends_reanalysis)
next
  case (AddNotes oper rid words verdict)
  then show ?thesis by (auto simp: kyb_step_def add_notes_def Let_def add_review_def sub_keys_def split: option.split)
next
  case (Reanalyse oper rid)
  then show ?thesis
    by (auto simp: kyb_step_def trigger_reanalysis_def dest!: extends_reanalysis split: option.split)
qed (use assms in \<open>auto simp: kyb_step_def\<close>)

lemma kyb_step_effect: "extends st (kyb_step uuid q st) \<and> (analysed st \<longrightarrow> analysed (kyb_step uuid q st))"
proof -
  obtain now req where q: "q = (now, req)" by (cases q)
  show ?thesis
  proof (cases "\<exists>depth p r b. req = Submit depth p r b")
    case True
    then show ?thesis using submit_effect by (auto simp: q kyb_step_def)
  next
    case False
    then show ?thesis using other_step_effect [of req uuid now st] analysed_extends [of st] by (auto simp: q extends_def)
  qed
qed

lemma kyb_steps_effect:
  "extends st (fold (kyb_step uuid) qs st) \<and> (analysed st \<longrightarrow> analysed (fold (kyb_step uuid) qs st))"
proof (induction qs arbitrary: st)
  case (Cons q qs)
  then show ?case using kyb_step_effect [of st uuid q] extends_trans by fastforce
qed (simp add: extends_refl)

lemma key_once:
  assumes "distinct (filter truthy (map (fst \<circ> snd) ks))" and "(i, key, e) \<in> set ks" and "(j, key, f) \<in> set ks" and "truthy key"
  shows "i = j"
  using assms by (induction ks) (force split: if_splits)+

text \<open>C29. A retried submission is not analysed twice: once a request with an idempotency key is accepted, a later request
  with the same key changes nothing and answers the same submission and a run of it, whatever was served in between.\<close>

theorem retry_answers_same_submission:
  assumes "inj uuid" and "st = fold (kyb_step uuid) qs no_kyb"
    and "submit uuid now depth p r b st = (Served ans, st1)" and "rq_key b = Some key" and "key \<noteq> []"
    and "st2 = fold (kyb_step uuid) qs' st1" and "rq_key b' = Some key"
  shows "\<exists>ans'. submit uuid now' depth' p' r' b' st2 = (Served ans', st2) \<and> sr_submission ans' = sr_submission ans
    \<and> (\<exists>run \<in> set (kb_runs st2). run_id run = sr_run ans' \<and> submission_id run = sr_submission ans)"
proof -
  have "consistent uuid no_kyb" "analysed no_kyb" by (simp_all add: consistent_def analysed_def no_kyb_def sub_keys_def)
  then have "consistent uuid st" "analysed st" using assms(1,2) kyb_steps_consistent kyb_steps_effect by auto
  then have "consistent uuid st1" "analysed st1"
    using assms(1,3) consistent_submit [of uuid st now depth p r b] submit_effect [of st uuid now depth p r b] by simp_all
  then have st2: "consistent uuid st2" "analysed st2" "extends st1 st2"
    using assms(1,6) kyb_steps_consistent kyb_steps_effect by auto
  have "\<exists>e. (sr_submission ans, Some key, e) \<in> set (sub_keys st1)"
  proof (cases rule: submit_cases [of b st uuid now depth p r])
    case (duplicate s ans0)
    then show ?thesis using known_submission_in [OF duplicate(1)] assms(3,4)
      by (intro exI [of _ "su_entity s"]) (auto simp: sub_keys_def image_iff intro!: bexI [of _ s])
  qed (use assms(3,4) in \<open>auto simp: enqueue_run_def new_verification_run_def Let_def sub_keys_def accepted_def submission_of_def\<close>)
  then obtain e where e: "(sr_submission ans, Some key, e) \<in> set (sub_keys st2)" using st2(3) by (auto simp: extends_def)
  show ?thesis
  proof (cases rule: submit_cases [of b' st2 uuid now' depth' p' r'])
    case (duplicate s ans')
    have "(su_id s, Some key, su_entity s) \<in> set (sub_keys st2)"
      using known_submission_in [OF duplicate(1)] assms(7) by (auto simp: sub_keys_def image_iff intro!: bexI [of _ s])
    then have i: "su_id s = sr_submission ans"
      using key_once [OF _ _ e] st2(1) assms(5) by (auto simp: consistent_def)
    obtain run0 where "run0 \<in> set (kb_runs st2)" "submission_id run0 = su_id s"
      using e st2(2) i by (fastforce simp: analysed_def)
    then have "filter (\<lambda>x. submission_id x = su_id s) (kb_runs st2) \<noteq> []" by (auto simp: filter_empty_conv)
    then have "sort_key (\<lambda>x. - rn_created x) (filter (\<lambda>x. submission_id x = su_id s) (kb_runs st2)) \<noteq> []"
      by (metis length_0_conv length_sort)
    then obtain run rest where sorted: "sort_key (\<lambda>x. - rn_created x) (filter (\<lambda>x. submission_id x = su_id s) (kb_runs st2)) = run # rest"
      by (meson neq_Nil_conv)
    then have "run \<in> set (sort_key (\<lambda>x. - rn_created x) (filter (\<lambda>x. submission_id x = su_id s) (kb_runs st2)))" by simp
    then have "run \<in> set (kb_runs st2)" "submission_id run = su_id s" by simp_all
    moreover have "sr_run ans' = run_id run" using duplicate(4) sorted by (simp add: newest_run_def)
    ultimately show ?thesis using duplicate(2,3) i by auto
  qed (use e assms(5,7) in \<open>auto simp: known_submission_def find_None_iff sub_keys_def\<close>)
qed

section \<open>Forged addresses\<close>

lemma split_on_concat: "split_on sep (xs @ sep # ys) = split_on sep xs @ split_on sep ys"
proof (induction xs)
  case (Cons x xs)
  then show ?case by (cases "split_on sep xs") simp_all
qed simp

definition address_parts :: "string \<Rightarrow> string list" where
  "address_parts v = filter (\<lambda>p. p \<noteq> []) (map str_strip (split_on CHR '','' v))"

lemma address_parts_forged: "address_parts (forged @ CHR '','' # trusted) = address_parts forged @ address_parts trusted"
  by (simp add: address_parts_def split_on_concat)

text \<open>A client cannot choose its address: without trusted proxies the headers are not looked at, and with \<open>depth\<close>
  proxies that each append an address, whatever the client puts before them in \<open>X-Forwarded-For\<close> the recorded address is
  the one the outermost trusted proxy appended.\<close>

theorem client_address_not_forged:
  "get_trusted_client_ip 0 r = Some (hr_peer r)
   \<and> (0 < depth \<and> depth \<le> length (address_parts trusted)
       \<and> map_of (hr_headers r) ''x-forwarded-for'' \<in> {Some trusted, Some (forged @ CHR '','' # trusted)}
      \<longrightarrow> get_trusted_client_ip (int depth) r = Some (Some (address_parts trusted ! (length (address_parts trusted) - depth))))"
proof -
  have "get_trusted_client_ip (int depth) r = Some (Some (address_parts trusted ! (length (address_parts trusted) - depth)))"
    if depth: "0 < depth" "depth \<le> length (address_parts trusted)"
      and header: "map_of (hr_headers r) ''x-forwarded-for'' \<in> {Some trusted, Some (forged @ CHR '','' # trusted)}"
  proof -
    obtain more where "forwarded_parts r = more @ address_parts trusted"
      using header address_parts_forged [of forged trusted] by (auto simp: forwarded_parts_def address_parts_def)
    then show ?thesis using depth by (simp add: get_trusted_client_ip_def Let_def nth_append_length_plus flip: Nat.add_diff_assoc)
  qed
  then show ?thesis by (simp add: get_trusted_client_ip_def)
qed

section \<open>Samples\<close>

definition sample_request :: submission_request where
  "sample_request = \<lparr>rq_company = ''Acme'', rq_email = ''jo@acme.io'', rq_domain = ''acme.io'', rq_country = ''US'', rq_tax = None,
     rq_registration = None, rq_address = None, rq_phone = Some ''555'', rq_requester = None, rq_linkedin = None, rq_extra = None,
     rq_people = None, rq_key = Some ''k1''\<rparr>"

definition sample_http :: http_request where
  "sample_http = \<lparr>hr_peer = Some ''192.0.2.77'', hr_headers = [(''x-forwarded-for'', ''9.9.9.9, 192.0.2.1'')], hr_path = ''/submissions''\<rparr>"

definition sample_caller :: principal where
  "sample_caller = \<lparr>pr_kind = SystemKind, pr_id = ''c'', pr_name = ''crm'', pr_operator = None, pr_client = Some ''c''\<rparr>"

definition marks :: "nat \<Rightarrow> string" where
  "marks n = replicate n (CHR ''u'')"

lemma marks_inj: "inj marks"
  by (auto simp: inj_on_def marks_def dest: arg_cong [of _ _ length])

lemma tables_stay_consistent_witness:
  "distinct (map run_id (kb_runs (fold (kyb_step marks) [(0, Submit 0 sample_caller sample_http sample_request)] no_kyb)))"
  using tables_stay_consistent [OF marks_inj, of "[(0, Submit 0 sample_caller sample_http sample_request)]"]
  by (simp add: Let_def)

lemma retry_answers_same_submission_witness:
  "\<exists>ans'. submit marks 9 0 sample_caller sample_http sample_request (snd (submit marks 0 0 sample_caller sample_http sample_request no_kyb))
     = (Served ans', snd (submit marks 0 0 sample_caller sample_http sample_request no_kyb)) \<and> sr_submission ans' = ''u''"
proof -
  let ?out = "submit marks 0 0 sample_caller sample_http sample_request no_kyb"
  have "?out = (Served \<lparr>sr_submission = ''u'', sr_run = ''uu'', sr_status = ''pending'', sr_free = False\<rparr>, snd ?out)"
    unfolding prod_eq_iff by code_simp
  moreover have key: "rq_key sample_request = Some ''k1''" by (simp add: sample_request_def)
  ultimately show ?thesis
    using retry_answers_same_submission [OF marks_inj, of no_kyb "[]" 0 0 sample_caller sample_http sample_request _ "snd ?out" "''k1''"
        "snd ?out" "[]" sample_request 9 0 sample_caller sample_http] by fastforce
qed

lemma client_address_not_forged_witness:
  "get_trusted_client_ip 1 sample_http = Some (Some ''192.0.2.1'')"
proof -
  have "address_parts '' 192.0.2.1'' = [''192.0.2.1'']" by code_simp
  moreover have "''9.9.9.9, 192.0.2.1'' = ''9.9.9.9'' @ CHR '','' # '' 192.0.2.1''" by simp
  ultimately show ?thesis using client_address_not_forged [of sample_http 1 "'' 192.0.2.1''" "''9.9.9.9''"]
    by (simp add: sample_http_def)
qed

end
