(* ===== verification/Pii_Laws.thy ===== *)
theory Pii_Laws
  imports Casework_Laws
begin

text \<open>
  What the retention job reaches: everything due when it runs, and nothing twice; and what it does not: data an
  operator corrects on a submission it has already anonymized, and the values recorded in the log.
\<close>

section \<open>A pass leaves nothing due\<close>

lemma show_network_slash: "CHR ''/'' \<in> set (show_network a)"
  by (auto simp: show_network_def split: ip.split)

lemma truncated_slash: "truncate_ip ip = Some t \<Longrightarrow> CHR ''/'' \<in> set t"
  using show_network_slash by (auto simp: truncate_ip_def)

lemma network_done: "\<not> network_due W now (anonymize_network s)"
  using truncated_slash
  by (auto simp: network_due_def network_already_anonymized_def anonymize_network_def split: option.split)

lemma network_due_pii [simp]: "network_due W now (anonymize_submission_pii s) = network_due W now s"
  by (simp add: network_due_def network_already_anonymized_def anonymize_submission_pii_def)

lemma network_pass_done: "s \<in> set (kb_submissions (network_pass W now st)) \<Longrightarrow> \<not> network_due W now s"
  by (auto simp: network_pass_def network_done)

lemma decision_cong: "kb_runs st' = kb_runs st \<Longrightarrow> kb_reviews st' = kb_reviews st \<Longrightarrow>
    latest_review_decision st' i = latest_review_decision st i"
  by (simp add: latest_review_decision_def)

lemma category_cong: "kb_runs st' = kb_runs st \<Longrightarrow> kb_reviews st' = kb_reviews st \<Longrightarrow>
    pii_category W now st' s = pii_category W now st s"
  by (simp add: pii_category_def decision_cong [of st' st] cong: option.case_cong)

lemma category_done [simp]: "pii_category W now st (anonymize_submission_pii s) = KeepPii"
  by (simp add: pii_category_def anonymize_submission_pii_def)

lemma pii_pass_done: "s \<in> set (kb_submissions (pii_pass W now st)) \<Longrightarrow> pii_category W now st s = KeepPii"
  by (auto simp: pii_pass_def)

lemma stripped: "\<not> names_requesters runs (strip_requesters e)"
  by (simp add: names_requesters_def strip_requesters_def payload_def delete_conv')

lemma strip_keeps [simp]: "ev_run (strip_requesters e) = ev_run e" "ev_field (strip_requesters e) = ev_field e"
  by (simp_all add: strip_requesters_def)

lemma requester_pass_done: "e \<in> set (kb_rows (requester_pass st)) \<Longrightarrow> \<not> names_requesters (done_runs st) e"
  by (auto simp: requester_pass_def stripped)

text \<open>The tables after a pass, without the event it logs.\<close>

definition after_pass :: "windows \<Rightarrow> rat \<Rightarrow> kyb \<Rightarrow> kyb" where
  "after_pass W now st = requester_pass (pii_pass W now (network_pass W now st))"

lemma retention_result:
  "kb_submissions (snd (run_retention uuid W now st)) = kb_submissions (after_pass W now st)"
  "kb_rows (snd (run_retention uuid W now st)) = kb_rows (after_pass W now st)"
  by (simp_all add: retention_passes after_pass_def Let_def)

lemma done_runs_cong: "kb_runs st' = kb_runs st \<Longrightarrow> kb_submissions st' = kb_submissions st \<Longrightarrow> done_runs st' = done_runs st"
  by (simp add: done_runs_def)

lemma pass_settles:
  fixes W now st
  defines "st' \<equiv> after_pass W now st"
  shows "\<And>s. s \<in> set (kb_submissions st') \<Longrightarrow> \<not> network_due W now s \<and> pii_category W now st' s = KeepPii"
    and "\<And>e. e \<in> set (kb_rows st') \<Longrightarrow> \<not> names_requesters (done_runs st') e"
proof -
  let ?st1 = "network_pass W now st" and ?st2 = "pii_pass W now (network_pass W now st)"
  show "\<not> network_due W now s \<and> pii_category W now st' s = KeepPii" if "s \<in> set (kb_submissions st')" for s
  proof
    have s: "s \<in> set (kb_submissions ?st2)" using that by (simp add: st'_def after_pass_def)
    then obtain s1 where "s1 \<in> set (kb_submissions ?st1)" and "s = s1 \<or> s = anonymize_submission_pii s1"
      by (auto simp: pii_pass_def)
    then show "\<not> network_due W now s" using network_pass_done by auto
    have "pii_category W now ?st1 s = KeepPii" using pii_pass_done [OF s] .
    moreover have "pii_category W now st' s = pii_category W now ?st1 s"
      by (rule category_cong) (simp_all add: st'_def after_pass_def)
    ultimately show "pii_category W now st' s = KeepPii" by simp
  qed
  show "\<not> names_requesters (done_runs st') e" if "e \<in> set (kb_rows st')" for e
  proof -
    have "done_runs st' = done_runs ?st2" by (rule done_runs_cong) (simp_all add: st'_def after_pass_def)
    then show ?thesis using that requester_pass_done [of e ?st2] by (simp add: st'_def after_pass_def)
  qed
qed

lemma settled_pass:
  assumes "\<And>s. s \<in> set (kb_submissions st) \<Longrightarrow> \<not> network_due W now s \<and> pii_category W now st s = KeepPii"
    and "\<And>e. e \<in> set (kb_rows st) \<Longrightarrow> \<not> names_requesters (done_runs st) e"
  shows "nothing_due (count_due W now st) \<and> run_retention uuid W now st = (count_due W now st, st)"
proof -
  have 1: "network_pass W now st = st" using assms(1) by (intro network_idle) (simp add: filter_empty_conv)
  have 2: "pii_pass W now st = st" using assms(1) by (intro pii_idle) simp
  have 3: "requester_pass st = st" using assms(2) by (intro requester_idle) (simp add: filter_empty_conv)
  have "nothing_due (count_due W now st)"
    using assms by (auto simp: nothing_due_def count_due_def Let_def 1 2 filter_empty_conv)
  then show ?thesis by (simp add: retention_passes 1 2 3 Let_def)
qed

lemma counts_unique: "nothing_due c \<Longrightarrow> c = \<lparr>rc_network = 0, rc_reviewed = 0, rc_unreviewed = 0, rc_requester = 0\<rparr>"
  by (simp add: nothing_due_def)

lemma category_placeholder:
  assumes "pii_category W now st s = KeepPii" and "su_email s \<noteq> None"
  shows "case latest_review_decision st (su_id s) of
      Some t \<Rightarrow> t \<le> cutoff now (reviewed_days W) \<longrightarrow> su_email s = Some ANONYMIZED_EMAIL
    | None \<Rightarrow> su_at s \<le> cutoff now (unreviewed_days W) \<longrightarrow> su_email s = Some ANONYMIZED_EMAIL"
  using assms by (auto simp: pii_category_def split: option.splits if_splits)

lemma network_settled:
  assumes "\<not> network_due W now s" and "su_at s \<le> cutoff now (network_days W)"
  shows "su_agent s = None \<and> su_headers s = None \<and> (\<forall>ip. su_ip s = Some ip \<longrightarrow> CHR ''/'' \<in> set ip)"
  using assms by (auto simp: network_due_def network_already_anonymized_def split: if_splits)


definition sample_submitted :: kyb where
  "sample_submitted = snd (submit marks 0 0 sample_caller sample_http sample_request no_kyb)"

definition sample_pass :: kyb where
  "sample_pass = snd (run_retention marks DEFAULT_WINDOWS 17280000 sample_submitted)"


section \<open>What a pass does not reach\<close>

lemma pii_keeps_placeholder: "su_email s = Some ANONYMIZED_EMAIL \<Longrightarrow> pii_category W now st s = KeepPii"
  by (simp add: pii_category_def)

lemma network_keeps [simp]: "su_email (anonymize_network s) = su_email s" "su_phone (anonymize_network s) = su_phone s"
  by (simp_all add: anonymize_network_def)

lemma pii_pass_keeps: "s \<in> set (kb_submissions st) \<Longrightarrow> pii_category W now st s = KeepPii \<Longrightarrow>
    s \<in> set (kb_submissions (pii_pass W now st))"
  by (force simp: pii_pass_def)

definition holds_phone :: "string \<Rightarrow> string \<Rightarrow> kyb \<Rightarrow> bool" where
  "holds_phone i v st = (\<exists>s \<in> set (kb_submissions st). su_id s = i \<and> su_phone s = Some v \<and> su_email s = Some ANONYMIZED_EMAIL)"

lemma pass_keeps_phone:
  assumes "holds_phone i v st"
  shows "holds_phone i v (snd (run_retention uuid W now st))"
proof -
  obtain s where s: "s \<in> set (kb_submissions st)" "su_id s = i" "su_phone s = Some v" "su_email s = Some ANONYMIZED_EMAIL"
    using assms by (auto simp: holds_phone_def)
  let ?s = "if network_due W now s then anonymize_network s else s"
  have "?s \<in> set (kb_submissions (network_pass W now st))" using s(1) by (simp add: network_pass_def)
  moreover have "pii_category W now (network_pass W now st) ?s = KeepPii" using s(4) by (intro pii_keeps_placeholder) simp
  ultimately have "?s \<in> set (kb_submissions (pii_pass W now (network_pass W now st)))"
    by (rule pii_pass_keeps)
  then show ?thesis using s by (auto simp: holds_phone_def retention_result after_pass_def intro!: bexI [of _ ?s])
qed

lemma passes_keep_phone: "holds_phone i v st \<Longrightarrow> holds_phone i v (fold (\<lambda>(t, W). snd \<circ> run_retention uuid W t) ps st)"
  by (induction ps arbitrary: st) (auto simp: pass_keeps_phone)

lemma steps_keep_events: "set (kb_events st) \<subseteq> set (kb_events (fold (kyb_step uuid) qs st))"
proof (induction qs arbitrary: st)
  case (Cons q qs)
  obtain now req where q: "q = (now, req)" by (cases q)
  have "set (kb_events st) \<subseteq> set (kb_events (kyb_step uuid q st))"
    using step_logged [of uuid now req st] by (auto simp: q logged_def)
  then show ?case using Cons.IH [of "kyb_step uuid q st"] by auto
qed simp

lemma phone_correction:
  assumes "submission_by i st = Some s" and "su_email s = Some ANONYMIZED_EMAIL"
  shows "holds_phone i v (corrected s [(''phone'', Some v)] st)"
proof -
  have id: "su_id s = i" and "list_ex (\<lambda>x. su_id x = su_id s) (kb_submissions st)"
    using assms(1) by (auto simp: submission_by_def find_Some_iff list_ex_iff)
  from this(2) have "\<exists>y \<in> set (kb_submissions (corrected s [(''phone'', Some v)] st)). y = set_field (''phone'', Some v) s"
    unfolding corrected_def by (simp, rule update_first_hit [where Q = "\<lambda>y. y = set_field (''phone'', Some v) s", simplified], simp_all)
  then show ?thesis using assms(2) id
    by (auto simp: holds_phone_def set_field_def intro!: bexI [of _ "s\<lparr>su_phone := Some v\<rparr>"])
qed


definition sample_windows :: windows where
  "sample_windows = \<lparr>network_days = 1000, reviewed_days = 1825, unreviewed_days = 180\<rparr>"

definition sample_anonymized :: kyb where
  "sample_anonymized = snd (run_retention marks sample_windows 17280000 sample_submitted)"

definition sample_lead :: operator_row where
  "sample_lead = \<lparr>op_id = ''o'', op_email = ''lead@x.io'', op_role = ''lead'', op_password = None\<rparr>"

definition sample_corrected :: "string reply \<times> kyb" where
  "sample_corrected = correct_and_rerun marks 17280001 sample_lead ''uu'' [(''phone'', Some ''777'')] None sample_anonymized"


end
