(* ===== verification/Adapters.thy ===== *)
theory Adapters
  imports Kyb_Evidence Binary64
begin

text \<open>
  Calling an external source: the adapter contract of \<open>app/adapters/base.py\<close> and its wrappers, the cache of
  \<open>cache.py\<close>, the token buckets of \<open>ratelimit.py\<close> and the retries of \<open>retry.py\<close>. An adapter is a function of its
  context and of the outside world, which it may change. The monotonic clock is an exact number of seconds; the
  amounts of tokens and the length of a sleep are binary64.
\<close>

section \<open>The contract\<close>

datatype failure_kind = Timeout | Unavailable | NotFound | RateLimited

datatype adapter_result = Success "evidence list" | Failure failure_kind

record adapter_context =
  cx_run :: string
  cx_company :: "string option"
  cx_domain :: "string option"
  cx_country :: "string option"
  cx_tax_id :: "string option"
  cx_email :: "string option"
  cx_address :: "string option"
  cx_linkedin :: "string option"
  cx_requester :: "string option"

text \<open>A new row of evidence; the database gives it its identifier and creation time when it is stored.\<close>

definition new_row :: "string \<Rightarrow> string \<Rightarrow> int \<Rightarrow> string \<Rightarrow> string option \<Rightarrow> string option \<Rightarrow> rat \<Rightarrow> (string \<times> json) list
    \<Rightarrow> (string \<times> json) list \<Rightarrow> int \<Rightarrow> evidence" where
  "new_row run src level field raw normalized conf details origin now = \<lparr>ev_id = [], ev_run = run, source = src, tier = level,
     ev_field = Some field, raw_value = raw, normalized_value = (if normalized = None then raw else normalized),
     raw_payload = Some details, fetched_at = Some now, created_at = 0, ev_confidence = Some conf, attribution = Some origin\<rparr>"

fun store_rows :: "(nat \<Rightarrow> string) \<Rightarrow> int \<Rightarrow> evidence list \<Rightarrow> nat \<Rightarrow> evidence list \<times> nat" where
  "store_rows uuid now [] n = ([], n)"
| "store_rows uuid now (e # es) n = (let (rows, m) = store_rows uuid now es (Suc n) in
     (e\<lparr>ev_id := uuid n, created_at := now\<rparr> # rows, m))"

section \<open>The cache\<close>

definition DEFAULT_TTLS :: "(string \<times> rat) list" where
  "DEFAULT_TTLS = [(''opencorporates'', 86400), (''sanctions'', 3600), (''domain'', 3600), (''ipinfo'', 3600), (''web'', 1800)]"

definition DEFAULT_MAX_SIZE :: int where "DEFAULT_MAX_SIZE = 1000"

record 'r adapter_cache =
  ac_ttls :: "(string \<times> rat) list"
  ac_default :: rat
  ac_max :: int
  ac_store :: "((string \<times> string) \<times> ('r \<times> rat)) list" \<comment> \<open>in insertion order, with the time each entry expires\<close>

definition new_cache :: "(string \<times> rat) list \<Rightarrow> rat \<Rightarrow> int \<Rightarrow> 'r adapter_cache" where
  "new_cache ttls fallback max_size = \<lparr>ac_ttls = fold (\<lambda>(k, v). AList.update k v) ttls DEFAULT_TTLS,
     ac_default = fallback, ac_max = max_size, ac_store = []\<rparr>"

definition cache_get :: "rat \<Rightarrow> string \<Rightarrow> string \<Rightarrow> 'r adapter_cache \<Rightarrow> 'r option \<times> 'r adapter_cache" where
  "cache_get now src key c = (case map_of (ac_store c) (src, key) of
       None \<Rightarrow> (None, c)
     | Some (r, expires) \<Rightarrow> if expires \<le> now then (None, c\<lparr>ac_store := AList.delete (src, key) (ac_store c)\<rparr>)
         else (Some r, c))"

definition ttl_of :: "string \<Rightarrow> 'r adapter_cache \<Rightarrow> rat" where
  "ttl_of src c = (case map_of (ac_ttls c) src of None \<Rightarrow> ac_default c | Some t \<Rightarrow> t)"

definition cache_set :: "rat \<Rightarrow> string \<Rightarrow> string \<Rightarrow> 'r \<Rightarrow> 'r adapter_cache \<Rightarrow> 'r adapter_cache option" where
  \<comment> \<open>None is the \<open>StopIteration\<close> of evicting from an empty cache, when no entry is allowed\<close>
  "cache_set now src key r c =
    (let entry = (r, now + ttl_of src c);
         full = map_of (ac_store c) (src, key) = None \<and> ac_max c \<le> int (length (ac_store c))
     in if full \<and> ac_store c = [] then None
        else Some (c\<lparr>ac_store := AList.update (src, key) entry (if full then tl (ac_store c) else ac_store c)\<rparr>))"

definition cache_invalidate :: "string \<Rightarrow> string \<Rightarrow> 'r adapter_cache \<Rightarrow> 'r adapter_cache" where
  "cache_invalidate src key c = c\<lparr>ac_store := AList.delete (src, key) (ac_store c)\<rparr>"

definition cache_clear :: "'r adapter_cache \<Rightarrow> 'r adapter_cache" where
  "cache_clear c = c\<lparr>ac_store := []\<rparr>"

definition cache_size :: "'r adapter_cache \<Rightarrow> nat" where
  "cache_size c = length (ac_store c)"

definition default_key_fn :: "string \<Rightarrow> adapter_context \<Rightarrow> string" where
  \<comment> \<open>\<open>anon\<close> is \<open>str(id(context))\<close>\<close>
  "default_key_fn anon cx =
    (let parts = (if truthy (cx_company cx) then [str_strip (str_lower (the (cx_company cx)))] else [])
           @ (if truthy (cx_domain cx) then [str_strip (str_lower (the (cx_domain cx)))] else [])
     in if parts = [] then anon else str_join ''|'' parts)"

definition cached_fetch :: "(adapter_context \<Rightarrow> string) \<Rightarrow> string \<Rightarrow> (adapter_context \<Rightarrow> 'w \<Rightarrow> 'r \<times> 'w) \<Rightarrow> rat \<Rightarrow> rat
    \<Rightarrow> adapter_context \<Rightarrow> 'r adapter_cache \<Rightarrow> 'w \<Rightarrow> ('r \<times> 'r adapter_cache \<times> 'w) option" where
  \<comment> \<open>the clock is read before the look-up and again after the fetch\<close>
  "cached_fetch key name fetch t t' cx c w = (case cache_get t name (key cx) c of
       (Some r, c) \<Rightarrow> Some (r, c, w)
     | (None, c) \<Rightarrow>
         let (r, w) = fetch cx w
         in map_option (\<lambda>c. (r, c, w)) (cache_set t' name (key cx) r c))"

section \<open>Retries\<close>

definition TRANSIENT_KINDS :: "failure_kind list" where
  "TRANSIENT_KINDS = [Timeout, Unavailable]"

definition transient :: "adapter_result \<Rightarrow> bool" where
  "transient r = (case r of Failure k \<Rightarrow> k \<in> set TRANSIENT_KINDS | Success _ \<Rightarrow> False)"

text \<open>The loop of \<open>_call\<close>: the result and the waits asked of \<open>sleep\<close>. \<open>left\<close> counts the calls still allowed.\<close>

fun retrying :: "rat \<Rightarrow> nat \<Rightarrow> nat \<Rightarrow> ('w \<Rightarrow> adapter_result \<times> 'w) \<Rightarrow> adapter_result \<Rightarrow> rat list \<Rightarrow> 'w \<Rightarrow> adapter_result \<times> rat list \<times> 'w" where
  "retrying backoff attempt 0 fn r waits w = (r, waits, w)"
| "retrying backoff attempt (Suc left) fn r waits w =
    (if transient r
     then let (r', w') = fn w in retrying backoff (Suc attempt) left fn r' (waits @ [backoff * 2 ^ (attempt - 1)]) w'
     else (r, waits, w))"

definition retry_call :: "int \<Rightarrow> rat \<Rightarrow> ('w \<Rightarrow> adapter_result \<times> 'w) \<Rightarrow> 'w \<Rightarrow> adapter_result \<times> rat list \<times> 'w" where
  \<comment> \<open>\<open>max_attempts\<close> below 1 counts as 1\<close>
  "retry_call max_attempts backoff fn w =
    (let (r, w) = fn w in retrying backoff 1 (nat (max 1 max_attempts) - 1) fn r [] w)"

section \<open>Rate limits\<close>

definition DEFAULT_RATE_LIMITS :: "(string \<times> rat \<times> rat \<times> rat) list" where
  "DEFAULT_RATE_LIMITS = [(''opencorporates'', 5, 1, 30), (''sanctions'', 10, 5, 10), (''domain'', 10, 2, 20),
     (''ipinfo'', 10, 2, 15), (''web'', 3, 1/2, 20)]"

definition DEFAULT_LIMIT :: "rat \<times> rat \<times> rat" where "DEFAULT_LIMIT = (5, 1, 30)"

record bucket =
  bk_capacity :: rat
  bk_rate :: rat
  bk_tokens :: rat
  bk_refilled :: rat

definition new_bucket :: "rat \<Rightarrow> rat \<Rightarrow> rat \<Rightarrow> bucket" where
  "new_bucket now capacity rate = \<lparr>bk_capacity = capacity, bk_rate = rate, bk_tokens = capacity, bk_refilled = now\<rparr>"

definition refill :: "rat \<Rightarrow> bucket \<Rightarrow> bucket" where
  "refill now b = b\<lparr>bk_tokens := min (bk_capacity b) (fadd (bk_tokens b) (fmul (now - bk_refilled b) (bk_rate b))),
     bk_refilled := now\<rparr>"

definition consume :: "rat \<Rightarrow> bucket \<Rightarrow> bool \<times> bucket" where
  "consume now b = (let b = refill now b in
     if 1 \<le> bk_tokens b then (True, b\<lparr>bk_tokens := fsub (bk_tokens b) 1\<rparr>) else (False, b))"

record limiter =
  rl_limits :: "(string \<times> rat \<times> rat \<times> rat) list"
  rl_buckets :: "(string \<times> bucket) list"

definition new_limiter :: "(string \<times> rat \<times> rat \<times> rat) list \<Rightarrow> limiter" where
  "new_limiter limits = \<lparr>rl_limits = fold (\<lambda>(k, v). AList.update k v) limits DEFAULT_RATE_LIMITS, rl_buckets = []\<rparr>"

definition limit_of :: "string \<Rightarrow> limiter \<Rightarrow> rat \<times> rat \<times> rat" where
  "limit_of src l = (case map_of (rl_limits l) src of None \<Rightarrow> DEFAULT_LIMIT | Some x \<Rightarrow> x)"

definition get_bucket :: "rat \<Rightarrow> string \<Rightarrow> limiter \<Rightarrow> bucket" where
  "get_bucket now src l = (case map_of (rl_buckets l) src of
       Some b \<Rightarrow> b
     | None \<Rightarrow> (case limit_of src l of (capacity, rate, _) \<Rightarrow> new_bucket now capacity rate))"

definition try_acquire :: "rat \<Rightarrow> string \<Rightarrow> limiter \<Rightarrow> bool \<times> limiter" where
  \<comment> \<open>what \<open>acquire\<close> does under its lock\<close>
  "try_acquire now src l = (case consume now (get_bucket now src l) of
       (ok, b) \<Rightarrow> (ok, l\<lparr>rl_buckets := AList.update src b (rl_buckets l)\<rparr>))"

text \<open>The clock and the random numbers the loop of \<open>acquire\<close> sees: \<open>tick n\<close> is how much time passes before the n-th
  reading beside what was slept, \<open>late n\<close> by how much the n-th sleep overruns, \<open>jitter n\<close> the n-th random number.\<close>

record pace =
  tick :: "nat \<Rightarrow> rat"
  late :: "nat \<Rightarrow> rat"
  jitter :: "nat \<Rightarrow> rat"

definition backoff_sleep :: "pace \<Rightarrow> nat \<Rightarrow> rat \<Rightarrow> rat" where
  "backoff_sleep P attempt remaining =
     min (fmul (min (fmul (dec 1 1) (2 ^ attempt)) 2) (fadd (1/2) (fmul (jitter P attempt) (1/2)))) remaining"

text \<open>The loop: \<open>t\<close> is the clock, \<open>n\<close> the readings made. It ends with the token or when the deadline has passed.\<close>

partial_function (option) acquire_loop :: "pace \<Rightarrow> string \<Rightarrow> rat \<Rightarrow> nat \<Rightarrow> nat \<Rightarrow> rat \<Rightarrow> limiter \<Rightarrow> (bool \<times> rat \<times> limiter) option" where
  "acquire_loop P src deadline attempt n t l =
    (let t1 = t + tick P n; (ok, l) = try_acquire t1 src l in
     if ok then Some (True, t1, l)
     else let t2 = t1 + tick P (n + 1) in
       if deadline \<le> t2 then Some (False, t2, l)
       else let t3 = t2 + tick P (n + 2); sleep = backoff_sleep P attempt (deadline - t3)
         in acquire_loop P src deadline (Suc attempt) (n + 3) (if 0 < sleep then t3 + sleep + late P attempt else t3) l)"

declare acquire_loop.simps [code]

definition acquire :: "pace \<Rightarrow> string \<Rightarrow> rat \<Rightarrow> limiter \<Rightarrow> (bool \<times> rat \<times> limiter) option" where
  "acquire P src t l = (case limit_of src l of (_, _, max_wait) \<Rightarrow>
     let t0 = t + tick P 0 in acquire_loop P src (t0 + max_wait) 0 1 t0 l)"

definition limited_fetch :: "pace \<Rightarrow> string \<Rightarrow> (adapter_context \<Rightarrow> 'w \<Rightarrow> adapter_result \<times> 'w) \<Rightarrow> adapter_context \<Rightarrow> rat \<Rightarrow> limiter \<Rightarrow> 'w
    \<Rightarrow> (adapter_result \<times> limiter \<times> 'w) option" where
  "limited_fetch P name fetch cx t l w = (case acquire P name t l of
       None \<Rightarrow> None
     | Some (ok, _, l) \<Rightarrow> if \<not> ok then Some (Failure RateLimited, l, w) else (case fetch cx w of (r, w) \<Rightarrow> Some (r, l, w)))"

section \<open>Availability of the sources\<close>

definition record_source :: "string \<Rightarrow> adapter_result \<Rightarrow> (string \<times> string) list \<Rightarrow> (string \<times> string) list" where
  "record_source src r = AList.update src (case r of Success _ \<Rightarrow> ''available'' | Failure _ \<Rightarrow> ''unavailable'')"

definition is_available :: "string \<Rightarrow> (string \<times> string) list \<Rightarrow> bool" where
  "is_available src records = (map_of records src = Some ''available'')"

definition available_sources :: "(string \<times> string) list \<Rightarrow> string list" where
  "available_sources records = map fst (filter (\<lambda>(s, st). st = ''available'') records)"

definition unavailable_sources :: "(string \<times> string) list \<Rightarrow> string list" where
  "unavailable_sources records = map fst (filter (\<lambda>(s, st). st = ''unavailable'') records)"

end
