(* ===== verification/Adapters_Laws.thy ===== *)
theory Adapters_Laws
  imports Adapters
begin

text \<open>
  What the wrappers guarantee an adapter's caller: a bounded number of calls, answers that are as fresh as their
  source allows, a bounded wait for a token and a bounded rate of calls.
\<close>

section \<open>Retries\<close>

fun calls :: "('w \<Rightarrow> adapter_result \<times> 'w) \<Rightarrow> nat \<Rightarrow> 'w \<Rightarrow> adapter_result \<times> 'w" where
  \<comment> \<open>the k-th call after the first, each made whatever the earlier ones answered\<close>
  "calls fn 0 w = fn w"
| "calls fn (Suc k) w = fn (snd (calls fn k w))"

lemma retrying_calls:
  assumes "calls fn a w = (r, w')"
  shows "\<exists>k \<le> left. retrying backoff (Suc a) left fn r waits w' = (fst (calls fn (a + k) w),
      waits @ map (\<lambda>i. backoff * 2 ^ i) [a..<a + k], snd (calls fn (a + k) w))
    \<and> list_all (\<lambda>i. transient (fst (calls fn i w))) [a..<a + k]
    \<and> (transient (fst (calls fn (a + k) w)) \<longrightarrow> k = left)"
  using assms
proof (induction left arbitrary: a r waits w')
  case (Suc left)
  show ?case
  proof (cases "transient r")
    case True
    obtain r1 w1 where fn: "fn w' = (r1, w1)" by fastforce
    then have "calls fn (Suc a) w = (r1, w1)" using Suc.prems by simp
    from Suc.IH [OF this] obtain k where k: "k \<le> left"
      "retrying backoff (Suc (Suc a)) left fn r1 (waits @ [backoff * 2 ^ a]) w1 = (fst (calls fn (Suc a + k) w),
        (waits @ [backoff * 2 ^ a]) @ map (\<lambda>i. backoff * 2 ^ i) [Suc a..<Suc a + k], snd (calls fn (Suc a + k) w))"
      "list_all (\<lambda>i. transient (fst (calls fn i w))) [Suc a..<Suc a + k]"
      "transient (fst (calls fn (Suc a + k) w)) \<longrightarrow> k = left" by metis
    have "[a..<a + Suc k] = a # [Suc a..<Suc a + k]" by (simp add: upt_conv_Cons del: upt_Suc)
    then show ?thesis using k True Suc.prems fn
      by (intro exI [of _ "Suc k"]) (simp del: upt_Suc calls.simps)
  next
    case False
    then show ?thesis using Suc.prems by (intro exI [of _ 0]) simp
  qed
qed (auto intro: exI [of _ 0])

text \<open>Retrying is bounded and decided by the results: the wrapper makes at most \<open>max_attempts\<close> calls (at least one),
  repeats only after a timeout or an outage, answers the result of the last call, which is another outage only when
  the attempts are used up, and doubles its wait before every repetition.\<close>

theorem retries_are_bounded:
  "\<exists>k < nat (max 1 max_attempts). retry_call max_attempts backoff fn w =
      (fst (calls fn k w), map (\<lambda>i. backoff * 2 ^ i) [0..<k], snd (calls fn k w))
    \<and> list_all (\<lambda>i. transient (fst (calls fn i w))) [0..<k]
    \<and> (\<not> transient (fst (calls fn k w)) \<or> Suc k = nat (max 1 max_attempts))"
proof -
  obtain r w' where first: "calls fn 0 w = (r, w')" by fastforce
  let ?left = "nat (max 1 max_attempts) - 1"
  obtain k where k: "k \<le> ?left" "retrying backoff 1 ?left fn r [] w' = (fst (calls fn k w),
        map (\<lambda>i. backoff * 2 ^ i) [0..<k], snd (calls fn k w))"
      "list_all (\<lambda>i. transient (fst (calls fn i w))) [0..<k]" "transient (fst (calls fn k w)) \<longrightarrow> k = ?left"
    using retrying_calls [OF first, of ?left backoff "[]"] by auto
  have "0 < nat (max 1 max_attempts)" by simp
  then have "k < nat (max 1 max_attempts)" "k = ?left \<longrightarrow> Suc k = nat (max 1 max_attempts)" using k(1) by linarith+
  moreover have "retry_call max_attempts backoff fn w = retrying backoff 1 ?left fn r [] w'"
    using first by (simp add: retry_call_def)
  ultimately show ?thesis using k(2-4) by (intro exI [of _ k]) auto
qed

section \<open>The cache\<close>

datatype 'r cache_op = Get rat string string | Set rat string string 'r | Invalidate string string | Clear

fun cache_do :: "'r cache_op \<Rightarrow> 'r adapter_cache \<Rightarrow> 'r adapter_cache option" where
  "cache_do (Get t src key) c = Some (snd (cache_get t src key c))"
| "cache_do (Set t src key r) c = cache_set t src key r c"
| "cache_do (Invalidate src key) c = Some (cache_invalidate src key c)"
| "cache_do Clear c = Some (cache_clear c)"

definition cache_run :: "'r cache_op list \<Rightarrow> 'r adapter_cache \<Rightarrow> 'r adapter_cache option" where
  "cache_run ops c = fold (\<lambda>x c. Option.bind c (cache_do x)) ops (Some c)"

text \<open>The reference: what was last stored under a key, kept for ever, with the time it expires.\<close>

fun remember :: "('r adapter_cache) \<Rightarrow> 'r cache_op \<Rightarrow> (string \<times> string \<rightharpoonup> 'r \<times> rat) \<Rightarrow> (string \<times> string \<rightharpoonup> 'r \<times> rat)" where
  "remember c (Get t src key) m = m"
| "remember c (Set t src key r) m = m((src, key) \<mapsto> (r, t + ttl_of src c))"
| "remember c (Invalidate src key) m = m((src, key) := None)"
| "remember c Clear m = Map.empty"

definition cache_ok :: "'r adapter_cache \<Rightarrow> (string \<times> string \<rightharpoonup> 'r \<times> rat) \<Rightarrow> 'r adapter_cache \<Rightarrow> bool" where
  "cache_ok c0 m c = (distinct (map fst (ac_store c)) \<and> int (length (ac_store c)) \<le> max 0 (ac_max c)
     \<and> map_of (ac_store c) \<subseteq>\<^sub>m m \<and> ac_max c = ac_max c0 \<and> ac_ttls c = ac_ttls c0 \<and> ac_default c = ac_default c0)"

lemma delete_length: "length (AList.delete k xs) \<le> length xs"
  by (simp add: AList.delete_eq)

lemma cache_ok_delete:
  assumes "cache_ok c0 m c" and "\<And>k. k \<noteq> key \<Longrightarrow> m' k = m k"
  shows "cache_ok c0 m' (c\<lparr>ac_store := AList.delete key (ac_store c)\<rparr>)"
  using assms delete_length [of key "ac_store c"]
  by (auto simp: cache_ok_def map_le_def delete_conv' distinct_delete dom_def)

lemma update_length: "length (AList.update k v xs) = (if k \<in> fst ` set xs then length xs else Suc (length xs))"
  by (induction xs) auto

lemma cache_ok_set:
  assumes "cache_ok c0 m c" and "cache_set t src key r c = Some c'"
  shows "cache_ok c0 (m((src, key) \<mapsto> (r, t + ttl_of src c0))) c'"
proof -
  have ttl: "ttl_of src c = ttl_of src c0" using assms(1) by (simp add: cache_ok_def ttl_of_def split: option.split)
  have tl: "map_of (tl xs) \<subseteq>\<^sub>m map_of xs" if "distinct (map fst xs)" for xs :: "((string \<times> string) \<times> ('a \<times> rat)) list"
    using that by (cases xs) (force simp: map_le_def dest: map_of_SomeD)+
  let ?old = "if map_of (ac_store c) (src, key) = None \<and> ac_max c \<le> int (length (ac_store c)) then tl (ac_store c) else ac_store c"
  have c': "c' = c\<lparr>ac_store := AList.update (src, key) (r, t + ttl_of src c0) ?old\<rparr>"
    using assms(2) by (auto simp: cache_set_def Let_def ttl split: if_splits)
  have "map_of ?old \<subseteq>\<^sub>m map_of (ac_store c)" using tl assms(1) by (simp add: cache_ok_def)
  then have old: "map_of ?old \<subseteq>\<^sub>m m" using assms(1) map_le_trans by (auto simp: cache_ok_def)
  have size: "int (length (ac_store c)) \<le> max 0 (ac_max c)" using assms(1) unfolding cache_ok_def by blast
  have "int (length (AList.update (src, key) (r, t + ttl_of src c0) ?old)) \<le> max 0 (ac_max c)"
  proof (cases "map_of (ac_store c) (src, key)")
    case None
    then have new: "(src, key) \<notin> fst ` set (ac_store c)" by (simp add: map_of_eq_None_iff)
    show ?thesis
    proof (cases "ac_max c \<le> int (length (ac_store c))")
      case True
      then have "ac_store c \<noteq> []" using assms(2) None by (auto simp: cache_set_def Let_def)
      then have "length (AList.update (src, key) (r, t + ttl_of src c0) (tl (ac_store c))) = length (ac_store c)"
        using new by (cases "ac_store c") (simp_all add: update_length)
      then show ?thesis using True None size by simp
    qed (use None new size in \<open>simp add: update_length\<close>)
  next
    case (Some v)
    then have "(src, key) \<in> fst ` set (ac_store c)" by (force dest: map_of_SomeD)
    then show ?thesis using Some size by (simp add: update_length)
  qed
  moreover have "distinct (map fst ?old)" using assms(1) by (simp add: cache_ok_def distinct_tl map_tl)
  moreover have "map_of (AList.update (src, key) (r, t + ttl_of src c0) ?old) \<subseteq>\<^sub>m m((src, key) \<mapsto> (r, t + ttl_of src c0))"
    using map_le_upd [OF old] by (simp add: update_conv')
  ultimately show ?thesis using assms(1) by (simp add: cache_ok_def c' distinct_update)
qed

lemma cache_ok_do:
  assumes "cache_ok c0 m c" and "cache_do x c = Some c'"
  shows "cache_ok c0 (remember c0 x m) c'"
proof (cases x)
  case (Get t src key)
  then show ?thesis using assms cache_ok_delete [OF assms(1), of "(src, key)" m]
    by (auto simp: cache_get_def split: option.splits if_splits)
next
  case (Set t src key r)
  then show ?thesis using assms cache_ok_set by simp
next
  case (Invalidate src key)
  then show ?thesis using assms cache_ok_delete [OF assms(1), of "(src, key)" "m((src, key) := None)"]
    by (auto simp: cache_invalidate_def)
next
  case Clear
  then show ?thesis using assms by (auto simp: cache_clear_def cache_ok_def)
qed

lemma fold_bind_None [simp]: "fold (\<lambda>x c. Option.bind c (f x)) xs None = None"
  by (induction xs) simp_all

lemma cache_ok_run: "cache_ok c0 m c \<Longrightarrow> cache_run ops c = Some c' \<Longrightarrow> cache_ok c0 (fold (remember c0) ops m) c'"
proof (induction ops arbitrary: m c)
  case (Cons x ops)
  show ?case
  proof (cases "cache_do x c")
    case (Some c1)
    then show ?thesis using Cons.IH [OF cache_ok_do [OF Cons.prems(1) Some]] Cons.prems(2) by (simp add: cache_run_def)
  qed (use Cons.prems(2) in \<open>simp add: cache_run_def\<close>)
qed (simp add: cache_run_def)

text \<open>C34. The cache never answers with anything but the last result stored under the key, and only before it expires,
  and it never holds more entries than allowed nor one key twice, whatever operations it has served.\<close>

theorem cache_answers_last_stored:
  assumes "cache_run ops (new_cache ttls fallback max_size) = Some c"
  shows "(case fst (cache_get now src key c) of
        None \<Rightarrow> True
      | Some r \<Rightarrow> \<exists>expires. fold (remember (new_cache ttls fallback max_size)) ops Map.empty (src, key) = Some (r, expires) \<and> now < expires)
    \<and> int (cache_size c) \<le> max 0 max_size \<and> distinct (map fst (ac_store c))"
proof -
  have "cache_ok (new_cache ttls fallback max_size) Map.empty (new_cache ttls fallback max_size)"
    by (simp add: cache_ok_def new_cache_def)
  from cache_ok_run [OF this assms] show ?thesis
    by (auto simp: cache_ok_def cache_get_def cache_size_def new_cache_def map_le_def dom_def split: option.split)
qed

section \<open>Waiting for a token\<close>

text \<open>A clock that does not run backwards and sleeps that are not cut short.\<close>

definition fair :: "pace \<Rightarrow> bool" where
  "fair P = (\<forall>n. 0 \<le> tick P n \<and> 0 \<le> late P n \<and> 0 \<le> jitter P n)"

definition least_sleep :: rat where
  "least_sleep = fl (dec 1 1 * (1/2))"

lemma fl_pos: "0 < x \<Longrightarrow> 0 < fl x"
  by (rule less_le_trans [OF powi2_pos fl_pos_bounds(1)])

lemma dec_pos: "0 < dec 1 1"
  by (simp add: dec_def fl_pos)

lemma least_sleep_pos: "0 < least_sleep"
  unfolding least_sleep_def using dec_pos by (intro fl_pos) simp

lemma half_exact: "fl (1/2) = (1/2 :: rat)"
  using fl_dyadic [of 1 "-1"] by simp

lemma backoff_least:
  assumes "0 \<le> jitter P n"
  shows "backoff_sleep P n remaining = remaining \<or> least_sleep \<le> backoff_sleep P n remaining"
proof -
  have "dec 1 1 \<le> fmul (dec 1 1) (2 ^ n)"
  proof -
    have "dec 1 1 \<le> dec 1 1 * 2 ^ n" using dec_pos by simp
    then have "fl (dec 1 1) \<le> fmul (dec 1 1) (2 ^ n)" unfolding fmul_def by (rule fl_mono)
    then show ?thesis by (simp add: dec_def)
  qed
  moreover have "dec 1 1 \<le> 2" using fl_mono [of "1/10" 2] by (simp add: dec_def)
  ultimately have "dec 1 1 \<le> min (fmul (dec 1 1) (2 ^ n)) 2" by simp
  moreover have "1/2 \<le> fadd (1/2) (fmul (jitter P n) (1/2))"
    using fl_mono [of "1/2" "1/2 + fmul (jitter P n) (1/2)"] fl_nonneg [of "jitter P n * (1/2)"] assms half_exact
    by (simp add: fadd_def fmul_def)
  ultimately have "dec 1 1 * (1/2) \<le> min (fmul (dec 1 1) (2 ^ n)) 2 * fadd (1/2) (fmul (jitter P n) (1/2))"
    using dec_pos by (intro mult_mono) simp_all
  then have "least_sleep \<le> fmul (min (fmul (dec 1 1) (2 ^ n)) 2) (fadd (1/2) (fmul (jitter P n) (1/2)))"
    unfolding least_sleep_def fmul_def [of "min _ _"] by (rule fl_mono)
  then show ?thesis by (simp add: backoff_sleep_def min_def)
qed

lemma acquire_loop_returns:
  assumes "fair P" and "deadline - t \<le> of_nat k * least_sleep"
  shows "\<exists>ok t' l'. acquire_loop P src deadline attempt n t l = Some (ok, t', l') \<and> t \<le> t' \<and> (\<not> ok \<longrightarrow> deadline \<le> t')"
  using assms(2)
proof (induction k arbitrary: attempt n t l)
  case 0
  obtain ok l1 where got: "try_acquire (t + tick P n) src l = (ok, l1)" by fastforce
  have ticks: "0 \<le> tick P n" "0 \<le> tick P (n + 1)" using assms(1) by (simp_all add: fair_def)
  then have "deadline \<le> t + tick P n + tick P (n + 1)" using 0 by simp
  then show ?case using got ticks by (subst acquire_loop.simps) (auto simp: Let_def)
next
  case (Suc k)
  obtain ok l1 where got: "try_acquire (t + tick P n) src l = (ok, l1)" by fastforce
  let ?t2 = "t + tick P n + tick P (n + 1)" let ?t3 = "?t2 + tick P (n + 2)"
  let ?s = "backoff_sleep P attempt (deadline - ?t3)"
  let ?t = "if 0 < ?s then ?t3 + ?s + late P attempt else ?t3"
  have ticks: "0 \<le> tick P n" "0 \<le> tick P (n + 1)" "0 \<le> tick P (n + 2)" "0 \<le> late P attempt" "0 \<le> jitter P attempt"
    using assms(1) by (simp_all add: fair_def)
  show ?case
  proof (cases "ok \<or> deadline \<le> ?t2")
    case True
    then show ?thesis using got ticks by (subst acquire_loop.simps) (auto simp: Let_def)
  next
    case False
    have "?t3 \<le> ?t" using ticks by simp
    then have later: "t \<le> ?t" using ticks by linarith
    have "deadline - ?t \<le> of_nat k * least_sleep"
    proof (cases "?s = deadline - ?t3")
      case True
      then have "deadline \<le> ?t" using ticks by auto
      moreover have "0 \<le> of_nat k * least_sleep" using least_sleep_pos by simp
      ultimately show ?thesis by linarith
    next
      case False
      then have "least_sleep \<le> ?s" using backoff_least [OF ticks(5)] by blast
      then show ?thesis using Suc.prems ticks least_sleep_pos by (simp add: algebra_simps)
    qed
    from Suc.IH [OF this, of "Suc attempt" "n + 3" l1] later False got show ?thesis
      by (subst acquire_loop.simps) (auto simp: Let_def intro: order_trans)
  qed
qed


section \<open>The rate of calls\<close>

lemma fl_upper: "0 \<le> x \<Longrightarrow> fl x \<le> x + x / 2 ^ 53"
  using order_trans [OF abs_ge_self fl_err [of x]] by simp

definition bucket_ok :: "bucket \<Rightarrow> bool" where
  "bucket_ok b = (0 \<le> bk_tokens b \<and> bk_tokens b \<le> bk_capacity b \<and> fl (bk_capacity b) = bk_capacity b \<and> 0 \<le> bk_rate b)"

lemma refill_ok:
  assumes "bucket_ok b" and "bk_refilled b \<le> now"
  shows "bucket_ok (refill now b)" and "bk_tokens (refill now b)
    \<le> bk_tokens b + bk_rate b * (now - bk_refilled b) * (1 + 3 / 2 ^ 53) + bk_capacity b / 2 ^ 53"
proof -
  let ?p = "(now - bk_refilled b) * bk_rate b" and ?tok = "bk_tokens b"
  have p: "0 \<le> ?p" using assms by (simp add: bucket_ok_def)
  have tok: "0 \<le> ?tok" "?tok \<le> bk_capacity b" using assms(1) by (simp_all add: bucket_ok_def)
  have fp: "0 \<le> fl ?p" "fl ?p \<le> ?p + ?p / 2 ^ 53" using fl_nonneg [OF p] fl_upper [OF p] by simp_all
  then have "fl (?tok + fl ?p) \<le> ?tok + fl ?p + (?tok + fl ?p) / 2 ^ 53" using tok by (intro fl_upper) simp
  then have bound: "fl (?tok + fl ?p) \<le> ?tok + ?p * (1 + 3 / 2 ^ 53) + bk_capacity b / 2 ^ 53"
    using fp tok p by (simp add: field_simps)
  show "bucket_ok (refill now b)"
    using assms(1) fl_nonneg [of "?tok + fl ?p"] fp tok by (simp add: bucket_ok_def refill_def fadd_def fmul_def)
  show "bk_tokens (refill now b)
    \<le> bk_tokens b + bk_rate b * (now - bk_refilled b) * (1 + 3 / 2 ^ 53) + bk_capacity b / 2 ^ 53"
    using bound by (simp add: refill_def fadd_def fmul_def mult.commute [of "bk_rate b"])
qed

lemma refill_fields [simp]: "bk_capacity (refill now b) = bk_capacity b" "bk_rate (refill now b) = bk_rate b"
    "bk_refilled (refill now b) = now"
  by (simp_all add: refill_def)

lemma consume_ok:
  assumes "bucket_ok b" and "bk_refilled b \<le> now" and "consume now b = (ok, b')"
  shows "bucket_ok b'" and "bk_capacity b' = bk_capacity b" and "bk_rate b' = bk_rate b" and "bk_refilled b' = now"
    and "of_bool ok + bk_tokens b'
      \<le> bk_tokens b + bk_rate b * (now - bk_refilled b) * (1 + 3 / 2 ^ 53) + 2 * bk_capacity b / 2 ^ 53"
proof -
  let ?b = "refill now b"
  note r = refill_ok [OF assms(1,2)]
  have cap: "0 \<le> bk_capacity b" using assms(1) by (simp add: bucket_ok_def)
  show "bk_capacity b' = bk_capacity b" "bk_rate b' = bk_rate b" "bk_refilled b' = now"
    using assms(3) by (auto simp: consume_def Let_def split: if_splits)
  have "bucket_ok b' \<and> of_bool ok + bk_tokens b'
      \<le> bk_tokens b + bk_rate b * (now - bk_refilled b) * (1 + 3 / 2 ^ 53) + 2 * bk_capacity b / 2 ^ 53"
  proof (cases "1 \<le> bk_tokens ?b")
    case True
    then have b': "ok" "b' = ?b\<lparr>bk_tokens := fl (bk_tokens ?b - 1)\<rparr>"
      using assms(3) by (auto simp: consume_def Let_def fsub_def)
    have le: "bk_tokens ?b \<le> bk_capacity b" and fix_cap: "fl (bk_capacity b) = bk_capacity b"
      using r(1) by (simp_all add: bucket_ok_def)
    have "fl (bk_tokens ?b - 1) \<le> fl (bk_capacity b)" using le by (intro fl_mono) simp
    moreover have "0 \<le> fl (bk_tokens ?b - 1)" using True by (intro fl_nonneg) simp
    moreover have "fl (bk_tokens ?b - 1) \<le> bk_tokens ?b - 1 + bk_capacity b / 2 ^ 53"
      using fl_upper [of "bk_tokens ?b - 1"] True le by (simp add: field_simps)
    ultimately show ?thesis using r fix_cap by (simp add: b' bucket_ok_def)
  next
    case False
    then have "\<not> ok" "b' = ?b" using assms(3) by (auto simp: consume_def Let_def)
    then show ?thesis using r cap by simp
  qed
  then show "bucket_ok b'" and "of_bool ok + bk_tokens b'
      \<le> bk_tokens b + bk_rate b * (now - bk_refilled b) * (1 + 3 / 2 ^ 53) + 2 * bk_capacity b / 2 ^ 53" by simp_all
qed

lemma split_span: "r * (l - t) * c + r * (t - b) * c = r * (l - b) * (c :: rat)"
  by (simp add: algebra_simps)

fun grants :: "rat list \<Rightarrow> bucket \<Rightarrow> nat \<times> bucket" where
  \<comment> \<open>the tokens given out at the times of the list\<close>
  "grants [] b = (0, b)"
| "grants (t # ts) b = (let (ok, b) = consume t b; (n, b) = grants ts b in (n + of_bool ok, b))"

lemma grants_bound:
  assumes "bucket_ok b" and "sorted (bk_refilled b # ts)"
  shows "bucket_ok (snd (grants ts b)) \<and> of_nat (fst (grants ts b)) + bk_tokens (snd (grants ts b))
    \<le> bk_tokens b + bk_rate b * (last (bk_refilled b # ts) - bk_refilled b) * (1 + 3 / 2 ^ 53)
      + of_nat (length ts) * (2 * bk_capacity b / 2 ^ 53)"
  using assms
proof (induction ts arbitrary: b)
  case (Cons t ts)
  obtain ok b' where c: "consume t b = (ok, b')" by fastforce
  have "bk_refilled b \<le> t" using Cons.prems(2) by simp
  note b' = consume_ok [OF Cons.prems(1) this c]
  have "sorted (bk_refilled b' # ts)" using Cons.prems(2) b'(4) by simp
  note ih = Cons.IH [OF b'(1) this]
  let ?l = "last (t # ts)" and ?C = "1 + 3 / 2 ^ 53 :: rat" and ?u = "2 * bk_capacity b / 2 ^ 53"
  have "fst (grants (t # ts) b) = fst (grants ts b') + of_bool ok" "snd (grants (t # ts) b) = snd (grants ts b')"
    by (simp_all add: c split_beta)
  moreover have "bk_rate b * (?l - t) * ?C + bk_rate b * (t - bk_refilled b) * ?C = bk_rate b * (?l - bk_refilled b) * ?C"
    by (rule split_span)
  moreover have "of_nat (length (t # ts)) * ?u = of_nat (length ts) * ?u + ?u" by (simp only: list.size of_nat_Suc of_nat_add distrib_right mult_1)
  moreover have "of_nat (fst (grants ts b')) + bk_tokens (snd (grants ts b'))
      \<le> bk_tokens b' + bk_rate b * (?l - t) * ?C + of_nat (length ts) * ?u"
    using ih b'(2-4) by simp
  moreover have "last (bk_refilled b # t # ts) = ?l" by simp
  ultimately show ?case using ih b'(5) by (simp only: of_nat_add of_nat_of_bool simp_thms)
qed simp

text \<open>C33. The limiter limits the rate: from a full bucket of a representable capacity on, however often it is asked in a
  span of time, the number of tokens given out is at most the capacity plus the rate times the span, up to the rounding
  of binary64 (three units in the last place of the refills, and two of the capacity per request), and the amount of
  tokens stays between zero and the capacity.\<close>

theorem rate_is_limited:
  assumes "fl capacity = capacity" and "0 \<le> capacity" and "0 \<le> rate" and "sorted (t0 # ts)"
  shows "of_nat (fst (grants ts (new_bucket t0 capacity rate)))
      \<le> capacity + rate * (last (t0 # ts) - t0) * (1 + 3 / 2 ^ 53) + of_nat (length ts) * (2 * capacity / 2 ^ 53)
    \<and> 0 \<le> bk_tokens (snd (grants ts (new_bucket t0 capacity rate)))
    \<and> bk_tokens (snd (grants ts (new_bucket t0 capacity rate))) \<le> bk_capacity (snd (grants ts (new_bucket t0 capacity rate)))"
proof -
  have "bucket_ok (new_bucket t0 capacity rate)" using assms by (simp add: bucket_ok_def new_bucket_def)
  then have "bucket_ok (snd (grants ts (new_bucket t0 capacity rate)))
    \<and> of_nat (fst (grants ts (new_bucket t0 capacity rate))) + bk_tokens (snd (grants ts (new_bucket t0 capacity rate)))
      \<le> capacity + rate * (last (t0 # ts) - t0) * (1 + 3 / 2 ^ 53) + of_nat (length ts) * (2 * capacity / 2 ^ 53)"
    using grants_bound [of "new_bucket t0 capacity rate" ts] assms(4) by (simp add: new_bucket_def)
  then show ?thesis by (simp add: bucket_ok_def)
qed

section \<open>Samples\<close>

definition flaky :: "nat \<Rightarrow> adapter_result \<times> nat" where
  "flaky n = (if n = 0 then Success [] else Failure Timeout, n - 1)"

lemma retries_are_bounded_witness:
  "\<exists>k < 3. retry_call 3 1 flaky (2 :: nat) = (fst (calls flaky k 2), map (\<lambda>i. 1 * 2 ^ i) [0..<k], snd (calls flaky k 2))"
  using retries_are_bounded [of 3 1 flaky 2] by auto

lemma cache_answers_last_stored_witness:
  "case fst (cache_get 10 ''web'' ''acme'' (the (cache_run [Set 0 ''web'' ''acme'' ''x''] (new_cache [] 3600 1)))) of
      None \<Rightarrow> True
    | Some r \<Rightarrow> \<exists>expires. ([(''web'', ''acme'') \<mapsto> (''x'', 1800 :: rat)]) (''web'', ''acme'') = Some (r, expires) \<and> 10 < expires"
proof -
  let ?c = "new_cache [] 3600 1 :: string adapter_cache"
  have run: "cache_run [Set 0 ''web'' ''acme'' ''x''] ?c = Some (the (cache_run [Set 0 ''web'' ''acme'' ''x''] ?c))"
    by (simp add: cache_run_def cache_set_def new_cache_def)
  have "remember ?c (Set 0 ''web'' ''acme'' ''x'') Map.empty = [(''web'', ''acme'') \<mapsto> (''x'', 1800)]"
    by (simp add: ttl_of_def new_cache_def DEFAULT_TTLS_def)
  with cache_answers_last_stored [OF run, where now = 10 and src = "''web''" and key = "''acme''"] show ?thesis by (auto simp del: remember.simps split: option.splits)
qed

definition even_pace :: pace where
  "even_pace = \<lparr>tick = (\<lambda>n. 1/1000), late = (\<lambda>n. 0), jitter = (\<lambda>n. 1/2)\<rparr>"


lemma rate_is_limited_witness:
  "of_nat (fst (grants [0, 0, 1] (new_bucket 0 2 1))) \<le> (2 :: rat) + 1 * 1 * (1 + 3 / 2 ^ 53) + 3 * (2 * 2 / 2 ^ 53)"
  using rate_is_limited [of 2 1 0 "[0, 0, 1]"] by simp

end
