(* ===== verification/Csv.thy ===== *)
theory Csv
  imports Prelude
begin

text \<open>
  Python's \<open>csv.reader\<close> over the lines of a text, in its default dialect: commas, double quotes that may be doubled
  inside a quoted field, and quoted fields that run over several lines. The reader is the state machine of the
  standard library; None is its \<open>csv.Error\<close>.
\<close>

datatype csv_state = StartRecord | StartField | InField | InQuoted | QuoteInQuoted | EatNewline

record csv_machine =
  cm_state :: csv_state
  cm_field :: string
  cm_fields :: "string list"

definition FIELD_LIMIT :: nat where "FIELD_LIMIT = 131072"

definition fresh_record :: csv_machine where
  "fresh_record = \<lparr>cm_state = StartRecord, cm_field = [], cm_fields = []\<rparr>"

definition save_field :: "csv_state \<Rightarrow> csv_machine \<Rightarrow> csv_machine" where
  "save_field s m = \<lparr>cm_state = s, cm_field = [], cm_fields = cm_fields m @ [cm_field m]\<rparr>"

definition add_char :: "csv_state \<Rightarrow> char \<Rightarrow> csv_machine \<Rightarrow> csv_machine option" where
  "add_char s c m = (if FIELD_LIMIT \<le> length (cm_field m) then None
     else Some (m\<lparr>cm_state := s, cm_field := cm_field m @ [c]\<rparr>))"

abbreviation newline_char :: "char \<Rightarrow> bool" where
  "newline_char c \<equiv> c = CHR 0x0A \<or> c = CHR 0x0D"

definition start_field :: "char \<Rightarrow> csv_machine \<Rightarrow> csv_machine option" where
  "start_field c m =
    (if newline_char c then Some (save_field EatNewline m)
     else if c = CHR 0x22 then Some (m\<lparr>cm_state := InQuoted\<rparr>)
     else if c = CHR '','' then Some (save_field StartField m)
     else add_char InField c m)"

definition csv_char :: "char \<Rightarrow> csv_machine \<Rightarrow> csv_machine option" where
  "csv_char c m = (case cm_state m of
       StartRecord \<Rightarrow> if newline_char c then Some (m\<lparr>cm_state := EatNewline\<rparr>) else start_field c m
     | StartField \<Rightarrow> start_field c m
     | InField \<Rightarrow> if newline_char c then Some (save_field EatNewline m)
         else if c = CHR '','' then Some (save_field StartField m) else add_char InField c m
     | InQuoted \<Rightarrow> if c = CHR 0x22 then Some (m\<lparr>cm_state := QuoteInQuoted\<rparr>) else add_char InQuoted c m
     | QuoteInQuoted \<Rightarrow> if c = CHR 0x22 then add_char InQuoted c m
         else if c = CHR '','' then Some (save_field StartField m)
         else if newline_char c then Some (save_field EatNewline m) else add_char InField c m
     | EatNewline \<Rightarrow> if newline_char c then Some m else None)"

definition csv_end_of_line :: "csv_machine \<Rightarrow> csv_machine" where
  "csv_end_of_line m = (case cm_state m of
       StartRecord \<Rightarrow> m
     | StartField \<Rightarrow> save_field StartRecord m
     | InField \<Rightarrow> save_field StartRecord m
     | InQuoted \<Rightarrow> m
     | QuoteInQuoted \<Rightarrow> save_field StartRecord m
     | EatNewline \<Rightarrow> m\<lparr>cm_state := StartRecord\<rparr>)"

definition csv_leftover :: "csv_machine \<Rightarrow> string list list" where
  \<comment> \<open>the lines are used up inside a record\<close>
  "csv_leftover m = (if cm_field m \<noteq> [] \<or> cm_state m = InQuoted then [cm_fields (save_field StartRecord m)] else [])"

fun csv_from :: "(char \<Rightarrow> string \<Rightarrow> bool) \<Rightarrow> bool \<Rightarrow> csv_machine \<Rightarrow> string \<Rightarrow> string list list option" where
  \<comment> \<open>\<open>ends\<close> tells of a character and what follows it whether it ends a line; the flag, that the current line has begun\<close>
  "csv_from ends begun m [] =
    (if \<not> begun then Some (csv_leftover m)
     else let m = csv_end_of_line m in
       if cm_state m = StartRecord then Some [cm_fields m] else Some (csv_leftover m))"
| "csv_from ends begun m (c # cs) = (case csv_char c m of
       None \<Rightarrow> None
     | Some m \<Rightarrow>
         if \<not> ends c cs then csv_from ends True m cs
         else let m = csv_end_of_line m in
           if cm_state m = StartRecord then map_option ((#) (cm_fields m)) (csv_from ends False fresh_record cs)
           else csv_from ends False m cs)"

definition line_feed :: "char \<Rightarrow> string \<Rightarrow> bool" where
  \<comment> \<open>the lines of an \<open>io.StringIO\<close>\<close>
  "line_feed c rest = (c = CHR 0x0A)"

definition any_line_end :: "char \<Rightarrow> string \<Rightarrow> bool" where
  \<comment> \<open>the lines of a text file opened with \<open>newline=""\<close>\<close>
  "any_line_end c rest = (c = CHR 0x0A \<or> c = CHR 0x0D \<and> (rest = [] \<or> hd rest \<noteq> CHR 0x0A))"

definition csv_reader :: "string \<Rightarrow> string list list option" where
  "csv_reader text = csv_from line_feed False fresh_record text"

definition csv_file_reader :: "string \<Rightarrow> string list list option" where
  "csv_file_reader text = csv_from any_line_end False fresh_record text"

text \<open>\<open>csv.DictReader\<close>: the first row names the columns, a cell missing at the end of a row is None, blank rows are
  passed over; where two columns have one name the later one is read.\<close>

type_synonym cells = "(string \<times> string option) list"

definition dict_row :: "string list \<Rightarrow> string list \<Rightarrow> cells" where
  "dict_row names row = rev (zip names (map Some row @ replicate (length names - length row) None))"

definition dict_rows :: "string list list \<Rightarrow> string list \<times> cells list" where
  "dict_rows rows = (case rows of [] \<Rightarrow> ([], []) | names # rest \<Rightarrow> (names, map (dict_row names) (filter (\<lambda>r. r \<noteq> []) rest)))"

definition dict_reader :: "string \<Rightarrow> (string list \<times> cells list) option" where
  "dict_reader text = map_option dict_rows (csv_reader text)"

section \<open>Quoted fields are read back\<close>

definition double_quotes :: "string \<Rightarrow> string" where
  "double_quotes s = concat (map (\<lambda>c. if c = CHR 0x22 then [c, c] else [c]) s)"

definition quote_field :: "string \<Rightarrow> string" where
  "quote_field s = CHR 0x22 # double_quotes s @ [CHR 0x22]"

definition quote_row :: "string list \<Rightarrow> string" where
  "quote_row fs = str_join '','' (map quote_field fs) @ [CHR 0x0A]"

text \<open>What the reader needs of the lines it is given: they end only at line breaks, and at every line feed.\<close>

locale csv_lines =
  fixes ends :: "char \<Rightarrow> string \<Rightarrow> bool"
  assumes breaks: "ends c cs \<Longrightarrow> newline_char c"
    and feeds: "ends (CHR 0x0A) cs"
begin

lemma inside_line [simp]: "\<not> ends (CHR 0x22) cs" "\<not> ends (CHR '','') cs"
  using breaks by auto

lemma csv_inside:
  assumes "cm_state m = InQuoted" and "length (cm_field m) + length s \<le> FIELD_LIMIT"
  shows "csv_from ends begun m (double_quotes s @ CHR 0x22 # cs)
    = csv_from ends True (m\<lparr>cm_state := QuoteInQuoted, cm_field := cm_field m @ s\<rparr>) cs"
  using assms
proof (induction s arbitrary: m begun)
  case Nil
  then show ?case by (simp add: double_quotes_def csv_char_def)
next
  case (Cons c s)
  let ?m = "m\<lparr>cm_field := cm_field m @ [c]\<rparr>"
  have small: "\<not> FIELD_LIMIT \<le> length (cm_field m)" using Cons.prems(2) by simp
  have m: "m\<lparr>cm_state := InQuoted\<rparr> = m" using Cons.prems(1) by simp
  have same: "m\<lparr>cm_state := InQuoted, cm_field := x\<rparr> = m\<lparr>cm_field := x\<rparr>" for x
    using Cons.prems(1) by simp
  have step: "csv_from ends begun m (double_quotes (c # s) @ CHR 0x22 # cs) = csv_from ends b ?m (double_quotes s @ CHR 0x22 # cs)"
    if "b = (\<not> ends c (double_quotes s @ CHR 0x22 # cs))" for b
    using Cons.prems(1) small m that
    by (cases "c = CHR 0x22"; cases "c = CHR 0x0A")
      (auto simp: double_quotes_def csv_char_def add_char_def csv_end_of_line_def Let_def same)
  show ?case using Cons.IH [of ?m] Cons.prems by (simp add: step [OF refl])
qed

lemma csv_quoted_comma:
  assumes "cm_state m \<in> {StartRecord, StartField}" and "cm_field m = []" and "length s \<le> FIELD_LIMIT"
  shows "csv_from ends begun m (quote_field s @ CHR '','' # cs) =
    csv_from ends True \<lparr>cm_state = StartField, cm_field = [], cm_fields = cm_fields m @ [s]\<rparr> cs"
proof -
  have "csv_from ends begun m (quote_field s @ CHR '','' # cs) =
      csv_from ends True (m\<lparr>cm_state := InQuoted\<rparr>) (double_quotes s @ CHR 0x22 # CHR '','' # cs)"
    using assms(1) by (auto simp: quote_field_def csv_char_def start_field_def)
  then show ?thesis using csv_inside [of "m\<lparr>cm_state := InQuoted\<rparr>" s True] assms(2,3)
    by (simp add: csv_char_def save_field_def)
qed

lemma csv_quoted_end:
  assumes "cm_state m \<in> {StartRecord, StartField}" and "cm_field m = []" and "length s \<le> FIELD_LIMIT"
  shows "csv_from ends begun m (quote_field s @ CHR 0x0A # cs) =
    map_option ((#) (cm_fields m @ [s])) (csv_from ends False fresh_record cs)"
proof -
  have "csv_from ends begun m (quote_field s @ CHR 0x0A # cs) =
      csv_from ends True (m\<lparr>cm_state := InQuoted\<rparr>) (double_quotes s @ CHR 0x22 # CHR 0x0A # cs)"
    using assms(1) by (auto simp: quote_field_def csv_char_def start_field_def)
  then show ?thesis using csv_inside [of "m\<lparr>cm_state := InQuoted\<rparr>" s True] assms(2,3)
    by (simp add: csv_char_def save_field_def csv_end_of_line_def Let_def feeds)
qed

lemma csv_quoted_row:
  assumes "fs \<noteq> []" and "cm_state m \<in> {StartRecord, StartField}" and "cm_field m = []"
    and "list_all (\<lambda>s. length s \<le> FIELD_LIMIT) fs"
  shows "csv_from ends begun m (quote_row fs @ cs) = map_option ((#) (cm_fields m @ fs)) (csv_from ends False fresh_record cs)"
  using assms
proof (induction fs arbitrary: m begun)
  case (Cons s fs)
  show ?case
  proof (cases fs)
    case Nil
    then show ?thesis using csv_quoted_end [of m s begun cs] Cons.prems by (simp add: quote_row_def str_join_def)
  next
    case more: (Cons t ts)
    let ?m = "\<lparr>cm_state = StartField, cm_field = [], cm_fields = cm_fields m @ [s]\<rparr>"
    have "quote_row (s # fs) @ cs = quote_field s @ CHR '','' # quote_row fs @ cs"
      by (simp add: quote_row_def str_join_def more)
    then show ?thesis
      using csv_quoted_comma [of m s begun "quote_row fs @ cs"] Cons.IH [of ?m True] Cons.prems more by simp
  qed
qed simp

lemma quoted_rows_read:
  assumes "list_all (\<lambda>fs. fs \<noteq> [] \<and> list_all (\<lambda>s. length s \<le> FIELD_LIMIT) fs) rows"
  shows "csv_from ends False fresh_record (concat (map quote_row rows)) = Some rows"
  using assms
proof (induction rows)
  case Nil
  then show ?case by (simp add: csv_leftover_def fresh_record_def)
next
  case (Cons fs rows)
  then show ?case
    using csv_quoted_row [of fs fresh_record False "concat (map quote_row rows)"]
    by (simp add: fresh_record_def)
qed

end

interpretation string_lines: csv_lines line_feed
  by unfold_locales (simp_all add: line_feed_def)

interpretation file_lines: csv_lines any_line_end
  by unfold_locales (auto simp: any_line_end_def)

lemma csv_reads_quoted_rows:
  assumes "list_all (\<lambda>fs. fs \<noteq> [] \<and> list_all (\<lambda>s. length s \<le> FIELD_LIMIT) fs) rows"
  shows "csv_reader (concat (map quote_row rows)) = Some rows" and "csv_file_reader (concat (map quote_row rows)) = Some rows"
  using string_lines.quoted_rows_read [OF assms] file_lines.quoted_rows_read [OF assms]
  by (simp_all add: csv_reader_def csv_file_reader_def)

end
