(* ===== verification/Person_Lists.thy ===== *)
theory Person_Lists
  imports Csv Patterns Kyb_Evidence Monitoring
begin

text \<open>
  Reading the published sanctions lists: the SDN file of \<open>app/lists/ofac.py\<close> and the four parsers of
  \<open>app/lists/persons.py\<close>, which turn each list's format into person records of one shape. An XML document is the
  element tree \<open>xml.etree\<close> makes of it; None is an exception, which rejects the whole file.
\<close>

section \<open>Person records\<close>

record name_entry =
  ne_name :: string
  ne_kind :: string
  ne_script :: "string option"
  ne_quality :: "string option"
  ne_language :: "string option"

record listed_person =
  p_source :: string
  p_entry :: string
  p_primary :: string
  p_names :: "name_entry list"
  p_dobs :: "dob list"
  p_pobs :: "string list"
  p_nationalities :: "string list"
  p_documents :: "document list"
  p_gender :: "string option"
  p_program :: "string option"

definition new_person :: "string \<Rightarrow> string \<Rightarrow> string \<Rightarrow> string option \<Rightarrow> string option \<Rightarrow> listed_person" where
  "new_person src entry primary gender program = \<lparr>p_source = src, p_entry = entry, p_primary = primary, p_names = [],
     p_dobs = [], p_pobs = [], p_nationalities = [], p_documents = [], p_gender = gender, p_program = program\<rparr>"

definition name_of :: "string \<Rightarrow> string \<Rightarrow> name_entry" where
  "name_of name kind = \<lparr>ne_name = name, ne_kind = kind, ne_script = None, ne_quality = None, ne_language = None\<rparr>"

definition some_text :: "string \<Rightarrow> string option" where
  \<comment> \<open>\<open>s or None\<close>\<close>
  "some_text s = (if s = [] then None else Some s)"

definition add_unique :: "'a option \<Rightarrow> 'a list \<Rightarrow> 'a list" where
  "add_unique value items = (case value of None \<Rightarrow> items | Some v \<Rightarrow> if v \<in> set items then items else items @ [v])"

abbreviation add_name :: "name_entry \<Rightarrow> listed_person \<Rightarrow> listed_person" where
  "add_name n r \<equiv> r\<lparr>p_names := add_unique (Some n) (p_names r)\<rparr>"

abbreviation add_dob :: "dob option \<Rightarrow> listed_person \<Rightarrow> listed_person" where
  "add_dob d r \<equiv> r\<lparr>p_dobs := add_unique d (p_dobs r)\<rparr>"

abbreviation add_pob :: "string \<Rightarrow> listed_person \<Rightarrow> listed_person" where
  "add_pob s r \<equiv> r\<lparr>p_pobs := add_unique (some_text s) (p_pobs r)\<rparr>"

abbreviation add_nationality :: "string \<Rightarrow> listed_person \<Rightarrow> listed_person" where
  "add_nationality s r \<equiv> r\<lparr>p_nationalities := add_unique (some_text s) (p_nationalities r)\<rparr>"

abbreviation add_document :: "document option \<Rightarrow> listed_person \<Rightarrow> listed_person" where
  "add_document d r \<equiv> r\<lparr>p_documents := add_unique d (p_documents r)\<rparr>"

text \<open>The row \<open>store_records\<close> makes of a record, once it is given its identifier.\<close>

definition person_row :: "listed_person \<Rightarrow> string \<Rightarrow> watch_row" where
  "person_row r i = \<lparr>wr_record = \<lparr>rec_id = i, rec_names = map ne_name (p_names r), rec_dobs = p_dobs r, rec_pobs = p_pobs r,
       rec_nationalities = p_nationalities r, rec_documents = p_documents r\<rparr>,
     wr_snapshot = [], wr_source = p_source r, wr_entry = p_entry r, wr_primary = p_primary r, wr_program = p_program r\<rparr>"

section \<open>The SDN file\<close>

record sdn_entry =
  sdn_id :: string
  sdn_name :: string
  sdn_type :: "string option"
  sdn_program :: "string option"
  sdn_remarks :: "string option"

definition sdn_field :: "string list \<Rightarrow> nat \<Rightarrow> string option" where
  "sdn_field row index =
    (if length row \<le> index then None
     else let value = str_strip (row ! index) in if value \<in> {[], ''-0-''} then None else Some value)"

definition sdn_row :: "string list \<Rightarrow> sdn_entry option" where
  "sdn_row row =
    (if length row < 2 then None
     else let ent_num = str_strip (row ! 0); name = str_strip (row ! 1)
       in if name = [] \<or> str_upper name = ''SDN_NAME'' then None
          else Some \<lparr>sdn_id = ent_num, sdn_name = name, sdn_type = sdn_field row 2, sdn_program = sdn_field row 3,
                     sdn_remarks = sdn_field row 11\<rparr>)"

definition parse_sdn_csv :: "string \<Rightarrow> sdn_entry list option" where
  "parse_sdn_csv csv_text = map_option (List.map_filter sdn_row) (csv_reader csv_text)"

definition load_sdn :: "'c screening_env \<Rightarrow> (string \<Rightarrow> string) \<Rightarrow> string option \<Rightarrow> 'c screening_db
    \<Rightarrow> ((list_snapshot \<times> sdn_entry list) \<times> 'c screening_db) option" where
  "load_sdn E digest fetched db = do {
     text \<leftarrow> fetched;
     entries \<leftarrow> parse_sdn_csv text;
     let (snap, db) = record_snapshot E ''ofac_sdn'' (digest text) (length entries) db;
     Some ((snap, entries), db)
   }"

section \<open>OFAC individuals\<close>

definition MONTHS :: "string list" where
  "MONTHS = [''jan'', ''feb'', ''mar'', ''apr'', ''may'', ''jun'', ''jul'', ''aug'', ''sep'', ''oct'', ''nov'', ''dec'']"

definition month_number :: "string \<Rightarrow> int option" where
  "month_number name = map_option (\<lambda>i. int i + 1) (find (\<lambda>i. MONTHS ! i = str_lower name) [0..<12])"

definition partition_at :: "char \<Rightarrow> string \<Rightarrow> string \<times> string" where
  "partition_at c s = (takeWhile (\<lambda>x. x \<noteq> c) s, tl (dropWhile (\<lambda>x. x \<noteq> c) s))"

definition ofac_reorder :: "string \<Rightarrow> string" where
  "ofac_reorder name =
    (if CHR '','' \<notin> set name then str_strip name
     else let (last, first) = partition_at CHR '','' name
       in str_strip (str_strip first @ '' '' @ str_strip last))"

definition four_digit_year :: "string option \<Rightarrow> int option" where
  "four_digit_year value = (let v = str_strip (text_or value '''') in
     if length v = 4 \<and> all_digits v then Some (digits_int v) else None)"

definition pad :: "nat \<Rightarrow> int \<Rightarrow> string" where
  "pad w n = (let s = nat_digits (nat n) in replicate (w - length s) CHR ''0'' @ s)"

definition isoformat :: "int \<Rightarrow> int \<Rightarrow> int \<Rightarrow> string option" where
  \<comment> \<open>\<open>date(y, m, d).isoformat()\<close>, None when there is no such day\<close>
  "isoformat y m d = map_option (\<lambda>_. pad 4 y @ ''-'' @ pad 2 m @ ''-'' @ pad 2 d) (ymd_ordinal y m d)"

definition is_letter :: "char \<Rightarrow> bool" where
  "is_letter c = (is_lower c \<or> is_upper c)"

abbreviation this_char :: "char \<Rightarrow> item" where
  "this_char c \<equiv> One (\<lambda>x. x = c)"

abbreviation year_item :: item where
  "year_item \<equiv> Between is_digit 4 4"

definition RANGE_FORM :: "item list" where
  "RANGE_FORM = [year_item, Many is_space 1, this_char CHR ''t'', this_char CHR ''o'', Many is_space 1, year_item, Stop]"

definition DATE_FORM :: "item list" where
  "DATE_FORM = [Between is_digit 1 2, Many is_space 1, Between is_letter 3 3, Many is_space 1, year_item, Stop]"

definition MONTH_FORM :: "item list" where
  "MONTH_FORM = [Between is_letter 3 3, Many is_space 1, year_item, Stop]"

definition YEAR_FORM :: "item list" where
  "YEAR_FORM = [year_item, Stop]"

definition full_dob :: "int \<Rightarrow> int \<Rightarrow> int \<Rightarrow> dob" where
  \<comment> \<open>an impossible day keeps the year and the month\<close>
  "full_dob y m d = (case isoformat y m d of Some s \<Rightarrow> DobDate s False | None \<Rightarrow> DobYear y (Some m) False)"

definition date_dob :: "string \<Rightarrow> dob option" where
  "date_dob text = (case match_items DATE_FORM [] text of
       Some [day, name, year] \<Rightarrow> map_option (\<lambda>m. full_dob (digits_int year) m (digits_int day)) (month_number name)
     | _ \<Rightarrow> None)"

definition month_dob :: "bool \<Rightarrow> string \<Rightarrow> dob option" where
  "month_dob circa text = (case match_items MONTH_FORM [] text of
       Some [name, year] \<Rightarrow> map_option (\<lambda>m. DobYear (digits_int year) (Some m) circa) (month_number name)
     | _ \<Rightarrow> None)"

definition parse_ofac_dob :: "string \<Rightarrow> dob option" where
  "parse_ofac_dob text =
    (let text = str_strip text; circa = prefix ''circa '' (str_lower text);
         text = (if circa then str_strip (drop 6 text) else text)
     in case match_items RANGE_FORM [] text of
          Some [lo, hi] \<Rightarrow> Some (DobRange (digits_int lo) (digits_int hi) False)
        | _ \<Rightarrow> (case date_dob text of Some d \<Rightarrow> Some d
        | None \<Rightarrow> (case month_dob circa text of Some d \<Rightarrow> Some d
        | None \<Rightarrow> (case match_items YEAR_FORM [] text of
            Some [year] \<Rightarrow> Some (DobYear (digits_int year) None circa)
          | _ \<Rightarrow> None))))"

definition split_run :: "(char \<Rightarrow> bool) \<Rightarrow> string \<Rightarrow> string \<times> string" where
  "split_run P s = (takeWhile P s, dropWhile P s)"

definition ofac_country :: "string \<Rightarrow> string option" where
  \<comment> \<open>\<open>\s+\(([^)]+)\)\<close>\<close>
  "ofac_country s =
    (let (gap, rest) = split_run is_space s; (inner, rest2) = split_run (\<lambda>c. c \<noteq> CHR '')'') (tl rest)
     in if gap \<noteq> [] \<and> rest \<noteq> [] \<and> hd rest = CHR ''('' \<and> inner \<noteq> [] \<and> rest2 \<noteq> [] then Some inner else None)"

definition rstrip_chars :: "string \<Rightarrow> string \<Rightarrow> string" where
  "rstrip_chars cs s = rev (dropWhile (\<lambda>c. c \<in> set cs) (rev s))"

definition ofac_document :: "string \<Rightarrow> string \<Rightarrow> string \<Rightarrow> document option" where
  "ofac_document part start kind =
    (let (gap, rest) = split_run is_space (drop (length start) part); (number, rest2) = split_run (\<lambda>c. \<not> is_space c) rest
     in if \<not> prefix start part \<or> gap = [] \<or> number = [] then None
        else Some \<lparr>doc_type = Some kind, doc_number = Some (rstrip_chars ''.,'' number), doc_country = ofac_country rest2\<rparr>)"

fun after_blanks :: "nat \<Rightarrow> string \<Rightarrow> string" where
  \<comment> \<open>the last piece of \<open>s.split(" ", n)\<close>\<close>
  "after_blanks 0 s = s"
| "after_blanks (Suc n) s = (if CHR '' '' \<in> set s then after_blanks n (snd (partition_at CHR '' '' s)) else s)"

definition ofac_alias :: "string \<Rightarrow> string option" where
  \<comment> \<open>\<open>[af]\.k\.a\.\s+'([^']+)'\<close>\<close>
  "ofac_alias part =
    (let (gap, rest) = split_run is_space (drop 6 part); (inner, rest2) = split_run (\<lambda>c. c \<noteq> CHR 0x27) (tl rest)
     in if take 6 part \<in> {''a.k.a.'', ''f.k.a.''} \<and> gap \<noteq> [] \<and> rest \<noteq> [] \<and> hd rest = CHR 0x27 \<and> inner \<noteq> [] \<and> rest2 \<noteq> []
        then Some inner else None)"

definition apply_ofac_remark :: "string \<Rightarrow> listed_person \<Rightarrow> listed_person" where
  "apply_ofac_remark part r =
    (let lowered = str_lower part; starts = (\<lambda>p. prefix p lowered)
     in if starts ''dob '' then add_dob (parse_ofac_dob (drop 3 part)) r
        else if starts ''alt. dob '' then add_dob (parse_ofac_dob (drop 8 part)) r
        else if starts ''pob '' then add_pob (str_strip (drop 4 part)) r
        else if list_ex starts [''alt. nationality '', ''nationality '', ''alt. citizen '', ''citizen '']
        then add_nationality (str_strip (after_blanks (if starts ''alt.'' then 2 else 1) part)) r
        else if starts ''gender '' then r\<lparr>p_gender := Some (str_strip (drop 7 part))\<rparr>
        else if starts ''passport '' then add_document (ofac_document part ''Passport'' ''passport'') r
        else if starts ''national id no. '' then add_document (ofac_document part ''National ID No.'' ''national_id'') r
        else if starts ''a.k.a. '' \<or> starts ''f.k.a. ''
        then (case ofac_alias part of
                None \<Rightarrow> r
              | Some name \<Rightarrow> add_name (name_of (ofac_reorder name) (if prefix ''f'' lowered then ''fka'' else ''aka'')) r)
        else r)"

definition remark_parts :: "string option \<Rightarrow> string list" where
  "remark_parts remarks = filter (\<lambda>p. p \<noteq> [])
     (map (\<lambda>p. str_strip (rstrip_chars ''.'' (str_strip p))) (split_on CHR '';'' (text_or remarks '''')))"

definition ofac_person :: "sdn_entry \<Rightarrow> listed_person" where
  "ofac_person entry =
    (let primary = ofac_reorder (sdn_name entry);
         r = new_person ''ofac_sdn'' (sdn_id entry) primary None (sdn_program entry);
         r = r\<lparr>p_names := [name_of (sdn_name entry) ''primary'']\<rparr>;
         r = add_name (name_of primary ''primary'') r
     in fold apply_ofac_remark (remark_parts (sdn_remarks entry)) r)"

definition is_individual :: "sdn_entry \<Rightarrow> bool" where
  "is_individual entry = (str_lower (text_or (sdn_type entry) '''') = ''individual'')"

definition parse_ofac_individuals :: "string \<Rightarrow> listed_person list option" where
  "parse_ofac_individuals csv_text = map_option (\<lambda>es. map ofac_person (filter is_individual es)) (parse_sdn_csv csv_text)"

end
