(* ===== verification/Foreign_Lists.thy ===== *)
theory Foreign_Lists
  imports Person_Lists
begin

text \<open>
  The UN, EU and UK parsers of \<open>app/lists/persons.py\<close> and the registry of sources of \<open>app/lists/ingest.py\<close>. An
  element of an XML document carries its tag, with its name space, its attributes, the text before its first child
  and its children; \<open>parse_xml\<close> stands for the XML parser, None for a document it refuses.
\<close>

datatype xml = Elem (tag: string) (attributes: "(string \<times> string) list") (inner_text: "string option") (children: "xml list")

fun elements :: "xml \<Rightarrow> xml list" where
  \<comment> \<open>\<open>iter\<close>: the element and all below it, in document order\<close>
  "elements (Elem t as s cs) = Elem t as s cs # concat (map elements cs)"

definition findall :: "string \<Rightarrow> xml \<Rightarrow> xml list" where
  "findall t el = filter (\<lambda>c. tag c = t) (children el)"

definition attribute_of :: "string \<Rightarrow> xml \<Rightarrow> string option" where
  "attribute_of k el = map_of (attributes el) k"

definition filled :: "string \<Rightarrow> xml \<Rightarrow> string option" where
  \<comment> \<open>\<open>el.get(k) or None\<close>\<close>
  "filled k el = Option.bind (attribute_of k el) some_text"

definition child_text :: "xml \<Rightarrow> string \<Rightarrow> string option" where
  "child_text el t = (case findall t el of
       [] \<Rightarrow> None
     | child # _ \<Rightarrow> some_text (str_strip (text_or (inner_text child) '''')))"

definition present :: "'a option list \<Rightarrow> 'a list" where
  \<comment> \<open>those that are not None\<close>
  "present xs = List.map_filter id xs"

definition positive_year :: "string option \<Rightarrow> int option" where
  \<comment> \<open>a year the code's \<open>if _year(v)\<close> accepts\<close>
  "positive_year v = (case four_digit_year v of Some y \<Rightarrow> if y = 0 then None else Some y | None \<Rightarrow> None)"

fun with_circa :: "dob \<Rightarrow> dob" where
  "with_circa (DobDate s _) = DobDate s True"
| "with_circa (DobRange lo hi _) = DobRange lo hi True"
| "with_circa (DobYear y m _) = DobYear y m True"

section \<open>The UN list\<close>

definition UN_DOC_TYPES :: "(string \<times> string) list" where
  "UN_DOC_TYPES = [(''passport'', ''passport''), (''national identification number'', ''national_id''),
     (''national identity card'', ''national_id'')]"

definition year_range :: "string option \<Rightarrow> string option \<Rightarrow> dob option" where
  "year_range lo hi = (case (positive_year lo, positive_year hi) of
       (Some a, Some b) \<Rightarrow> Some (DobRange a b False) | _ \<Rightarrow> None)"

definition un_dob :: "xml \<Rightarrow> dob option" where
  "un_dob el =
    (let kind = str_upper (text_or (child_text el ''TYPE_OF_DATE'') '''')
     in if kind = ''BETWEEN'' then year_range (child_text el ''FROM_YEAR'') (child_text el ''TO_YEAR'')
        else let value = (case child_text el ''DATE'' of
                 Some d \<Rightarrow> Some (DobDate (take 10 d) False)
               | None \<Rightarrow> map_option (\<lambda>y. DobYear y None False) (positive_year (child_text el ''YEAR'')))
          in if kind = ''APPROXIMATELY'' then map_option with_circa value else value)"

definition un_document :: "xml \<Rightarrow> document option" where
  "un_document el = map_option (\<lambda>number.
     let raw = str_lower (text_or (child_text el ''TYPE_OF_DOCUMENT'') ''other'')
     in \<lparr>doc_type = Some (case map_of UN_DOC_TYPES raw of Some t \<Rightarrow> t | None \<Rightarrow> map (\<lambda>c. if c = CHR '' '' then CHR ''_'' else c) raw),
         doc_number = Some number,
         doc_country = opt_or (child_text el ''ISSUING_COUNTRY'') (child_text el ''COUNTRY_OF_ISSUE'')\<rparr>)
   (child_text el ''NUMBER'')"

definition un_alias :: "xml \<Rightarrow> listed_person \<Rightarrow> listed_person" where
  "un_alias el r = (case child_text el ''ALIAS_NAME'' of
       None \<Rightarrow> r
     | Some name \<Rightarrow> add_name ((name_of name ''aka'')
         \<lparr>ne_quality := some_text (str_lower (text_or (child_text el ''QUALITY'') ''''))\<rparr>) r)"

definition original_name :: "string option \<Rightarrow> name_entry list" where
  "original_name value = (case value of
       None \<Rightarrow> [] | Some v \<Rightarrow> [(name_of v ''original'')\<lparr>ne_script := Some ''original''\<rparr>])"

definition place_of :: "string option list \<Rightarrow> string" where
  "place_of parts = str_join '', '' (present parts)"

definition un_person :: "xml \<Rightarrow> listed_person" where
  "un_person ind =
    (let primary = str_join '' '' (present (map (child_text ind) [''FIRST_NAME'', ''SECOND_NAME'', ''THIRD_NAME'', ''FOURTH_NAME'']));
         r = new_person ''un_consolidated'' (text_or (child_text ind ''DATAID'') '''') primary (child_text ind ''GENDER'')
           (child_text ind ''UN_LIST_TYPE'');
         r = r\<lparr>p_names := name_of primary ''primary'' # original_name (child_text ind ''NAME_ORIGINAL_SCRIPT'')\<rparr>;
         r = fold un_alias (findall ''INDIVIDUAL_ALIAS'' ind) r;
         r = fold (\<lambda>el. add_dob (un_dob el)) (findall ''INDIVIDUAL_DATE_OF_BIRTH'' ind) r;
         r = fold (\<lambda>el. add_pob (place_of [child_text el ''CITY'', child_text el ''COUNTRY''])) (findall ''INDIVIDUAL_PLACE_OF_BIRTH'' ind) r;
         r = fold (\<lambda>el. add_nationality (str_strip (text_or (inner_text el) '''')))
           (concat (map (findall ''VALUE'') (findall ''NATIONALITY'' ind))) r
     in fold (\<lambda>el. add_document (un_document el)) (findall ''INDIVIDUAL_DOCUMENT'' ind) r)"

definition parse_un_individuals :: "(string \<Rightarrow> xml option) \<Rightarrow> string \<Rightarrow> listed_person list option" where
  "parse_un_individuals parse_xml xml_text =
     map_option (\<lambda>root. map un_person (filter (\<lambda>el. tag el = ''INDIVIDUAL'') (elements root))) (parse_xml xml_text)"

section \<open>The EU list\<close>

definition EU_NS :: string where "EU_NS = ''http://eu.europa.ec/fpi/fsd/export''"

definition eu_tag :: "string \<Rightarrow> string" where
  "eu_tag name = ''{'' @ EU_NS @ ''}'' @ name"

definition EU_DOC_TYPES :: "(string \<times> string) list" where
  "EU_DOC_TYPES = [(''passport'', ''passport''), (''id'', ''national_id''), (''fiscalcode'', ''tax_id''), (''taxid'', ''tax_id'')]"

definition eu_country :: "string option \<Rightarrow> string option" where
  "eu_country code = (if truthy code \<and> code \<noteq> Some ''00'' then code else None)"

definition eu_month :: "xml \<Rightarrow> int option" where
  "eu_month bd = (let m = text_or (attribute_of ''monthOfYear'' bd) ''''
     in if m \<noteq> [] \<and> all_digits m \<and> 1 \<le> digits_int m \<and> digits_int m \<le> 12 then Some (digits_int m) else None)"

definition eu_dob :: "xml \<Rightarrow> dob option" where
  "eu_dob bd =
    (let range = year_range (attribute_of ''yearRangeFrom'' bd) (attribute_of ''yearRangeTo'' bd);
         value = (case filled ''birthdate'' bd of
             Some d \<Rightarrow> Some (DobDate (take 10 d) False)
           | None \<Rightarrow> if range \<noteq> None then range
             else map_option (\<lambda>y. DobYear y (eu_month bd) False) (positive_year (attribute_of ''year'' bd)))
     in if attribute_of ''circa'' bd = Some ''true'' then map_option with_circa value else value)"

definition eu_birth :: "xml \<Rightarrow> listed_person \<Rightarrow> listed_person" where
  "eu_birth bd r = add_pob (place_of [filled ''city'' bd, eu_country (attribute_of ''countryIso2Code'' bd)]) (add_dob (eu_dob bd) r)"

definition eu_document :: "xml \<Rightarrow> document option" where
  "eu_document el = map_option (\<lambda>number.
     let code = str_lower (text_or (attribute_of ''identificationTypeCode'' el) ''other'')
     in \<lparr>doc_type = Some (case map_of EU_DOC_TYPES code of Some t \<Rightarrow> t | None \<Rightarrow> code), doc_number = Some number,
         doc_country = eu_country (attribute_of ''countryIso2Code'' el)\<rparr>)
   (filled ''number'' el)"

definition eu_name :: "string \<Rightarrow> xml \<Rightarrow> name_entry" where
  "eu_name kind alias = (name_of (text_or (attribute_of ''wholeName'' alias) '''') kind)
     \<lparr>ne_language := filled ''nameLanguage'' alias,
      ne_quality := (if attribute_of ''strong'' alias = Some ''false'' then Some ''low'' else None)\<rparr>"

definition eu_record :: "xml \<Rightarrow> xml \<Rightarrow> xml list \<Rightarrow> listed_person" where
  \<comment> \<open>\<open>alias\<close> is the first of the usable names\<close>
  "eu_record ent alias others =
    (let programme = (case present (map (filled ''programme'') (findall (eu_tag ''regulation'') ent)) of
         [] \<Rightarrow> None | p # _ \<Rightarrow> Some p);
         r = new_person ''eu_fsf'' (text_or (attribute_of ''logicalId'' ent) '''')
           (text_or (attribute_of ''wholeName'' alias) '''') (filled ''gender'' alias) programme;
         r = fold (\<lambda>a. add_name (eu_name ''aka'' a)) others (add_name (eu_name ''primary'' alias) r);
         r = fold eu_birth (findall (eu_tag ''birthdate'') ent) r;
         r = fold (\<lambda>el. add_nationality (text_or (eu_country (attribute_of ''countryIso2Code'' el)) ''''))
           (findall (eu_tag ''citizenship'') ent) r
     in fold (\<lambda>el. add_document (eu_document el)) (findall (eu_tag ''identification'') ent) r)"

definition eu_person :: "xml \<Rightarrow> listed_person option" where
  "eu_person ent =
    (case findall (eu_tag ''subjectType'') ent of
       [] \<Rightarrow> None
     | subject # _ \<Rightarrow>
         if attribute_of ''code'' subject \<noteq> Some ''person'' then None
         else (case filter (\<lambda>a. filled ''wholeName'' a \<noteq> None) (findall (eu_tag ''nameAlias'') ent) of
             [] \<Rightarrow> None
           | alias # others \<Rightarrow> Some (eu_record ent alias others)))"

definition parse_eu_persons :: "(string \<Rightarrow> xml option) \<Rightarrow> string \<Rightarrow> listed_person list option" where
  "parse_eu_persons parse_xml xml_text =
     map_option (\<lambda>root. List.map_filter eu_person (findall (eu_tag ''sanctionEntity'') root)) (parse_xml xml_text)"

section \<open>The UK list\<close>

definition UK_ALIAS_KIND :: "(string \<times> string) list" where
  "UK_ALIAS_KIND = [(''primary name'', ''primary''), (''primary name variation'', ''variation''), (''aka'', ''aka''), (''fka'', ''fka'')]"

definition numbered_mark :: "string \<Rightarrow> string option" where
  \<comment> \<open>what follows a leading \<open>\(\d+\)\<close>\<close>
  "numbered_mark s = (let (number, rest) = split_run is_digit (tl s)
     in if s \<noteq> [] \<and> hd s = CHR ''('' \<and> number \<noteq> [] \<and> rest \<noteq> [] \<and> hd rest = CHR '')'' then Some (tl rest) else None)"

lemma numbered_mark_shorter: "numbered_mark s = Some t \<Longrightarrow> length t < length s"
proof -
  assume "numbered_mark s = Some t"
  then have "t = tl (dropWhile is_digit (tl s))" and "s \<noteq> []"
    by (auto simp: numbered_mark_def split_run_def Let_def split: if_splits)
  moreover have "length (dropWhile is_digit (tl s)) \<le> length (tl s)" by (rule length_dropWhile_le)
  ultimately show ?thesis by (cases s) auto
qed

function split_numbered :: "string \<Rightarrow> string \<Rightarrow> string list" where
  "split_numbered acc s = (if s = [] then [rev acc] else case numbered_mark s of
       Some t \<Rightarrow> rev acc # split_numbered [] t
     | None \<Rightarrow> split_numbered (hd s # acc) (tl s))"
  by auto
termination by (relation "measure (length \<circ> snd)") (auto dest: numbered_mark_shorter)

definition uk_numbered :: "string option \<Rightarrow> string list" where
  "uk_numbered value = (let v = str_strip (text_or value '''') in
     if v = [] then [] else if hd v \<noteq> CHR ''('' then [v]
     else filter (\<lambda>p. p \<noteq> []) (map str_strip (split_numbered [] v)))"

definition UK_DATE_FORM :: "item list" where
  "UK_DATE_FORM = [Between is_digit 2 2, this_char CHR ''/'', Between is_digit 2 2, this_char CHR ''/'', year_item, Stop]"

definition uk_dob :: "string \<Rightarrow> dob option" where
  "uk_dob value = (case match_items UK_DATE_FORM [] (str_strip value) of
       Some [d, m, y] \<Rightarrow>
         let day = digits_int d; month = digits_int m; year = digits_int y
         in Some (if month < 1 \<or> 12 < month then DobYear year None False
                  else if day = 0 then DobYear year (Some month) False else full_dob year month day)
     | _ \<Rightarrow> None)"

text \<open>\<open>str.splitlines\<close>: the line breaks of Unicode, in UTF-8.\<close>

definition LINE_BREAKS :: "string list" where
  "LINE_BREAKS = [[CHR 0x0D, CHR 0x0A], [CHR 0x0A], [CHR 0x0D], [CHR 0x0B], [CHR 0x0C], [CHR 0x1C], [CHR 0x1D], [CHR 0x1E],
     [CHR 0xC2, CHR 0x85], [CHR 0xE2, CHR 0x80, CHR 0xA8], [CHR 0xE2, CHR 0x80, CHR 0xA9]]"

function split_lines :: "string \<Rightarrow> string \<Rightarrow> string list" where
  "split_lines acc s = (if s = [] then (if acc = [] then [] else [rev acc])
     else case find (\<lambda>b. prefix b s) LINE_BREAKS of
       Some b \<Rightarrow> rev acc # split_lines [] (drop (length b) s)
     | None \<Rightarrow> split_lines (hd s # acc) (tl s))"
  by auto
termination
  by (relation "measure (length \<circ> snd)") (auto simp: LINE_BREAKS_def split: if_splits)

declare split_numbered.simps [simp del] split_lines.simps [simp del]

fun lstrip_bom :: "string \<Rightarrow> string" where
  "lstrip_bom (a # b # c # s) = (if [a, b, c] = [CHR 0xEF, CHR 0xBB, CHR 0xBF] then lstrip_bom s else a # b # c # s)"
| "lstrip_bom s = s"

definition uk_text :: "string \<Rightarrow> cells \<Rightarrow> string" where
  \<comment> \<open>\<open>(row.get(k) or "")\<close>\<close>
  "uk_text k row = text_or (Option.bind (map_of row k) id) ''''"

definition uk_cell :: "string \<Rightarrow> cells \<Rightarrow> string option" where
  \<comment> \<open>\<open>row.get(k, "").strip()\<close>: a missing cell of a column there is raises\<close>
  "uk_cell k row = (case map_of row k of None \<Rightarrow> Some '''' | Some None \<Rightarrow> None | Some (Some v) \<Rightarrow> Some (str_strip v))"

fun all_some :: "'a option list \<Rightarrow> 'a list option" where
  "all_some [] = Some []"
| "all_some (x # xs) = do {v \<leftarrow> x; vs \<leftarrow> all_some xs; Some (v # vs)}"

definition uk_name :: "cells \<Rightarrow> string option" where
  "uk_name row = do {
     given \<leftarrow> all_some (map (\<lambda>i. uk_cell (''Name '' @ nat_digits i) row) [1..<6]);
     last \<leftarrow> uk_cell ''Name 6'' row;
     Some (str_strip (str_join '' '' (filter (\<lambda>g. g \<noteq> []) given @ [last])))
   }"

definition plain_document :: "string \<Rightarrow> string \<Rightarrow> document" where
  "plain_document kind number = \<lparr>doc_type = Some kind, doc_number = Some number, doc_country = None\<rparr>"

definition uk_row :: "cells \<Rightarrow> string \<Rightarrow> listed_person \<Rightarrow> listed_person" where
  "uk_row row full r =
    (let kind = (case map_of UK_ALIAS_KIND (str_lower (uk_text ''Alias Type'' row)) of Some k \<Rightarrow> k | None \<Rightarrow> ''aka'');
         cell = (\<lambda>k. str_strip (uk_text k row));
         quality = some_text (str_lower (cell ''Alias Quality''));
         r = add_name ((name_of full kind)\<lparr>ne_quality := quality\<rparr>) r;
         r = fold add_name (original_name (some_text (cell ''Name Non-Latin Script''))) r;
         r = fold (\<lambda>d. add_dob (uk_dob d)) (uk_numbered (Some (uk_text ''DOB'' row))) r;
         r = add_pob (place_of [some_text (cell ''Town of Birth''), some_text (cell ''Country of Birth'')]) r;
         r = fold add_nationality (uk_numbered (Some (uk_text ''Nationality'' row))) r;
         r = fold (\<lambda>n. add_document (Some (plain_document ''passport'' n))) (uk_numbered (Some (uk_text ''Passport Number'' row))) r
     in fold (\<lambda>n. add_document (Some (plain_document ''national_id'' n)))
          (uk_numbered (Some (uk_text ''National Identification Number'' row))) r)"

definition primary_first :: "cells list \<Rightarrow> cells list" where
  \<comment> \<open>the stable sort on whether a row is the primary name\<close>
  "primary_first rows = (let p = (\<lambda>row. map_of row ''Alias Type'' = Some (Some ''Primary name''))
     in filter p rows @ filter (Not \<circ> p) rows)"

fun uk_rows :: "cells list \<Rightarrow> listed_person \<Rightarrow> listed_person option" where
  "uk_rows [] r = Some r"
| "uk_rows (row # rows) r = do {full \<leftarrow> uk_name row; uk_rows rows (uk_row row full r)}"

definition uk_person :: "string \<times> cells list \<Rightarrow> listed_person option" where
  "uk_person g = (case g of (group_id, rows) \<Rightarrow> do {
     let sorted_rows = primary_first rows;
     full \<leftarrow> uk_name (hd sorted_rows);
     uk_rows sorted_rows (new_person ''uk_ofsi'' group_id full None (some_text (str_strip (uk_text ''Regime'' (hd sorted_rows)))))
   })"

definition add_to_group :: "string \<Rightarrow> cells \<Rightarrow> (string \<times> cells list) list \<Rightarrow> (string \<times> cells list) list" where
  "add_to_group k row groups = AList.update k (case map_of groups k of None \<Rightarrow> [row] | Some rows \<Rightarrow> rows @ [row]) groups"

fun uk_groups :: "cells list \<Rightarrow> (string \<times> cells list) list \<Rightarrow> (string \<times> cells list) list option" where
  "uk_groups [] groups = Some groups"
| "uk_groups (row # rows) groups =
    (if str_strip (uk_text ''Group Type'' row) \<noteq> ''Individual'' then uk_groups rows groups
     else case map_of row ''Group ID'' of
         Some (Some k) \<Rightarrow> uk_groups rows (add_to_group (str_strip k) row groups)
       | _ \<Rightarrow> None)"

definition uk_lines :: "string \<Rightarrow> string list" where
  "uk_lines csv_text = (case split_lines [] (lstrip_bom csv_text) of
       [] \<Rightarrow> []
     | first # others \<Rightarrow> if prefix ''Last Updated'' first then others else first # others)"

definition parse_uk_individuals :: "string \<Rightarrow> listed_person list option" where
  "parse_uk_individuals csv_text = do {
     (names, rows) \<leftarrow> dict_reader (str_join [CHR 0x0A] (uk_lines csv_text));
     groups \<leftarrow> uk_groups rows [];
     all_some (map uk_person groups)
   }"

section \<open>The sources\<close>

definition SOURCES :: "(string \<Rightarrow> xml option) \<Rightarrow> (string \<times> string \<times> (string \<Rightarrow> listed_person list option)) list" where
  "SOURCES parse_xml =
    [(''ofac_sdn'', ''https://www.treasury.gov/ofac/downloads/sdn.csv'', parse_ofac_individuals),
     (''un_consolidated'', ''https://scsanctions.un.org/resources/xml/en/consolidated.xml'', parse_un_individuals parse_xml),
     (''eu_fsf'', ''https://webgate.ec.europa.eu/fsd/fsf/public/files/xmlFullSanctionsList_1_1/content?token=dG9rZW4tMjAxNw'',
      parse_eu_persons parse_xml),
     (''uk_ofsi'', ''https://ofsistorage.blob.core.windows.net/publishlive/2022format/ConList.csv'', parse_uk_individuals)]"

definition ingest_list :: "'c screening_env \<Rightarrow> (string \<Rightarrow> string) \<Rightarrow> (string \<Rightarrow> xml option) \<Rightarrow> (string \<Rightarrow> string option)
    \<Rightarrow> (string \<Rightarrow> 'c screening_db \<Rightarrow> 'c screening_db option) \<Rightarrow> string \<Rightarrow> 'c screening_db
    \<Rightarrow> (ingest_result \<times> 'c screening_db) option" where
  \<comment> \<open>None also for a source that is not registered\<close>
  "ingest_list E digest parse_xml fetch on_new src db = do {
     (url, parse) \<leftarrow> map_of (SOURCES parse_xml) src;
     ingest_source E digest (\<lambda>text. map_option (map person_row) (parse text)) on_new src (fetch url) db
   }"

end
