(* ===== verification/Person_Laws.thy ===== *)
theory Person_Laws
  imports Foreign_Lists
begin

text \<open>
  What the list parsers promise: the SDN file is read back entry by entry, no individual of it is lost, and every
  record of every list has the shape the scoring relies on.
\<close>

section \<open>The shape of a person record\<close>

fun dob_ok :: "dob \<Rightarrow> bool" where
  "dob_ok (DobDate s _) = True"
| "dob_ok (DobRange lo hi _) = (0 \<le> lo \<and> lo \<le> 9999 \<and> 0 \<le> hi \<and> hi \<le> 9999)"
| "dob_ok (DobYear y m _) = (0 \<le> y \<and> y \<le> 9999 \<and> (case m of None \<Rightarrow> True | Some k \<Rightarrow> 1 \<le> k \<and> k \<le> 12))"

definition well_shaped :: "string \<Rightarrow> listed_person \<Rightarrow> bool" where
  "well_shaped src r = (p_source r = src \<and> distinct (p_names r) \<and> distinct (p_dobs r) \<and> list_all dob_ok (p_dobs r)
     \<and> distinct (p_pobs r) \<and> [] \<notin> set (p_pobs r) \<and> distinct (p_nationalities r) \<and> [] \<notin> set (p_nationalities r)
     \<and> distinct (p_documents r))"

definition good_dob :: "dob option \<Rightarrow> bool" where
  "good_dob d = (case d of None \<Rightarrow> True | Some d \<Rightarrow> dob_ok d)"

named_theorems shape_intros

lemma add_unique_distinct [simp]: "distinct (add_unique v xs) = distinct xs"
  by (auto simp: add_unique_def split: option.splits)

lemma add_unique_all: "list_all P (add_unique v xs) = (list_all P xs \<and> (case v of None \<Rightarrow> True | Some x \<Rightarrow> P x))"
  by (auto simp: add_unique_def list_all_iff split: option.splits)

lemma add_text_nonempty [simp]: "[] \<in> set (add_unique (some_text s) xs) \<longleftrightarrow> [] \<in> set xs"
  by (auto simp: add_unique_def some_text_def split: option.splits)

lemma shaped_name [shape_intros]: "well_shaped src r \<Longrightarrow> well_shaped src (add_name n r)"
  by (simp add: well_shaped_def)

lemma shaped_dob [shape_intros]: "well_shaped src r \<Longrightarrow> good_dob d \<Longrightarrow> well_shaped src (add_dob d r)"
  by (simp add: well_shaped_def add_unique_all good_dob_def)

lemma shaped_pob [shape_intros]: "well_shaped src r \<Longrightarrow> well_shaped src (add_pob s r)"
  by (simp add: well_shaped_def)

lemma shaped_nationality [shape_intros]: "well_shaped src r \<Longrightarrow> well_shaped src (add_nationality s r)"
  by (simp add: well_shaped_def)

lemma shaped_document [shape_intros]: "well_shaped src r \<Longrightarrow> well_shaped src (add_document d r)"
  by (simp add: well_shaped_def)

lemma shaped_gender [shape_intros]: "well_shaped src r \<Longrightarrow> well_shaped src (r\<lparr>p_gender := g\<rparr>)"
  by (simp add: well_shaped_def)

lemma shaped_fold [shape_intros]:
  "well_shaped src r \<Longrightarrow> (\<And>x s. well_shaped src s \<Longrightarrow> well_shaped src (f x s)) \<Longrightarrow> well_shaped src (fold f xs r)"
  by (induction xs arbitrary: r) simp_all

lemma shaped_new: "distinct ns \<Longrightarrow> well_shaped src ((new_person src entry primary gender program)\<lparr>p_names := ns\<rparr>)"
  by (simp add: well_shaped_def new_person_def)

lemma shaped_start [shape_intros]: "well_shaped src (new_person src entry primary gender program)"
  by (simp add: well_shaped_def new_person_def)

lemma digit_range: "is_digit c \<Longrightarrow> 0 \<le> digit_value c \<and> digit_value c \<le> 9"
proof -
  assume "is_digit c"
  then have "48 \<le> (of_char c :: nat) \<and> (of_char c :: nat) \<le> 57" by (simp add: is_digit_def Let_def)
  moreover have "(of_char c :: int) = int (of_char c)" by (simp add: of_char_def)
  ultimately show ?thesis by (simp add: digit_value_def)
qed

lemma digits_int_range: "all_digits s \<Longrightarrow> 0 \<le> digits_int s \<and> digits_int s < 10 ^ length s"
proof (induction s rule: rev_induct)
  case (snoc c s)
  then have "0 \<le> digits_int s \<and> digits_int s < 10 ^ length s" and "0 \<le> digit_value c \<and> digit_value c \<le> 9"
    using digit_range by (simp_all add: all_digits_def)
  then show ?case by (simp add: digits_int_def)
qed (simp add: digits_int_def)

lemma year_range_ok: "all_digits s \<Longrightarrow> length s \<le> 4 \<Longrightarrow> 0 \<le> digits_int s \<and> digits_int s \<le> 9999"
proof -
  assume "all_digits s" and "length s \<le> 4"
  then have "0 \<le> digits_int s" and "digits_int s < 10 ^ length s" using digits_int_range by auto
  moreover have "(10 :: int) ^ length s \<le> 10 ^ 4" using \<open>length s \<le> 4\<close> by (intro power_increasing) simp_all
  ultimately show ?thesis by simp
qed

lemma month_number_range: "month_number name = Some m \<Longrightarrow> 1 \<le> m \<and> m \<le> 12"
  by (auto simp: month_number_def find_Some_iff)

lemma full_dob_ok: "0 \<le> y \<and> y \<le> 9999 \<Longrightarrow> 1 \<le> m \<and> m \<le> 12 \<Longrightarrow> dob_ok (full_dob y m d)"
  by (simp add: full_dob_def split: option.splits)

lemma four_digit_year_range: "four_digit_year v = Some y \<Longrightarrow> 0 \<le> y \<and> y \<le> 9999"
  using year_range_ok by (auto simp: four_digit_year_def Let_def split: if_splits)

lemma positive_year_range: "positive_year v = Some y \<Longrightarrow> 0 \<le> y \<and> y \<le> 9999"
  using four_digit_year_range by (auto simp: positive_year_def split: option.splits if_splits)

lemma year_range_good: "good_dob (year_range lo hi)"
  using positive_year_range by (auto simp: year_range_def good_dob_def split: option.splits)

lemma with_circa_good: "good_dob d \<Longrightarrow> good_dob (map_option with_circa d)"
  by (cases d) (auto simp: good_dob_def elim!: dob_ok.elims)

lemma fits_year: "fits [year_item, Stop] ws \<Longrightarrow> \<exists>y. ws = [y] \<and> all_digits y \<and> length y \<le> 4"
  by (cases ws) (auto simp: all_digits_def)

lemma date_dob_good: "good_dob (date_dob text)"
proof (cases "match_items DATE_FORM [] text")
  case (Some r)
  then obtain d m y where "r = [d, m, y]" "all_digits y" "length y \<le> 4"
    using match_items_fits [OF Some] by (auto simp: DATE_FORM_def all_digits_def elim!: fits.elims)
  then show ?thesis using Some full_dob_ok year_range_ok month_number_range
    by (auto simp: date_dob_def good_dob_def split: option.splits)
qed (simp add: date_dob_def good_dob_def)

lemma month_dob_good: "good_dob (month_dob circa text)"
proof (cases "match_items MONTH_FORM [] text")
  case (Some r)
  then obtain m y where "r = [m, y]" "all_digits y" "length y \<le> 4"
    using match_items_fits [OF Some] by (auto simp: MONTH_FORM_def all_digits_def elim!: fits.elims)
  then show ?thesis using Some year_range_ok month_number_range
    by (auto simp: month_dob_def good_dob_def split: option.splits)
qed (simp add: month_dob_def good_dob_def)

lemma range_dob_good: "match_items RANGE_FORM [] text = Some [lo, hi] \<Longrightarrow> dob_ok (DobRange (digits_int lo) (digits_int hi) c)"
proof -
  assume "match_items RANGE_FORM [] text = Some [lo, hi]"
  from match_items_fits [OF this] have "all_digits lo" "length lo \<le> 4" "all_digits hi" "length hi \<le> 4"
    by (simp_all add: RANGE_FORM_def all_digits_def)
  then show ?thesis using year_range_ok by simp
qed

lemma year_dob_good: "match_items YEAR_FORM [] text = Some [y] \<Longrightarrow> dob_ok (DobYear (digits_int y) None c)"
proof -
  assume "match_items YEAR_FORM [] text = Some [y]"
  from match_items_fits [OF this] have "all_digits y" "length y \<le> 4" by (simp_all add: YEAR_FORM_def all_digits_def)
  then show ?thesis using year_range_ok by simp
qed

lemma good_pair: "(\<And>a b. r = Some [a, b] \<Longrightarrow> dob_ok (f a b)) \<Longrightarrow> good_dob d \<Longrightarrow>
    good_dob (case r of Some [a, b] \<Rightarrow> Some (f a b) | _ \<Rightarrow> d)"
  by (auto simp: good_dob_def split: option.split list.split)

lemma good_single: "(\<And>a. r = Some [a] \<Longrightarrow> dob_ok (f a)) \<Longrightarrow> good_dob (case r of Some [a] \<Rightarrow> Some (f a) | _ \<Rightarrow> None)"
  by (simp add: good_dob_def split: option.split list.split)

lemma good_else: "good_dob v \<Longrightarrow> good_dob d \<Longrightarrow> good_dob (case v of Some x \<Rightarrow> Some x | None \<Rightarrow> d)"
  by (cases v) simp_all

lemma ofac_dob_good: "good_dob (parse_ofac_dob text)"
  unfolding parse_ofac_dob_def Let_def
  by (intro good_pair good_else good_single date_dob_good month_dob_good)
    (rule range_dob_good year_dob_good, assumption)+

lemma un_dob_good: "good_dob (un_dob el)"
proof -
  have "good_dob (map_option (\<lambda>y. DobYear y None False) (positive_year v))" for v
    using positive_year_range by (cases "positive_year v") (auto simp: good_dob_def)
  then show ?thesis unfolding un_dob_def Let_def
    using year_range_good with_circa_good by (auto simp: good_dob_def [of "Some (DobDate _ _)"] split: option.splits)
qed

lemma eu_dob_good: "good_dob (eu_dob bd)"
proof -
  have year: "good_dob (map_option (\<lambda>y. DobYear y (eu_month bd) False) (positive_year v))" for v
    using positive_year_range by (cases "positive_year v") (auto simp: good_dob_def eu_month_def Let_def)
  then have "good_dob (case filled ''birthdate'' bd of Some d \<Rightarrow> Some (DobDate (take 10 d) False)
      | None \<Rightarrow> if year_range a b \<noteq> None then year_range a b
        else map_option (\<lambda>y. DobYear y (eu_month bd) False) (positive_year v))" for a b v
    using year_range_good by (auto simp: good_dob_def [of "Some (DobDate _ _)"] split: option.splits)
  then show ?thesis unfolding eu_dob_def Let_def using with_circa_good by simp
qed

lemma uk_dob_good: "good_dob (uk_dob v)"
proof (cases "match_items UK_DATE_FORM [] (str_strip v)")
  case (Some r)
  then obtain d m y where r: "r = [d, m, y]" "all_digits y" "length y \<le> 4"
    using match_items_fits [OF Some] by (auto simp: UK_DATE_FORM_def all_digits_def elim!: fits.elims)
  then show ?thesis using Some full_dob_ok year_range_ok
    by (auto simp: uk_dob_def good_dob_def Let_def)
qed (simp add: uk_dob_def good_dob_def)

section \<open>Every record of every list\<close>

lemma shaped_if: "well_shaped src a \<Longrightarrow> well_shaped src b \<Longrightarrow> well_shaped src (if c then a else b)"
  by simp

lemma shaped_case: "well_shaped src r \<Longrightarrow> (\<And>x. well_shaped src (f x)) \<Longrightarrow> well_shaped src (case v of None \<Rightarrow> r | Some x \<Rightarrow> f x)"
  by (cases v) simp_all

lemma ofac_remark_shaped: "well_shaped src r \<Longrightarrow> well_shaped src (apply_ofac_remark part r)"
  unfolding apply_ofac_remark_def Let_def
  by (intro shaped_if shaped_case shaped_name shaped_dob shaped_pob shaped_nationality shaped_document shaped_gender ofac_dob_good)

lemma ofac_person_shaped: "well_shaped ''ofac_sdn'' (ofac_person e)"
proof -
  have "well_shaped ''ofac_sdn'' ((new_person ''ofac_sdn'' (sdn_id e) p None g)\<lparr>p_names := [n]\<rparr>)" for p g n
    by (rule shaped_new) simp
  then show ?thesis unfolding ofac_person_def Let_def by (intro shape_intros ofac_remark_shaped)
qed

lemma un_person_shaped: "well_shaped ''un_consolidated'' (un_person ind)"
proof -
  have "distinct (name_of p ''primary'' # original_name v)" for p v
    by (auto simp: original_name_def name_of_def split: option.splits)
  moreover have "well_shaped src (un_alias el r)" if "well_shaped src r" for src el r
    using that by (auto simp: un_alias_def intro: shape_intros split: option.splits)
  ultimately show ?thesis unfolding un_person_def Let_def by (intro shape_intros shaped_new un_dob_good)
qed

lemma eu_person_shaped: "eu_person ent = Some r \<Longrightarrow> well_shaped ''eu_fsf'' r"
proof -
  have birth: "well_shaped src (eu_birth bd r)" if "well_shaped src r" for src bd r
    unfolding eu_birth_def by (intro shape_intros eu_dob_good that)
  have "well_shaped ''eu_fsf'' (eu_record ent a as)" for a as
    unfolding eu_record_def Let_def by (intro shape_intros birth)
  then show "eu_person ent = Some r \<Longrightarrow> well_shaped ''eu_fsf'' r"
    by (auto simp: eu_person_def split: list.splits if_splits)
qed

lemma uk_row_shaped: "well_shaped src r \<Longrightarrow> well_shaped src (uk_row row full r)"
  unfolding uk_row_def Let_def by (intro shape_intros uk_dob_good) assumption

lemma uk_rows_shaped: "uk_rows rows r = Some r' \<Longrightarrow> well_shaped src r \<Longrightarrow> well_shaped src r'"
  by (induction rows arbitrary: r) (auto split: bind_splits intro: uk_row_shaped)

lemma uk_person_shaped: "uk_person g = Some r \<Longrightarrow> well_shaped ''uk_ofsi'' r"
  by (auto simp: uk_person_def Let_def split: prod.splits bind_splits intro: uk_rows_shaped shape_intros)

lemma all_some_map: "all_some xs = Some ys \<Longrightarrow> xs = map Some ys"
  by (induction xs arbitrary: ys) (auto split: bind_splits)

section \<open>The properties\<close>

lemma parser_shaped:
  assumes "(src, url, parse) \<in> set (SOURCES parse_xml)" and "parse txt = Some rs" and "r \<in> set rs"
  shows "well_shaped src r"
proof -
  have uk: "well_shaped ''uk_ofsi'' r" if "parse_uk_individuals txt = Some rs"
  proof -
    from that obtain gs where "all_some (map uk_person gs) = Some rs"
      by (auto simp: parse_uk_individuals_def split: bind_splits prod.splits)
    then have "map uk_person gs = map Some rs" by (rule all_some_map)
    then have "uk_person ` set gs = Some ` set rs" by (metis list.set_map)
    with assms(3) obtain g where "uk_person g = Some r" by (metis imageE imageI)
    then show ?thesis by (rule uk_person_shaped)
  qed
  have ofac: "well_shaped ''ofac_sdn'' r" if "parse_ofac_individuals txt = Some rs"
    using that assms(3) ofac_person_shaped by (auto simp: parse_ofac_individuals_def)
  have un: "well_shaped ''un_consolidated'' r" if "parse_un_individuals parse_xml txt = Some rs"
    using that assms(3) un_person_shaped by (auto simp: parse_un_individuals_def)
  have eu: "well_shaped ''eu_fsf'' r" if "parse_eu_persons parse_xml txt = Some rs"
  proof -
    from that assms(3) obtain x where "eu_person x = Some r" by (auto simp: parse_eu_persons_def map_filter_def)
    then show ?thesis by (rule eu_person_shaped)
  qed

  from assms(1,2) ofac un eu uk show ?thesis unfolding SOURCES_def by auto
qed

text \<open>Whatever a list holds, each of the four parsers gives records of one shape: of its own source, without repeated
  names, dates, places, nationalities or documents, without empty places or nationalities, and with years of four
  digits and months of the calendar.\<close>

theorem listed_persons_have_one_shape:
  assumes "(src, url, parse) \<in> set (SOURCES parse_xml)" and "parse txt = Some rs" and "r \<in> set rs"
  shows "well_shaped src r"
  by (rule parser_shaped [OF assms])

section \<open>The SDN file is read back\<close>

definition stripped :: "string \<Rightarrow> bool" where
  "stripped s = (s \<noteq> [] \<and> \<not> is_space (hd s) \<and> \<not> is_space (last s) \<and> length s \<le> FIELD_LIMIT)"

definition sdn_value_ok :: "string option \<Rightarrow> bool" where
  "sdn_value_ok v = (case v of None \<Rightarrow> True | Some s \<Rightarrow> stripped s \<and> s \<noteq> ''-0-'')"

definition sdn_entry_ok :: "sdn_entry \<Rightarrow> bool" where
  "sdn_entry_ok e = (stripped (sdn_id e) \<and> stripped (sdn_name e) \<and> str_upper (sdn_name e) \<noteq> ''SDN_NAME''
     \<and> sdn_value_ok (sdn_type e) \<and> sdn_value_ok (sdn_program e) \<and> sdn_value_ok (sdn_remarks e))"

definition sdn_line :: "sdn_entry \<Rightarrow> string list" where
  \<comment> \<open>the columns OFAC publishes; an empty one is written \<open>-0- \<close>\<close>
  "sdn_line e = (let blank = ''-0- '' in
     [sdn_id e, sdn_name e, text_or (sdn_type e) blank, text_or (sdn_program e) blank] @ replicate 7 blank
       @ [text_or (sdn_remarks e) blank])"

definition sdn_file :: "sdn_entry list \<Rightarrow> string" where
  "sdn_file es = concat (map (quote_row \<circ> sdn_line) es)"

lemma strip_stripped: "stripped s \<Longrightarrow> str_strip s = s"
proof -
  assume s: "stripped s"
  then have "dropWhile is_space s = s" by (cases s) (simp_all add: stripped_def)
  moreover have "dropWhile is_space (rev s) = rev s" using s by (cases s rule: rev_cases) (simp_all add: stripped_def)
  ultimately show ?thesis by (simp add: str_strip_def)
qed

lemma sdn_field_text: "i < length row \<Longrightarrow> row ! i = text_or v ''-0- '' \<Longrightarrow> sdn_value_ok v \<Longrightarrow> sdn_field row i = v"
proof -
  assume i: "i < length row" "row ! i = text_or v ''-0- ''" and v: "sdn_value_ok v"
  have blank: "str_strip ''-0- '' = ''-0-''" by code_simp
  show ?thesis
  proof (cases v)
    case None
    then show ?thesis using i blank by (simp add: sdn_field_def text_or_def Let_def)
  next
    case (Some s)
    then have s: "stripped s" "s \<noteq> ''-0-''" "s \<noteq> []" using v by (auto simp: sdn_value_ok_def stripped_def)
    then show ?thesis using i Some strip_stripped [OF s(1)] by (simp add: sdn_field_def text_or_def truthy_def Let_def)
  qed
qed

lemma sdn_line_read: "sdn_entry_ok e \<Longrightarrow> sdn_row (sdn_line e) = Some e"
proof -
  assume e: "sdn_entry_ok e"
  have len: "length (sdn_line e) = 12" by (simp add: sdn_line_def Let_def)
  have cells: "sdn_line e ! 0 = sdn_id e" "sdn_line e ! 1 = sdn_name e" "sdn_line e ! 2 = text_or (sdn_type e) ''-0- ''"
    "sdn_line e ! 3 = text_or (sdn_program e) ''-0- ''" "sdn_line e ! 11 = text_or (sdn_remarks e) ''-0- ''"
    by (simp_all add: sdn_line_def Let_def nth_append numeral_eq_Suc)
  have fields: "sdn_field (sdn_line e) 2 = sdn_type e" "sdn_field (sdn_line e) 3 = sdn_program e"
      "sdn_field (sdn_line e) 11 = sdn_remarks e"
    using e len cells by (simp_all add: sdn_field_text sdn_entry_ok_def)
  have "str_strip (sdn_id e) = sdn_id e" "str_strip (sdn_name e) = sdn_name e" "sdn_name e \<noteq> []"
    using e by (simp_all add: sdn_entry_ok_def strip_stripped) (simp add: stripped_def)
  then show ?thesis using e len cells fields by (simp add: sdn_row_def sdn_entry_ok_def)
qed

lemma sdn_line_short: "sdn_entry_ok e \<Longrightarrow> list_all (\<lambda>s. length s \<le> FIELD_LIMIT) (sdn_line e)"
proof -
  assume e: "sdn_entry_ok e"
  have blank: "length ''-0- '' \<le> FIELD_LIMIT" by (simp add: FIELD_LIMIT_def)
  have "length (text_or v ''-0- '') \<le> FIELD_LIMIT" if "sdn_value_ok v" for v
    using that blank by (auto simp: text_or_def sdn_value_ok_def stripped_def split: option.splits)
  then show ?thesis using e blank by (simp add: sdn_line_def sdn_entry_ok_def stripped_def Let_def list_all_iff)
qed

lemma sdn_file_parsed: "list_all sdn_entry_ok es \<Longrightarrow> parse_sdn_csv (sdn_file es) = Some es"
proof -
  assume es: "list_all sdn_entry_ok es"
  have "csv_reader (sdn_file es) = Some (map sdn_line es)"
    using csv_reads_quoted_rows [of "map sdn_line es"] es sdn_line_short
    by (auto simp: sdn_file_def list_all_iff sdn_line_def Let_def o_def)
  moreover have "List.map_filter sdn_row (map sdn_line es) = es"
    using es by (induction es) (simp_all add: sdn_line_read)
  ultimately show ?thesis by (simp add: parse_sdn_csv_def)
qed

lemma ofac_file_parsed: "list_all sdn_entry_ok es \<Longrightarrow>
    parse_ofac_individuals (sdn_file es) = Some (map ofac_person (filter is_individual es))"
  by (simp add: parse_ofac_individuals_def sdn_file_parsed)


section \<open>No listed name is lost\<close>

definition sdn_lists :: "sdn_entry \<Rightarrow> string \<Rightarrow> bool" where
  \<comment> \<open>the name of an entry, as published or reordered, or an alias in its remarks\<close>
  "sdn_lists e n = (n = sdn_name e \<or> n = ofac_reorder (sdn_name e) \<or>
     list_ex (\<lambda>part. (prefix ''a.k.a. '' part \<or> prefix ''f.k.a. '' part) \<and> map_option ofac_reorder (ofac_alias part) = Some n)
       (remark_parts (sdn_remarks e)))"

abbreviation names_in :: "listed_person \<Rightarrow> string set" where
  "names_in r \<equiv> ne_name ` set (p_names r)"

lemma add_unique_set: "set (add_unique v xs) = set xs \<union> set_option v"
  by (auto simp: add_unique_def split: option.splits)

lemma remark_names_grow: "names_in r \<subseteq> names_in (apply_ofac_remark part r)"
proof -
  have "set (p_names r) \<subseteq> set (p_names (apply_ofac_remark part r))"
    unfolding apply_ofac_remark_def Let_def by (simp add: add_unique_set split: option.split) blast
  then show ?thesis by blast
qed

lemma remarks_names_grow: "names_in r \<subseteq> names_in (fold apply_ofac_remark parts r)"
  by (induction parts arbitrary: r) (use remark_names_grow in fastforce)+

lemma remark_alias_added:
  assumes "prefix ''a.k.a. '' part \<or> prefix ''f.k.a. '' part" and "ofac_alias part = Some n"
  shows "ofac_reorder n \<in> names_in (apply_ofac_remark part r)"
  using assms(1)
proof
  assume "prefix ''a.k.a. '' part"
  then obtain rest where "part = ''a.k.a. '' @ rest" by (rule prefixE)
  then have "str_lower part = ''a.k.a. '' @ str_lower rest"
    by (simp add: str_lower_def lower_char_def is_upper_def)
  then show ?thesis using assms(2) by (simp add: apply_ofac_remark_def Let_def add_unique_set name_of_def)
next
  assume "prefix ''f.k.a. '' part"
  then obtain rest where "part = ''f.k.a. '' @ rest" by (rule prefixE)
  then have "str_lower part = ''f.k.a. '' @ str_lower rest"
    by (simp add: str_lower_def lower_char_def is_upper_def)
  then show ?thesis using assms(2) by (simp add: apply_ofac_remark_def Let_def add_unique_set name_of_def)
qed

lemma listed_name_kept: "sdn_lists e n \<Longrightarrow> n \<in> names_in (ofac_person e)"
proof -
  assume n: "sdn_lists e n"
  let ?parts = "remark_parts (sdn_remarks e)"
  define r where "r = add_name (name_of (ofac_reorder (sdn_name e)) ''primary'')
    ((new_person ''ofac_sdn'' (sdn_id e) (ofac_reorder (sdn_name e)) None (sdn_program e))\<lparr>p_names := [name_of (sdn_name e) ''primary'']\<rparr>)"
  have person: "ofac_person e = fold apply_ofac_remark ?parts r"
    unfolding ofac_person_def Let_def r_def ..
  have names: "sdn_name e \<in> names_in r" "ofac_reorder (sdn_name e) \<in> names_in r"
    by (simp_all add: r_def add_unique_set name_of_def)

  have "names_in r \<subseteq> names_in (ofac_person e)" unfolding person by (rule remarks_names_grow)
  then have grown: "m \<in> names_in (ofac_person e)" if "m \<in> names_in r" for m using that by (rule subsetD)

  from n consider "n = sdn_name e" | "n = ofac_reorder (sdn_name e)"
    | part a where "part \<in> set ?parts" "prefix ''a.k.a. '' part \<or> prefix ''f.k.a. '' part" "ofac_alias part = Some a" "n = ofac_reorder a"
    unfolding sdn_lists_def list_ex_iff by auto
  then show ?thesis
  proof cases
    case 3
    then obtain before after where "?parts = before @ part # after" by (metis in_set_conv_decomp)
    then have "ofac_person e = fold apply_ofac_remark after (apply_ofac_remark part (fold apply_ofac_remark before r))"
      by (simp add: person)
    moreover have "n \<in> names_in (apply_ofac_remark part (fold apply_ofac_remark before r))"
      using remark_alias_added [OF 3(2,3)] 3(4) by simp
    ultimately show ?thesis using remarks_names_grow by (metis (no_types) subsetD)
  qed (use grown names in simp_all)
qed

lemma fold_entry: "p_entry (fold apply_ofac_remark parts r) = p_entry r"
proof (induction parts arbitrary: r)
  case (Cons p parts)
  have "p_entry (apply_ofac_remark p r) = p_entry r" by (simp add: apply_ofac_remark_def Let_def split: option.split)
  then show ?case using Cons.IH by simp
qed simp

lemma ofac_entry: "p_entry (ofac_person e) = sdn_id e"
  by (simp add: ofac_person_def Let_def fold_entry new_person_def)

definition index_rows :: "watch_row list \<Rightarrow> (string \<times> string list) list" where
  "index_rows ws = map (\<lambda>w. (rec_id (wr_record w), rec_names (wr_record w))) ws"


section \<open>A small file\<close>

definition sample_sdn :: sdn_entry where
  "sample_sdn = \<lparr>sdn_id = ''36'', sdn_name = ''PETROV, Ivan'', sdn_type = Some ''individual'', sdn_program = Some ''IRAN'',
     sdn_remarks = Some (''DOB circa 02 Jan 1970; nationality Russia; a.k.a. '' @ [CHR 0x27] @ ''IVANOV, Pyotr'' @ [CHR 0x27] @ ''.'')\<rparr>"

definition sample_company :: sdn_entry where
  "sample_company = \<lparr>sdn_id = ''40'', sdn_name = ''ACME TRADING LTD'', sdn_type = None, sdn_program = Some ''CUBA'', sdn_remarks = None\<rparr>"

lemma sample_sdn_ok: "list_all sdn_entry_ok [sample_sdn, sample_company]"
proof -
  have names: "str_upper ''PETROV, Ivan'' \<noteq> ''SDN_NAME''" "str_upper ''ACME TRADING LTD'' \<noteq> ''SDN_NAME''" by code_simp+
  show ?thesis using names
    by (simp add: sample_sdn_def sample_company_def sdn_entry_ok_def sdn_value_ok_def stripped_def FIELD_LIMIT_def is_space_def)
qed

lemma sample_individual: "is_individual sample_sdn" "\<not> is_individual sample_company"
  by code_simp+

lemma sample_id: "sdn_id sample_sdn = ''36''"
  by (simp add: sample_sdn_def)

lemma sample_lists: "sdn_lists sample_sdn ''Pyotr IVANOV''"
  by code_simp

lemma sample_person: "p_dobs (ofac_person sample_sdn) = [DobDate ''1970-01-02'' False]"
    "map ne_name (p_names (ofac_person sample_sdn)) = [''PETROV, Ivan'', ''Ivan PETROV'', ''Pyotr IVANOV'']"
  by code_simp+


lemma listed_persons_have_one_shape_witness:
  "well_shaped ''ofac_sdn'' (ofac_person sample_sdn)"
  by (rule listed_persons_have_one_shape [of _ _ parse_ofac_individuals "\<lambda>_. None" "sdn_file [sample_sdn, sample_company]" "[ofac_person sample_sdn]"])
    (simp_all add: SOURCES_def ofac_file_parsed [OF sample_sdn_ok] sample_individual)

lemma sample_sdn_tokens: "tokens plain_lib (Some ''Ivanov Pyotr'') = [''ivanov'', ''pyotr'']"
    "tokens plain_lib (Some ''Pyotr IVANOV'') = [''pyotr'', ''ivanov'']"
  by code_simp+


text \<open>An approximate date of birth loses its mark when the day is given.\<close>

lemma approximate_date_taken_as_exact: "parse_ofac_dob ''circa 02 Jan 1970'' = Some (DobDate ''1970-01-02'' False)"
    "parse_ofac_dob ''circa 1970'' = Some (DobYear 1970 None True)"
  by code_simp+

end
