(* ===== verification/Sanctions.thy ===== *)
theory Sanctions
  imports Person_Lists Adapters
begin

text \<open>
  \<open>app/adapters/sanctions.py\<close>: the company's name against the SDN list. The adapter keeps the parsed list after the first
  successful download; \<open>'w\<close> is the outside world a download acts on. Strings are compared without case and without a
  trailing legal form.
\<close>

section \<open>Names\<close>

definition word_char :: "char \<Rightarrow> bool" where
  \<comment> \<open>\<open>\w\<close>; a byte of a longer UTF-8 character counts as a letter\<close>
  "word_char c = (is_letter c \<or> is_digit c \<or> c = CHR ''_'' \<or> 128 \<le> (of_char c :: nat))"

definition LEGAL_FORMS :: "string list" where
  \<comment> \<open>what the alternatives of \<open>_LEGAL_SUFFIXES\<close> match, in lower case; the accented letters also as capitals\<close>
  "LEGAL_FORMS =
    [''private limited'', ''public limited company'', ''incorporated'', ''corporation'', ''limited liability company'',
     ''gesellschaft mit beschrankter haftung'',
     ''gesellschaft mit beschr'' @ [CHR 0xC3, CHR 0xA4] @ ''nkter haftung'', ''gesellschaft mit beschr'' @ [CHR 0xC3, CHR 0x84] @ ''nkter haftung'',
     ''sociedad anonima'', ''sociedad an'' @ [CHR 0xC3, CHR 0xB3] @ ''nima'', ''sociedad an'' @ [CHR 0xC3, CHR 0x93] @ ''nima'',
     ''limited partnership'', ''ltd'', ''ltd.'', ''llc'', ''llc.'', ''inc'', ''inc.'', ''corp'', ''corp.'', ''plc'', ''plc.'',
     ''gmbh'', ''gmbh.'', ''sa'', ''s.a'', ''sa.'', ''s.a.'', ''co'', ''co.'', ''lp'', ''lp.'', ''llp'', ''llp.'']"

definition rstrip_space :: "string \<Rightarrow> string" where
  "rstrip_space s = rev (dropWhile is_space (rev s))"

definition boundary :: "nat \<Rightarrow> string \<Rightarrow> bool" where
  \<comment> \<open>\<open>\b\<close> before the character at a position\<close>
  "boundary i s = (word_char (s ! i) \<noteq> (0 < i \<and> word_char (s ! (i - 1))))"

definition strip_legal_suffix :: "string \<Rightarrow> string" where
  "strip_legal_suffix name =
    (let kept = (case find (\<lambda>i. boundary i name \<and> str_lower (rstrip_space (drop i name)) \<in> set LEGAL_FORMS) [0..<length name] of
         None \<Rightarrow> name | Some i \<Rightarrow> take i name)
     in str_strip (rstrip_chars '','' (str_strip kept)))"

definition normalize_name :: "string \<Rightarrow> string" where
  "normalize_name name = str_join '' '' (str_split (str_lower (strip_legal_suffix name)))"

definition find_matches :: "string \<Rightarrow> sdn_entry list \<Rightarrow> sdn_entry list" where
  "find_matches query_norm entries = filter (\<lambda>e. normalize_name (sdn_name e) = query_norm) entries"

section \<open>The adapter\<close>

definition OFAC_SDN_URL :: string where
  "OFAC_SDN_URL = ''https://www.treasury.gov/ofac/downloads/sdn.csv''"

definition fetch_csv :: "(string \<Rightarrow> 'w \<Rightarrow> (int \<times> string) option \<times> 'w) \<Rightarrow> 'w \<Rightarrow> string option \<times> 'w" where
  \<comment> \<open>the production fetcher over a GET that yields a status and a text, None for the \<open>RuntimeError\<close>\<close>
  "fetch_csv get w = (let (response, w) = get OFAC_SDN_URL w
     in (case response of None \<Rightarrow> None | Some (status, text) \<Rightarrow> if status \<noteq> 200 then None else Some text, w))"

definition load_sdn_list :: "('w \<Rightarrow> string option \<times> 'w) \<Rightarrow> sdn_entry list option \<Rightarrow> 'w
    \<Rightarrow> sdn_entry list option \<times> sdn_entry list option \<times> 'w" where
  \<comment> \<open>the entries, what the adapter has cached and the world; a failure caches nothing\<close>
  "load_sdn_list fetch cached w = (case cached of
       Some es \<Rightarrow> (Some es, cached, w)
     | None \<Rightarrow> (let (text, w) = fetch w; es = Option.bind text parse_sdn_csv in (es, es, w)))"

definition ofac_row :: "string \<Rightarrow> int \<Rightarrow> string \<Rightarrow> string \<Rightarrow> string \<Rightarrow> rat \<Rightarrow> (string \<times> json) list \<Rightarrow> evidence" where
  "ofac_row run now field raw normalized conf details = new_row run ''sanctions'' 1 field (Some raw) (Some normalized) conf details
     [(''provider'', JText ''ofac_sdn''), (''source_url'', JText OFAC_SDN_URL),
      (''list'', JText ''OFAC Specially Designated Nationals (SDN)'')] now"

definition screen_name :: "string \<Rightarrow> int \<Rightarrow> sdn_entry list \<Rightarrow> string \<Rightarrow> evidence list" where
  "screen_name run now entries name =
    (let hits = find_matches (normalize_name name) entries
     in if hits = [] then []
        else map (\<lambda>e. ofac_row run now ''sanctions_hit'' (sdn_name e) (str_upper (sdn_name e)) (dec 95 2)
               [(''query'', JText name), (''matched_entry'', JText (sdn_name e)), (''sdn_id'', JText (sdn_id e)),
                (''list'', JText ''OFAC SDN'')]) hits
          @ [ofac_row run now ''sanctions_risk_flag'' ''true'' ''true'' (dec 95 2)
               [(''query'', JText name), (''hit_count'', JInt (int (length hits))), (''list'', JText ''OFAC SDN'')]])"

definition screen_names :: "string \<Rightarrow> int \<Rightarrow> sdn_entry list \<Rightarrow> string list \<Rightarrow> evidence list" where
  "screen_names run now entries names =
    (let rows = concat (map (screen_name run now entries) names)
     in if rows = []
        then [ofac_row run now ''sanctions_screened'' ''no_hit'' ''no_hit'' 1
               [(''screened'', JList (map JText names)), (''list'', JText ''OFAC SDN'')]]
        else rows)"

definition sanctions_fetch :: "('w \<Rightarrow> string option \<times> 'w) \<Rightarrow> int \<Rightarrow> adapter_context \<Rightarrow> sdn_entry list option \<times> 'w
    \<Rightarrow> adapter_result \<times> sdn_entry list option \<times> 'w" where
  "sanctions_fetch fetch now cx st = (case st of (cached, w) \<Rightarrow>
     if \<not> truthy (cx_company cx) then (Failure NotFound, cached, w)
     else case load_sdn_list fetch cached w of
         (None, cached, w) \<Rightarrow> (Failure Unavailable, cached, w)
       | (Some es, cached, w) \<Rightarrow> (Success (screen_names (cx_run cx) now es [text_or (cx_company cx) '''']), cached, w))"

section \<open>The stage\<close>

definition failure_status :: "failure_kind \<Rightarrow> string" where
  "failure_status k = (case k of Timeout \<Rightarrow> ''timeout'' | Unavailable \<Rightarrow> ''unavailable'' | NotFound \<Rightarrow> ''not_found''
     | RateLimited \<Rightarrow> ''rate_limited'')"

record normalized_input =
  ni_company :: "string option"
  ni_domain :: "string option"
  ni_country :: "string option"
  ni_tax_id :: "string option"
  ni_email :: "string option"

definition sanctions_context :: "string \<Rightarrow> normalized_input \<Rightarrow> adapter_context" where
  "sanctions_context run ni = \<lparr>cx_run = run, cx_company = ni_company ni, cx_domain = ni_domain ni, cx_country = ni_country ni,
     cx_tax_id = ni_tax_id ni, cx_email = ni_email ni, cx_address = None, cx_linkedin = None, cx_requester = None\<rparr>"

text \<open>The stage with the retrying adapter: the rows it stores, the status it reports, and the state of the adapter
  and the world after it.\<close>

definition sanctions_stage :: "int \<Rightarrow> rat \<Rightarrow> ('w \<Rightarrow> string option \<times> 'w) \<Rightarrow> (nat \<Rightarrow> string) \<Rightarrow> int \<Rightarrow> string \<Rightarrow> normalized_input
    \<Rightarrow> evidence list \<Rightarrow> nat \<Rightarrow> sdn_entry list option \<times> 'w
    \<Rightarrow> (evidence list \<times> nat \<times> string) \<times> sdn_entry list option \<times> 'w" where
  "sanctions_stage attempts backoff fetch new_key now run ni stored next st =
    (let (result, waits, st) = retry_call attempts backoff (sanctions_fetch fetch now (sanctions_context run ni)) st
     in case result of
          Success rows \<Rightarrow> let (rows, next) = store_rows new_key now rows next in ((stored @ rows, next, ''complete''), st)
        | Failure k \<Rightarrow> ((stored, next, failure_status k), st))"

end
