(* ===== verification/Sanctions_Laws.thy ===== *)
theory Sanctions_Laws
  imports Sanctions Scoring_Laws
begin

text \<open>
  What the sanctions screening of a company guarantees: the rows it stores say exactly which entries of the list bear the
  company's name, it never reports a result without the list, and a listed company is escalated.
\<close>

section \<open>The rows of a screening\<close>

definition hits :: "evidence list \<Rightarrow> evidence list" where
  "hits rows = filter (on_field ''sanctions_hit'') rows"

lemma store_rows_fields:
  assumes "store_rows new_id time es n = (rows, m)"
  shows "map ev_field rows = map ev_field es \<and> map raw_value rows = map raw_value es \<and> map source rows = map source es
    \<and> map ev_run rows = map ev_run es \<and> m = n + length es \<and> map ev_id rows = map new_id [n..<n + length es]"
  using assms
proof (induction es arbitrary: n rows m)
  case (Cons e es)
  then obtain rows' where r: "store_rows new_id time es (Suc n) = (rows', m)" "rows = e\<lparr>ev_id := new_id n, created_at := time\<rparr> # rows'"
    by (auto split: prod.splits)
  have "[n..<n + length (e # es)] = n # [Suc n..<Suc n + length es]" by (simp add: upt_conv_Cons del: upt_Suc)
  with Cons.IH [OF r(1)] show ?case by (simp add: r(2) del: upt_Suc)
qed simp

lemma hits_fields: "map ev_field rows = map ev_field es \<Longrightarrow> map raw_value rows = map raw_value es \<Longrightarrow>
    map raw_value (hits rows) = map raw_value (hits es)"
proof (induction rows arbitrary: es)
  case (Cons r rows)
  then show ?case by (cases es) (auto simp: hits_def on_field_def)
qed simp

lemma has_field: "map ev_field rows = map ev_field es \<Longrightarrow> list_ex (on_field f) rows = list_ex (on_field f) es"
proof -
  have "list_ex (on_field f) xs = (Some f \<in> set (map ev_field xs))" for xs
    by (induction xs) (auto simp: on_field_def)
  then show "map ev_field rows = map ev_field es \<Longrightarrow> list_ex (on_field f) rows = list_ex (on_field f) es" by metis
qed

lemma ofac_row_field [simp]: "ev_field (ofac_row run time f raw nv conf d) = Some f" "raw_value (ofac_row run time f raw nv conf d) = Some raw"
    "source (ofac_row run time f raw nv conf d) = ''sanctions''" "ev_run (ofac_row run time f raw nv conf d) = run"
  by (simp_all add: ofac_row_def new_row_def)

lemma hits_screen: "hits (screen_name run time es c) =
    map (\<lambda>e. ofac_row run time ''sanctions_hit'' (sdn_name e) (str_upper (sdn_name e)) (dec 95 2)
       [(''query'', JText c), (''matched_entry'', JText (sdn_name e)), (''sdn_id'', JText (sdn_id e)),
        (''list'', JText ''OFAC SDN'')]) (find_matches (normalize_name c) es)"
  by (simp add: hits_def screen_name_def Let_def on_field_def filter_map o_def)

lemma screened_rows:
  "map raw_value (hits (screen_names run time es [c])) = map (Some \<circ> sdn_name) (find_matches (normalize_name c) es)
   \<and> (list_ex (on_field ''sanctions_screened'') (screen_names run time es [c]) \<longleftrightarrow> find_matches (normalize_name c) es = [])"
proof (cases "find_matches (normalize_name c) es = []")
  case True
  then have "screen_name run time es c = []" by (simp add: screen_name_def)
  then show ?thesis using True by (simp add: screen_names_def hits_def on_field_def)
next
  case False
  then have "screen_name run time es c \<noteq> []" by (simp add: screen_name_def Let_def)
  then have "screen_names run time es [c] = screen_name run time es c" by (simp add: screen_names_def)
  moreover have "\<not> list_ex (on_field ''sanctions_screened'') (screen_name run time es c)"
    by (auto simp: screen_name_def Let_def list_ex_iff on_field_def)
  ultimately show ?thesis using False by (simp add: hits_screen o_def)
qed

section \<open>What the stage reports\<close>

lemma fetch_success:
  assumes "sanctions_fetch fetch time cx (cached, w) = (Success rows, cached', w')"
  shows "\<exists>es c. cached' = Some es \<and> cx_company cx = Some c \<and> c \<noteq> [] \<and> rows = screen_names (cx_run cx) time es [c]"
  using assms
  by (auto simp: sanctions_fetch_def load_sdn_list_def truthy_def text_or_def Let_def
      split: if_splits option.splits prod.splits)

lemma fetch_failure:
  assumes "sanctions_fetch fetch time cx st = (Failure k, st')"
  shows "(k = NotFound \<longleftrightarrow> \<not> truthy (cx_company cx)) \<and> k \<in> {NotFound, Unavailable}"
  using assms by (auto simp: sanctions_fetch_def split: if_splits option.splits prod.splits)

text \<open>A retried call ends with a result the call itself gave.\<close>

lemma retrying_from_call:
  assumes "retrying backoff a left fn r waits st = (r', waits', st')" and "\<exists>s. fn s = (r, st)"
  shows "\<exists>s. fn s = (r', st')"
  using assms
proof (induction left arbitrary: a r waits st)
  case (Suc left)
  show ?case
  proof (cases "transient r")
    case True
    obtain r2 st2 where again: "fn st = (r2, st2)" by (metis surj_pair)
    then have "retrying backoff (Suc a) left fn r2 (waits @ [backoff * 2 ^ (a - 1)]) st2 = (r', waits', st')"
      using Suc.prems(1) True by simp
    then show ?thesis using Suc.IH again by blast
  next
    case False
    then show ?thesis using Suc.prems by simp
  qed
qed simp

lemma retry_from_call:
  assumes "retry_call n backoff fn st = (r', waits', st')"
  shows "\<exists>s. fn s = (r', st')"
  using assms retrying_from_call [where fn = fn] by (force simp: retry_call_def split: prod.splits)

lemma stage_complete:
  assumes "sanctions_stage n backoff fetch new_id time run ni stored next st = ((rows, next', ''complete''), cached', w')"
  shows "\<exists>es c new. cached' = Some es \<and> ni_company ni = Some c \<and> rows = stored @ new
    \<and> map ev_field new = map ev_field (screen_names run time es [c])
    \<and> map raw_value new = map raw_value (screen_names run time es [c])"
proof -
  let ?cx = "sanctions_context run ni"
  obtain r waits st' where call: "retry_call n backoff (sanctions_fetch fetch time ?cx) st = (r, waits, st')"
    by (metis prod_cases3)
  obtain s where s: "sanctions_fetch fetch time ?cx s = (r, st')" using retry_from_call [OF call] by blast
  have "\<exists>es. r = Success es" using assms call by (cases r) (auto simp: sanctions_stage_def failure_status_def split: failure_kind.splits)
  then obtain out where r: "r = Success out" by blast
  obtain rows' m where store: "store_rows new_id time out next = (rows', m)" by (metis surj_pair)
  have "rows = stored @ rows'" and "st' = (cached', w')"
    using assms call r store by (auto simp: sanctions_stage_def)
  moreover obtain c0 w0 where "s = (c0, w0)" by (metis surj_pair)
  ultimately obtain es c where "cached' = Some es" "cx_company ?cx = Some c" "out = screen_names (cx_run ?cx) time es [c]"
    using fetch_success [of fetch time ?cx c0 w0 out cached' w'] s r by auto
  then show ?thesis using store_rows_fields [OF store] \<open>rows = stored @ rows'\<close>
    by (auto simp: sanctions_context_def)
qed

text \<open>C36. The stage says exactly what the list says: when it reports complete the whole list has been read, it has added
  one hit for each entry of the company's name in the order of the list, and the row of a clean result exactly when
  there is none; otherwise it has stored nothing and reports an outage, unless the company has no name.\<close>

theorem sanctions_result_exact:
  assumes "sanctions_stage n backoff fetch new_id time run ni stored next st = ((rows, next', status), cached', w')"
  shows "if status = ''complete''
    then \<exists>es c new. cached' = Some es \<and> ni_company ni = Some c \<and> rows = stored @ new \<and>
      map raw_value (hits new) = map (Some \<circ> sdn_name) (find_matches (normalize_name c) es) \<and>
      (list_ex (on_field ''sanctions_screened'') new \<longleftrightarrow> find_matches (normalize_name c) es = [])
    else rows = stored \<and> (if truthy (ni_company ni) then status \<in> set OUTAGE_KINDS else status = ''not_found'')"
proof (cases "status = ''complete''")
  case True
  then obtain es c new where new: "cached' = Some es" "ni_company ni = Some c" "rows = stored @ new"
    "map ev_field new = map ev_field (screen_names run time es [c])"
    "map raw_value new = map raw_value (screen_names run time es [c])"
    using stage_complete [OF assms [unfolded True]] by (elim exE conjE)
  have "map raw_value (hits new) = map (Some \<circ> sdn_name) (find_matches (normalize_name c) es)"
    using hits_fields [OF new(4,5)] screened_rows [of run time es c] by simp
  moreover have "list_ex (on_field ''sanctions_screened'') new \<longleftrightarrow> find_matches (normalize_name c) es = []"
    using has_field [OF new(4)] screened_rows [of run time es c] by simp
  ultimately show ?thesis using True new by auto
next
  case False
  let ?cx = "sanctions_context run ni"
  obtain r waits st' where call: "retry_call n backoff (sanctions_fetch fetch time ?cx) st = (r, waits, st')"
    by (metis prod_cases3)
  obtain s where s: "sanctions_fetch fetch time ?cx s = (r, st')" using retry_from_call [OF call] by blast
  obtain k where k: "r = Failure k" and rows: "rows = stored" "status = failure_status k"
  proof (cases r)
    case (Success out)
    obtain rows' m where "store_rows new_id time out next = (rows', m)" by (metis surj_pair)
    then have "status = ''complete''" using assms unfolding sanctions_stage_def call Success by simp
    then show thesis using False by simp
  next
    case (Failure k)
    then show thesis using that assms unfolding sanctions_stage_def call by simp
  qed

  then show ?thesis using False fetch_failure [of fetch time ?cx s k st'] s
    by (auto simp: failure_status_def OUTAGE_KINDS_def sanctions_context_def)
qed

text \<open>C35. A listed company is escalated: once the stage reports complete, a company whose name agrees
  with an entry of the list up to case, spacing and legal form gets the tier escalate, whatever else is stored for the
  run.\<close>

theorem listed_company_escalates:
  assumes "sanctions_stage n backoff fetch new_id time run ni stored next st = ((rows, next', ''complete''), Some es, w')"
    and "ni_company ni = Some c" and "e \<in> set es" and "normalize_name (sdn_name e) = normalize_name c"
    and "set rows \<subseteq> set all"
  shows "result_tier (engine_score today q all fcs) = escalate"
proof -
  obtain new where new: "rows = stored @ new" "map ev_field new = map ev_field (screen_names run time es [c])"
    "map raw_value new = map raw_value (screen_names run time es [c])"
    using stage_complete [OF assms(1)] assms(2) by auto
  have "find_matches (normalize_name c) es \<noteq> []" using assms(3,4) by (auto simp: find_matches_def filter_empty_conv)
  then have "hits new \<noteq> []" using hits_fields [OF new(2,3)] screened_rows [of run time es c] by auto
  then obtain x where "x \<in> set new" "on_field ''sanctions_hit'' x" by (auto simp: hits_def filter_empty_conv)
  then have "x \<in> set all" and "critical_row x" using new(1) assms(5) by (auto simp: critical_row_def)
  then show ?thesis using critical_row_signal critical_escalates by blast
qed

section \<open>A listed and an unlisted company\<close>

definition acme_entry :: sdn_entry where
  "acme_entry = \<lparr>sdn_id = ''40'', sdn_name = ''ACME TRADING LTD'', sdn_type = None, sdn_program = Some ''CUBA'', sdn_remarks = None\<rparr>"

definition acme :: "string \<Rightarrow> normalized_input" where
  "acme name = \<lparr>ni_company = Some name, ni_domain = None, ni_country = None, ni_tax_id = None, ni_email = None\<rparr>"

lemma acme_listed: "normalize_name (sdn_name acme_entry) = normalize_name ''Acme  trading Inc.''"
  by code_simp

lemma acme_stage: "sanctions_stage 3 1 (\<lambda>w. (None, w)) nat_digits 5 ''r1'' (acme ''Acme  trading Inc.'') [] 0 (Some [acme_entry], ())
   = ((fst (store_rows nat_digits 5 (screen_names ''r1'' 5 [acme_entry] [''Acme  trading Inc.'']) 0), 2, ''complete''), Some [acme_entry], ())"
proof -
  have two: "length (screen_names ''r1'' 5 [acme_entry] [''Acme  trading Inc.'']) = 2"
    using acme_listed by (simp add: screen_names_def screen_name_def find_matches_def)
  obtain rows m where s: "store_rows nat_digits 5 (screen_names ''r1'' 5 [acme_entry] [''Acme  trading Inc.'']) 0 = (rows, m)"
    by (metis surj_pair)
  then have "m = 2" using store_rows_fields [OF s] two by simp
  with s show ?thesis
    by (simp add: sanctions_stage_def retry_call_def sanctions_fetch_def load_sdn_list_def sanctions_context_def acme_def
        truthy_def text_or_def numeral_eq_Suc transient_def)
qed

lemma listed_company_escalates_witness:
  "result_tier (engine_score 0 None (fst (store_rows nat_digits 5 (screen_names ''r1'' 5 [acme_entry] [''Acme  trading Inc.'']) 0)) []) = escalate"
  by (rule listed_company_escalates [OF acme_stage, of "''Acme  trading Inc.''" acme_entry]) (simp_all add: acme_def acme_listed)

lemma sanctions_result_exact_witness:
  "map raw_value (hits (fst (store_rows nat_digits 5 (screen_names ''r1'' 5 [acme_entry] [''Acme  trading Inc.'']) 0))) = [Some ''ACME TRADING LTD'']"
  using sanctions_result_exact [OF acme_stage] acme_listed
  by (auto simp: acme_def find_matches_def acme_entry_def)

text \<open>The legal form \<open>Limited\<close> is not among those stripped, unlike \<open>Ltd\<close>.\<close>

lemma limited_is_kept: "strip_legal_suffix ''Acme Limited'' = ''Acme Limited''" "strip_legal_suffix ''Acme Ltd'' = ''Acme''"
    "normalize_name ''Acme Trading Limited'' \<noteq> normalize_name (sdn_name acme_entry)"
  by code_simp+

end
