(* ===== verification/Tax_Id.thy ===== *)
theory Tax_Id
  imports Sanctions
begin

text \<open>
  \<open>app/adapters/tax_id.py\<close>: the core of a company name and the verification of a US tax identifier. The provider is a
  lookup on the outside world; the one in memory and the unconfigured one are those of the source.
\<close>

section \<open>Core names\<close>

definition FORM_WORDS :: "string list" where
  "FORM_WORDS = [''inc'', ''incorporated'', ''corp'', ''corporation'', ''co'', ''company'', ''llc'', ''l.l.c'', ''ltd'', ''limited'',
     ''lp'', ''llp'', ''plc'', ''pllc'', ''pc'']"

definition past_comma :: "string \<Rightarrow> string" where
  \<comment> \<open>what follows \<open>\s*,?\s*\<close>\<close>
  "past_comma s = (let r = dropWhile is_space s in
     if r \<noteq> [] \<and> hd r = CHR '','' then dropWhile is_space (tl r) else r)"

definition form_at :: "string \<Rightarrow> nat \<Rightarrow> bool" where
  \<comment> \<open>\<open>_LEGAL_SUFFIX\<close> matches from a position\<close>
  "form_at s i = (let r = past_comma (drop i s); w = str_lower (rstrip_space r)
     in r \<noteq> [] \<and> boundary (length s - length r) s \<and> list_ex (\<lambda>f. w = f \<or> w = f @ ''.'') FORM_WORDS)"

definition strip_form :: "string \<Rightarrow> string" where
  "strip_form s = str_strip (case find (form_at s) [0..<length s] of None \<Rightarrow> s | Some i \<Rightarrow> take i s)"

lemma strip_length: "length (str_strip s) \<le> length s"
  unfolding str_strip_def
  by (metis le_trans length_dropWhile_le length_rev)

lemma dropWhile_same: "length (dropWhile P xs) = length xs \<Longrightarrow> dropWhile P xs = xs"
proof (cases xs)
  case (Cons y ys)
  then show "length (dropWhile P xs) = length xs \<Longrightarrow> dropWhile P xs = xs"
    using length_dropWhile_le [of P ys] by auto
qed simp

lemma strip_form_shorter: "strip_form s \<noteq> s \<Longrightarrow> length (strip_form s) < length s"
proof -
  assume changed: "strip_form s \<noteq> s"
  define t where "t = (case find (form_at s) [0..<length s] of None \<Rightarrow> s | Some i \<Rightarrow> take i s)"
  have t: "strip_form s = str_strip t" by (simp add: strip_form_def t_def)
  have "t = s \<or> length t < length s"
    by (auto simp: t_def find_Some_iff split: option.split)
  moreover have "length (str_strip s) < length s" if "str_strip s \<noteq> s"
  proof -
    have "length (str_strip s) \<noteq> length s"
    proof
      assume eq: "length (str_strip s) = length s"
      have "length (dropWhile is_space s) = length s"
        using eq unfolding str_strip_def by (metis le_antisym length_dropWhile_le length_rev)
      then have one: "dropWhile is_space s = s" by (rule dropWhile_same)
      then have "length (dropWhile is_space (rev s)) = length (rev s)" using eq by (simp add: str_strip_def)
      then have "dropWhile is_space (rev s) = rev s" by (rule dropWhile_same)
      then show False using that one by (simp add: str_strip_def)
    qed
    then show ?thesis using strip_length [of s] by simp
  qed
  ultimately show ?thesis using changed strip_length [of t] unfolding t by (metis le_less_trans)
qed

text \<open>The loop that strips legal forms: it ends because every round shortens the name.\<close>

function strip_forms :: "string \<Rightarrow> string" where
  "strip_forms value = (let stripped = strip_form value in
     if stripped = value \<or> stripped = [] then value else strip_forms stripped)"
  by auto
termination by (relation "measure length") (auto intro: strip_form_shorter)

declare strip_forms.simps [simp del]

definition core_name :: "string option \<Rightarrow> string" where
  "core_name name = (if \<not> truthy name then [] else
     str_join '' '' (str_split (map (\<lambda>c. if word_char c \<or> is_space c then c else CHR '' '')
       (str_lower (strip_forms (str_strip (text_or name '''')))))))"

definition names_match :: "string option \<Rightarrow> string option \<Rightarrow> bool" where
  "names_match submitted registered = (core_name submitted \<noteq> [] \<and> core_name submitted = core_name registered)"

definition normalize_fein :: "string option \<Rightarrow> string option" where
  "normalize_fein raw = (let digits = filter is_digit (text_or raw '''') in
     if \<not> truthy raw then None else if length digits = 9 then Some digits else None)"

section \<open>Providers\<close>

record tax_record =
  tx_status :: "string option"
  tx_registered :: "string option"
  tx_entity_type :: "string option"
  tx_jurisdiction :: "string option"

datatype lookup_result = Found tax_record | Unknown_Fein | Not_Configured | Lookup_Timeout | Lookup_Limited | Lookup_Error

datatype tax_provider = Unconfigured | Stub

definition provider_name :: "tax_provider \<Rightarrow> string" where
  "provider_name p = (case p of Unconfigured \<Rightarrow> ''unconfigured'' | Stub \<Rightarrow> ''stub'')"

definition DEFAULT_STUB_RECORDS :: "(string \<times> tax_record) list" where
  "DEFAULT_STUB_RECORDS =
    [(''123456789'', \<lparr>tx_status = Some ''active'', tx_registered = Some ''Acme Corporation'',
        tx_entity_type = Some ''corporation'', tx_jurisdiction = Some ''US-DE''\<rparr>),
     (''987654321'', \<lparr>tx_status = Some ''dissolved'', tx_registered = Some ''Old Shell LLC'',
        tx_entity_type = Some ''llc'', tx_jurisdiction = Some ''US-NV''\<rparr>)]"

definition lookup_fein :: "tax_provider \<Rightarrow> string \<Rightarrow> 'w \<Rightarrow> lookup_result \<times> 'w" where
  "lookup_fein p fein w = (case p of
       Unconfigured \<Rightarrow> (Not_Configured, w)
     | Stub \<Rightarrow> (case map_of DEFAULT_STUB_RECORDS fein of None \<Rightarrow> Unknown_Fein | Some r \<Rightarrow> Found r, w))"

definition provider_from_env :: "string option \<Rightarrow> tax_provider option" where
  "provider_from_env setting = (let choice = str_lower (str_strip (text_or setting '''')) in
     if choice \<in> {'''', ''none'', ''unconfigured''} then Some Unconfigured
     else if choice = ''stub'' then Some Stub else None)"

section \<open>The adapter and its stage\<close>

definition ACTIVE_STATUSES :: "string list" where
  "ACTIVE_STATUSES = [''active'', ''good standing'', ''in good standing'']"

definition text_item :: "string \<Rightarrow> string option \<Rightarrow> (string \<times> json) list" where
  "text_item k v = (case v of None \<Rightarrow> [] | Some s \<Rightarrow> [(k, JText s)])"

definition tax_json :: "tax_record \<Rightarrow> (string \<times> json) list" where
  "tax_json r = text_item ''status'' (tx_status r) @ text_item ''registered_name'' (tx_registered r)
     @ text_item ''entity_type'' (tx_entity_type r) @ text_item ''jurisdiction'' (tx_jurisdiction r)"

definition tax_row :: "string \<Rightarrow> string \<Rightarrow> int \<Rightarrow> string \<Rightarrow> string option \<Rightarrow> string option \<Rightarrow> (string \<times> json) list \<Rightarrow> rat \<Rightarrow> evidence" where
  "tax_row who run time field raw normalized details conf =
     new_row run ''tax_id'' 1 field raw normalized conf details [(''provider'', JText who)] time"

definition json_or_null :: "string option \<Rightarrow> json" where
  "json_or_null v = (case v of None \<Rightarrow> JNull | Some s \<Rightarrow> JText s)"

definition record_rows :: "string \<Rightarrow> adapter_context \<Rightarrow> int \<Rightarrow> tax_record \<Rightarrow> evidence list" where
  "record_rows who cx time r =
    (let row = (\<lambda>field raw normalized details conf. tax_row who (cx_run cx) time field raw normalized details conf);
         provider_status = str_lower (str_strip (text_or (tx_status r) ''''));
         status = (if provider_status \<in> set ACTIVE_STATUSES then ''verified'' else ''inactive'');
         matched = names_match (cx_company cx) (tx_registered r);
         names = (if \<not> truthy (tx_registered r) then [] else
           [row ''tax_id_registered_name'' (tx_registered r) None (tax_json r) (dec 9 1),
            row ''tax_id_name_match'' (Some (if matched then ''match'' else ''mismatch'')) None
              [(''submitted'', json_or_null (cx_company cx)), (''registered'', json_or_null (tx_registered r))]
              (if matched then dec 95 2 else dec 9 1)])
     in row ''tax_id_status'' (some_text provider_status) (Some status) (tax_json r) (dec 9 1) # names
        @ (if truthy (tx_entity_type r) then [row ''tax_id_entity_type'' (tx_entity_type r) None (tax_json r) (dec 9 1)] else [])
        @ (if truthy (tx_jurisdiction r) then [row ''tax_id_jurisdiction'' (tx_jurisdiction r) None (tax_json r) (dec 9 1)] else []))"

definition not_found_row :: "string \<Rightarrow> string \<Rightarrow> int \<Rightarrow> string \<Rightarrow> string \<Rightarrow> evidence" where
  "not_found_row who run time raw reason = tax_row who run time ''tax_id_status'' (Some raw) (Some ''not_found'')
     [(''reason'', JText reason)] (dec 9 1)"

definition tax_fetch :: "string \<Rightarrow> (string \<Rightarrow> 'w \<Rightarrow> lookup_result \<times> 'w) \<Rightarrow> int \<Rightarrow> adapter_context \<Rightarrow> 'w \<Rightarrow> adapter_result \<times> 'w" where
  "tax_fetch who look time cx w =
    (if \<not> truthy (cx_tax_id cx) then (Failure Unavailable, w)
     else if str_upper (text_or (cx_country cx) '''') \<noteq> ''US'' then (Failure Unavailable, w)
     else case normalize_fein (cx_tax_id cx) of
         None \<Rightarrow> (Success [not_found_row who (cx_run cx) time ''invalid_format'' ''invalid_format''], w)
       | Some fein \<Rightarrow> (case look fein w of (answer, w) \<Rightarrow>
           (case answer of
              Not_Configured \<Rightarrow> Failure Unavailable
            | Lookup_Timeout \<Rightarrow> Failure Timeout
            | Lookup_Limited \<Rightarrow> Failure RateLimited
            | Lookup_Error \<Rightarrow> Failure Unavailable
            | Unknown_Fein \<Rightarrow> Success [not_found_row who (cx_run cx) time ''not_found'' ''unknown_identifier'']
            | Found r \<Rightarrow> Success (record_rows who cx time r), w)))"

definition tax_context :: "string \<Rightarrow> normalized_input \<Rightarrow> adapter_context" where
  "tax_context run ni = (sanctions_context run ni)\<lparr>cx_email := None\<rparr>"

definition tax_stage :: "int \<Rightarrow> rat \<Rightarrow> string \<Rightarrow> (string \<Rightarrow> 'w \<Rightarrow> lookup_result \<times> 'w) \<Rightarrow> (nat \<Rightarrow> string) \<Rightarrow> int \<Rightarrow> string
    \<Rightarrow> normalized_input \<Rightarrow> evidence list \<Rightarrow> nat \<Rightarrow> 'w \<Rightarrow> (evidence list \<times> nat \<times> string \<times> string option) \<times> 'w" where
  "tax_stage attempts backoff who look new_key time run ni stored next w =
    (let (result, waits, w) = retry_call attempts backoff (tax_fetch who look time (tax_context run ni)) w
     in case result of
          Success rows \<Rightarrow>
            let (rows', next) = store_rows new_key time rows next;
                status = (case find (on_field ''tax_id_status'') rows of None \<Rightarrow> None | Some e \<Rightarrow> normalized_value e)
            in ((stored @ rows', next, ''complete'', status), w)
        | Failure k \<Rightarrow> ((stored, next, failure_status k, None), w))"

text \<open>Even without a provider a number that has not nine digits is stored as not found.\<close>

lemma invalid_number_without_provider:
  assumes "cx_tax_id cx = Some ''12-34''" and "cx_country cx = Some ''US''"
  shows "tax_fetch (provider_name Unconfigured) (lookup_fein Unconfigured) time cx w
    = (Success [not_found_row ''unconfigured'' (cx_run cx) time ''invalid_format'' ''invalid_format''], w)"
proof -
  have "normalize_fein (Some ''12-34'') = None" and "str_upper ''US'' = ''US''" by code_simp+
  then show ?thesis using assms by (simp add: tax_fetch_def truthy_def text_or_def provider_name_def)
qed

end
