(* ===== verification/Sam.thy ===== *)
theory Sam
  imports Tax_Id
begin

text \<open>
  The daily extract of SAM.gov exclusions (\<open>app/lists/sam.py\<close>): the download with its limits, the parser of the archive
  and the ingest that replaces the stored snapshot. HTTP, the ZIP container, the digest and the joining of URLs are
  parameters; the lengths of texts count bytes.
\<close>

section \<open>Rows\<close>

record sam_record =
  sam_number :: string
  classification :: string
  sam_name :: string
  first_name :: string
  last_name :: string
  sam_core :: string
  city :: string
  state :: string
  sam_country :: string
  uei :: string
  cage :: string
  exclusion_program :: string
  excluding_agency :: string
  exclusion_type :: string
  active_date :: "int option"
  termination_date :: "int option"
  termination_indefinite :: bool
  cross_reference :: string

definition REQUIRED_COLUMNS :: "string list" where
  "REQUIRED_COLUMNS = [''Classification'', ''Name'', ''First'', ''Last'', ''City'', ''State / Province'', ''Country'',
     ''Unique Entity ID'', ''Exclusion Program'', ''Excluding Agency'', ''Exclusion Type'', ''Active Date'',
     ''Termination Date'', ''Cross-Reference'', ''SAM Number'', ''CAGE'']"

text \<open>\<open>strptime\<close> with the two formats; a day of the month may be written with a blank.\<close>

definition numbers_written :: "nat \<Rightarrow> (string \<times> int) list" where
  "numbers_written n = concat (map (\<lambda>i. (if i < 10 then [(CHR ''0'' # nat_digits i, int i)] else []) @ [(nat_digits i, int i)]) [1..<Suc n])"

definition read_month :: "string \<Rightarrow> int option" where
  "read_month s = map_of (numbers_written 12) s"

definition read_day :: "string \<Rightarrow> int option" where
  "read_day s = map_of (numbers_written 31 @ map (\<lambda>i. (CHR '' '' # nat_digits i, int i)) [1..<10]) s"

definition read_year :: "string \<Rightarrow> int option" where
  "read_year s = (if length s = 4 \<and> all_digits s then Some (digits_int s) else None)"

definition sam_date :: "string \<Rightarrow> int option" where
  "sam_date value =
    (let dashed = (case split_on CHR ''-'' value of
         [y, m, d] \<Rightarrow> do {y \<leftarrow> read_year y; m \<leftarrow> read_month m; d \<leftarrow> read_day d; ymd_ordinal y m d} | _ \<Rightarrow> None);
         slashed = (case split_on CHR ''/'' value of
         [m, d, y] \<Rightarrow> do {y \<leftarrow> read_year y; m \<leftarrow> read_month m; d \<leftarrow> read_day d; ymd_ordinal y m d} | _ \<Rightarrow> None)
     in if dashed \<noteq> None then dashed else slashed)"

text \<open>The widths of the table's columns, and a value cut to one.\<close>

definition clip :: "nat \<Rightarrow> string \<Rightarrow> string" where
  "clip limit s = (if limit < length s then take limit s else s)"

definition over :: "nat \<Rightarrow> string \<Rightarrow> nat" where
  "over limit s = (if limit < length s then 1 else 0)"

definition clip_record :: "sam_record \<Rightarrow> sam_record" where
  "clip_record r = r\<lparr>sam_number := clip 64 (sam_number r), classification := clip 64 (classification r),
     first_name := clip 128 (first_name r), last_name := clip 128 (last_name r), sam_core := clip 255 (sam_core r),
     city := clip 150 (city r), state := clip 150 (state r), sam_country := clip 8 (sam_country r), uei := clip 32 (uei r),
     cage := clip 16 (cage r), exclusion_program := clip 64 (exclusion_program r),
     excluding_agency := clip 64 (excluding_agency r), exclusion_type := clip 128 (exclusion_type r)\<rparr>"

definition truncations :: "sam_record \<Rightarrow> nat" where
  "truncations r = over 64 (sam_number r) + over 64 (classification r) + over 128 (first_name r) + over 128 (last_name r)
     + over 255 (sam_core r) + over 150 (city r) + over 150 (state r) + over 8 (sam_country r) + over 32 (uei r)
     + over 16 (cage r) + over 64 (exclusion_program r) + over 64 (excluding_agency r) + over 128 (exclusion_type r)"

definition sam_cell :: "cells \<Rightarrow> string \<Rightarrow> string" where
  "sam_cell raw key = str_strip (filter (\<lambda>c. c \<noteq> CHR 0x00) (text_or (Option.bind (map_of raw key) id) ''''))"

definition sam_display :: "cells \<Rightarrow> string" where
  "sam_display raw = (let cell = sam_cell raw in if cell ''Name'' \<noteq> [] then cell ''Name''
     else str_join '' '' (filter (\<lambda>p. p \<noteq> []) [cell ''First'', cell ''Last'']))"

definition sam_fields :: "cells \<Rightarrow> string \<Rightarrow> sam_record" where
  "sam_fields raw key = (let cell = sam_cell raw; termination = cell ''Termination Date'' in
     \<lparr>sam_number = cell ''SAM Number'', classification = cell ''Classification'', sam_name = cell ''Name'',
      first_name = cell ''First'', last_name = cell ''Last'', sam_core = key, city = cell ''City'',
      state = cell ''State / Province'', sam_country = cell ''Country'', uei = cell ''Unique Entity ID'',
      cage = cell ''CAGE'', exclusion_program = cell ''Exclusion Program'', excluding_agency = cell ''Excluding Agency'',
      exclusion_type = cell ''Exclusion Type'', active_date = sam_date (cell ''Active Date''),
      termination_date = sam_date termination, termination_indefinite = (str_lower termination = ''indefinite''),
      cross_reference = cell ''Cross-Reference''\<rparr>)"

definition sam_row :: "cells \<Rightarrow> (sam_record \<times> nat) option" where
  "sam_row raw =
    (let key = core_name (Some (sam_display raw)); r = sam_fields raw key
     in if key = [] \<or> sam_cell raw ''SAM Number'' = [] then None else Some (clip_record r, truncations r))"

section \<open>The archive\<close>

record member_file =
  mb_name :: string
  mb_size :: nat
  mb_data :: "string option"  \<comment> \<open>None when reading it fails\<close>

record parsed_extract =
  pe_records :: "sam_record list"
  pe_skipped :: nat
  pe_truncated :: nat
  pe_sha :: string

definition MAX_UNCOMPRESSED_BYTES :: nat where "MAX_UNCOMPRESSED_BYTES = 300000000"
definition MAX_SKIPPED_FRACTION :: rat where "MAX_SKIPPED_FRACTION = dec 5 2"
definition MIN_SKIPPED_TO_REJECT :: nat where "MIN_SKIPPED_TO_REJECT = 5"

definition strip_bom :: "string \<Rightarrow> string" where
  \<comment> \<open>the \<open>utf-8-sig\<close> codec drops one mark\<close>
  "strip_bom s = (if prefix [CHR 0xEF, CHR 0xBB, CHR 0xBF] s then drop 3 s else s)"

definition ends_with :: "string \<Rightarrow> string \<Rightarrow> bool" where
  "ends_with t s = suffix t s"

definition extract_rows :: "(string \<Rightarrow> string) \<Rightarrow> string \<Rightarrow> string list \<times> cells list \<Rightarrow> parsed_extract option" where
  "extract_rows digest data table = (case table of (names, rows) \<Rightarrow>
     if list_ex (\<lambda>c. c \<notin> set names) REQUIRED_COLUMNS then None
     else let kept = List.map_filter sam_row rows
       in Some \<lparr>pe_records = map fst kept, pe_skipped = length (filter (\<lambda>r. sam_row r = None) rows),
                pe_truncated = sum_list (map snd kept), pe_sha = digest data\<rparr>)"

definition usable :: "parsed_extract \<Rightarrow> bool" where
  "usable p = (let total = length (pe_records p) + pe_skipped p
     in pe_records p \<noteq> [] \<and> \<not> (MIN_SKIPPED_TO_REJECT < pe_skipped p
          \<and> fl (rat_of_nat total * MAX_SKIPPED_FRACTION) < rat_of_nat (pe_skipped p)))"

definition parse_extract :: "(string \<Rightarrow> member_file list option) \<Rightarrow> (string \<Rightarrow> bool) \<Rightarrow> (string \<Rightarrow> string) \<Rightarrow> nat \<Rightarrow> string
    \<Rightarrow> parsed_extract option" where
  \<comment> \<open>\<open>valid\<close> tells whether bytes are UTF-8; None is an \<open>ExtractError\<close>\<close>
  "parse_extract unzip valid digest cap data = do {
     members \<leftarrow> unzip data;
     m \<leftarrow> (case members of [m] \<Rightarrow> if ends_with ''.csv'' (str_lower (mb_name m)) then Some m else None | _ \<Rightarrow> None);
     content \<leftarrow> (if cap < mb_size m then None else mb_data m);
     rows \<leftarrow> (if cap < length content \<or> \<not> valid content then None else csv_file_reader (strip_bom content));
     p \<leftarrow> extract_rows digest content (dict_rows rows);
     if usable p then Some p else None
   }"

section \<open>The download\<close>

definition EXTRACT_URL :: string where "EXTRACT_URL = ''https://api.sam.gov/data-services/v1/extracts''"
definition MAX_DOWNLOAD_BYTES :: nat where "MAX_DOWNLOAD_BYTES = 50000000"
definition DOWNLOAD_DEADLINE_S :: rat where "DOWNLOAD_DEADLINE_S = 600"
definition MAX_REDIRECTS :: nat where "MAX_REDIRECTS = 3"

text \<open>\<open>urlsplit\<close>: the scheme and the network location.\<close>

definition scheme_char :: "char \<Rightarrow> bool" where
  "scheme_char c = (is_letter c \<or> is_digit c \<or> c \<in> set ''+-.'')"

definition clean_url :: "string \<Rightarrow> string" where
  "clean_url url = filter (\<lambda>c. c \<notin> {CHR 0x09, CHR 0x0A, CHR 0x0D}) (dropWhile (\<lambda>c. of_char c \<le> (32 :: nat)) url)"

definition split_scheme :: "string \<Rightarrow> string \<times> string" where
  "split_scheme url =
    (let (before, after) = partition_at CHR '':'' url
     in if CHR '':'' \<in> set url \<and> before \<noteq> [] \<and> is_letter (hd before) \<and> list_all scheme_char before
        then (str_lower before, after) else ('''', url))"

definition url_scheme :: "string \<Rightarrow> string" where
  "url_scheme url = fst (split_scheme (clean_url url))"

definition url_netloc :: "string \<Rightarrow> string" where
  "url_netloc url = (let rest = snd (split_scheme (clean_url url))
     in if prefix ''//'' rest then takeWhile (\<lambda>c. c \<notin> set ''/?#'') (drop 2 rest) else [])"

text \<open>What a GET of the client comes to: an exception with its message, or a status, a \<open>location\<close> and the chunks of the
  body, each with the clock at its arrival, None where reading on fails.\<close>

datatype reply = Broken string | Reply int string "(rat \<times> string option) list"

fun read_body :: "nat \<Rightarrow> rat \<Rightarrow> rat \<Rightarrow> string \<Rightarrow> (rat \<times> string option) list \<Rightarrow> string + string" where
  "read_body max_bytes deadline started got [] = Inr got"
| "read_body max_bytes deadline started got ((t, chunk) # rest) = (case chunk of
       None \<Rightarrow> Inl ''read error''
     | Some c \<Rightarrow>
         if deadline < t - started then Inl ''download passed its deadline''
         else if max_bytes < length got + length c then Inl (''download too large (> '' @ nat_digits max_bytes @ '' bytes)'')
         else read_body max_bytes deadline started (got @ c) rest)"

text \<open>The requests made, in order, each with its URL and whether it carried the key.\<close>

fun follow :: "(string \<Rightarrow> string option \<Rightarrow> 'w \<Rightarrow> reply \<times> 'w) \<Rightarrow> (string \<Rightarrow> string \<Rightarrow> string) \<Rightarrow> nat \<Rightarrow> rat \<Rightarrow> rat \<Rightarrow> string
    \<Rightarrow> nat \<Rightarrow> string \<Rightarrow> string option \<Rightarrow> (string \<times> bool) list \<Rightarrow> 'w \<Rightarrow> (string + string) \<times> (string \<times> bool) list \<times> 'w" where
  "follow http urljoin max_bytes deadline started origin 0 url params sent w = (Inl ''too many redirects'', sent, w)"
| "follow http urljoin max_bytes deadline started origin (Suc n) url params sent w =
    (if url_scheme url \<noteq> ''https'' then (Inl ''refusing a non-https extract URL'', sent, w)
     else let (answer, w) = http url params w; sent = sent @ [(url, params \<noteq> None)]
       in case answer of
            Broken msg \<Rightarrow> (Inl msg, sent, w)
          | Reply status location chunks \<Rightarrow>
              if status \<in> {301, 302, 303, 307, 308}
              then let url = urljoin url location;
                       params = (if url_netloc url \<noteq> origin then None else params)
                in follow http urljoin max_bytes deadline started origin n url params sent w
              else if status \<noteq> 200 then (Inl (''HTTP '' @ str_of_int status), sent, w)
              else (read_body max_bytes deadline started [] chunks, sent, w))"

text \<open>\<open>str.replace\<close>\<close>

function replace_all :: "string \<Rightarrow> string \<Rightarrow> string \<Rightarrow> string" where
  "replace_all old new s = (if old = [] \<or> s = [] then s
     else if prefix old s then new @ replace_all old new (drop (length old) s)
     else hd s # replace_all old new (tl s))"
  by auto
termination by (relation "measure (\<lambda>(old, new, s). length s)") auto

declare replace_all.simps [simp del]

definition default_fetch :: "(string \<Rightarrow> string option \<Rightarrow> 'w \<Rightarrow> reply \<times> 'w) \<Rightarrow> (string \<Rightarrow> string \<Rightarrow> string) \<Rightarrow> (string \<Rightarrow> string)
    \<Rightarrow> string option \<Rightarrow> rat \<Rightarrow> nat \<Rightarrow> rat \<Rightarrow> 'w \<Rightarrow> (string + string) \<times> (string \<times> bool) list \<times> 'w" where
  \<comment> \<open>\<open>quote\<close> is the percent-encoding of the key\<close>
  "default_fetch http urljoin quote setting started max_bytes deadline w =
    (let key = str_strip (text_or setting '''')
     in if key = [] then (Inl ''SAM_API_KEY is not set'', [], w)
        else let (result, sent, w) = follow http urljoin max_bytes deadline started (url_netloc EXTRACT_URL) (MAX_REDIRECTS + 1)
                 EXTRACT_URL (Some key) [] w
          in (case result of
                Inl msg \<Rightarrow> Inl (''SAM extract fetch failed: '' @ replace_all (quote key) ''***'' (replace_all key ''***'' msg))
              | Inr data \<Rightarrow> Inr data, sent, w))"

section \<open>The ingest\<close>

definition SAM_SOURCE :: string where "SAM_SOURCE = ''sam_exclusions''"
definition KEEP_SNAPSHOTS :: int where "KEEP_SNAPSHOTS = 7"
definition MIN_ROW_FRACTION :: rat where "MIN_ROW_FRACTION = dec 5 1"
definition INSERT_CHUNK :: nat where "INSERT_CHUNK = 5000"

record sam_snapshot = list_snapshot +
  snap_created :: int

record sam_stored = sam_record +
  sx_id :: string
  sx_snapshot :: string

record sam_db =
  sd_snapshots :: "sam_snapshot list"
  sd_rows :: "sam_stored list"
  sd_next :: nat

definition newest_first :: "sam_db \<Rightarrow> sam_snapshot list" where
  "newest_first db = rev (sort_key (\<lambda>s. (snap_retrieved_at s, snap_created s, snap_id s))
     (filter (\<lambda>s. snap_source s = SAM_SOURCE) (sd_snapshots db)))"

definition latest_snapshot :: "sam_db \<Rightarrow> sam_snapshot option" where
  "latest_snapshot db = (case newest_first db of [] \<Rightarrow> None | s # _ \<Rightarrow> Some s)"

definition prune_one :: "sam_snapshot \<Rightarrow> sam_db \<Rightarrow> sam_db" where
  "prune_one old db = db\<lparr>sd_rows := filter (\<lambda>r. sx_snapshot r \<noteq> snap_id old) (sd_rows db),
     sd_snapshots := filter (\<lambda>s. snap_id s \<noteq> snap_id old) (sd_snapshots db)\<rparr>"

definition prune :: "int \<Rightarrow> sam_db \<Rightarrow> sam_db" where
  "prune keep db = fold prune_one (drop (nat (max 1 keep)) (newest_first db)) db"

definition stored_row :: "string \<Rightarrow> string \<Rightarrow> sam_record \<Rightarrow> sam_stored" where
  "stored_row i sid r = sam_record.extend r \<lparr>sx_id = i, sx_snapshot = sid\<rparr>"

function insert_rows :: "(nat \<Rightarrow> string) \<Rightarrow> string \<Rightarrow> sam_record list \<Rightarrow> sam_db \<Rightarrow> sam_db" where
  \<comment> \<open>in chunks, each one statement\<close>
  "insert_rows new_key sid records db = (if records = [] then db
     else let part = take INSERT_CHUNK records;
              rows = map2 (\<lambda>i r. stored_row (new_key i) sid r) [sd_next db..<sd_next db + length part] part
       in insert_rows new_key sid (drop INSERT_CHUNK records)
            (db\<lparr>sd_rows := sd_rows db @ rows, sd_next := sd_next db + length part\<rparr>))"
  by auto
termination by (relation "measure (\<lambda>(new_key, sid, records, db). length records)") (auto simp: INSERT_CHUNK_def)

declare insert_rows.simps [simp del]

datatype sam_result = Sam_Failed string | Sam_Unchanged string | Sam_Collapsed int nat | Store_Failed
  | Sam_Ingested string nat nat

text \<open>\<open>fetched\<close> is the download, \<open>store_ok\<close> and \<open>prune_ok\<close> whether the database took the two transactions.\<close>

definition sam_store :: "(nat \<Rightarrow> string) \<Rightarrow> int \<Rightarrow> int \<Rightarrow> parsed_extract \<Rightarrow> bool \<Rightarrow> bool \<Rightarrow> sam_db \<Rightarrow> sam_result \<times> sam_db" where
  "sam_store new_key time keep p store_ok prune_ok db =
    (if \<not> store_ok then (Store_Failed, db)
     else let snap = \<lparr>snap_id = new_key (sd_next db), snap_source = SAM_SOURCE, snap_retrieved_at = time, snap_sha = pe_sha p,
                snap_count = int (length (pe_records p)), snap_created = time\<rparr>;
              db1 = db\<lparr>sd_snapshots := sd_snapshots db @ [snap], sd_next := Suc (sd_next db)\<rparr>;
              db2 = insert_rows new_key (snap_id snap) (pe_records p) db1
       in (Sam_Ingested (snap_id snap) (length (pe_records p)) (pe_skipped p), if prune_ok then prune keep db2 else db2))"

definition sam_ingest :: "(string \<Rightarrow> parsed_extract option) \<Rightarrow> (nat \<Rightarrow> string) \<Rightarrow> int \<Rightarrow> int \<Rightarrow> string + string \<Rightarrow> bool \<Rightarrow> bool \<Rightarrow> sam_db
    \<Rightarrow> sam_result \<times> sam_db" where
  "sam_ingest parse new_key time keep fetched store_ok prune_ok db = (case fetched of
       Inl msg \<Rightarrow> (Sam_Failed msg, db)
     | Inr data \<Rightarrow> (case parse data of
         None \<Rightarrow> (Sam_Failed ''unusable extract'', db)
       | Some p \<Rightarrow>
           let n = length (pe_records p); latest = latest_snapshot db
           in case latest of
                Some s \<Rightarrow>
                  if snap_sha s = pe_sha p then (Sam_Unchanged (snap_id s), db)
                  else if rat_of_nat n < fl (rat_of_int (snap_count s) * MIN_ROW_FRACTION)
                  then (Sam_Collapsed (snap_count s) n, db)
                  else sam_store new_key time keep p store_ok prune_ok db
              | None \<Rightarrow> sam_store new_key time keep p store_ok prune_ok db))"

end
