(* ===== verification/Sam_Laws.thy ===== *)
theory Sam_Laws
  imports Sam
begin

text \<open>
  What the SAM ingest promises: the API key goes to the extract's own host over HTTPS only and never appears in an error,
  a bad download never replaces the stored snapshot, and every stored row fits its columns.
\<close>

section \<open>The download\<close>

definition safe_request :: "string \<Rightarrow> string \<times> bool \<Rightarrow> bool" where
  "safe_request origin s = (case s of (url, keyed) \<Rightarrow> url_scheme url = ''https'' \<and> (keyed \<longrightarrow> url_netloc url = origin))"

lemma read_body_bound: "read_body cap deadline started got chunks = Inr data \<Longrightarrow> length got \<le> cap \<Longrightarrow> length data \<le> cap"
  by (induction cap deadline started got chunks rule: read_body.induct) (auto split: option.splits if_splits)

lemma follow_safe:
  assumes "follow http urljoin cap deadline started origin n url params sent w = (r, sent', w')"
    and "list_all (safe_request origin) sent" and "params \<noteq> None \<longrightarrow> url_netloc url = origin"
  shows "list_all (safe_request origin) sent' \<and> length sent' \<le> length sent + n \<and> (\<forall>d. r = Inr d \<longrightarrow> length d \<le> cap)"
  using assms
proof (induction n arbitrary: url params sent w)
  case (Suc n)
  show ?case
  proof (cases "url_scheme url = ''https''")
    case False
    then show ?thesis using Suc.prems by auto
  next
    case True
    obtain answer w2 where http: "http url params w = (answer, w2)" by (metis surj_pair)
    let ?sent = "sent @ [(url, params \<noteq> None)]"
    have "safe_request origin (url, params \<noteq> None)" using Suc.prems(3) True by (simp add: safe_request_def)
    then have sent: "list_all (safe_request origin) ?sent" using Suc.prems(2) by simp
    show ?thesis
    proof (cases answer)
      case (Broken msg)
      then show ?thesis using Suc.prems(1) True http sent by auto
    next
      case (Reply status location chunks)
      show ?thesis
      proof (cases "status \<in> {301, 302, 303, 307, 308}")
        case redirect: True
        let ?url = "urljoin url location"
        have "follow http urljoin cap deadline started origin n ?url (if url_netloc ?url \<noteq> origin then None else params) ?sent w2 = (r, sent', w')"
          using Suc.prems(1) True http Reply redirect by (simp add: Let_def)
        from Suc.IH [OF this sent] show ?thesis by (auto split: if_splits)
      next
        case final: False
        show ?thesis
        proof (cases "status = 200")
          case True
          then show ?thesis using Suc.prems(1) \<open>url_scheme url = ''https''\<close> http Reply sent read_body_bound [of cap deadline started "[]" chunks]
            by (auto simp: Let_def)
        next
          case False
          then show ?thesis using Suc.prems(1) \<open>url_scheme url = ''https''\<close> http Reply final sent by (auto simp: Let_def)
        qed
      qed
    qed
  qed
qed auto

section \<open>Masking the key\<close>

lemma in_parts: "str_in k s \<longleftrightarrow> (\<exists>a b. s = a @ k @ b)"
proof -
  have "str_in k s \<longleftrightarrow> (\<exists>x. suffix x s \<and> prefix k x)" by (auto simp: str_in_def list_ex_iff)
  then show ?thesis by (simp add: prefix_def suffix_def) metis
qed

lemma replace_prefix:
  assumes "CHR ''*'' \<notin> set k" and "prefix k (replace_all old ''***'' s)"
  shows "prefix k s"
  using assms
proof (induction old "''***''" s arbitrary: k rule: replace_all.induct)
  case (1 old s)
  show ?case
  proof (cases "old = [] \<or> s = []")
    case True
    then show ?thesis using 1(4) by (simp add: replace_all.simps [of old _ s])
  next
    case False
    show ?thesis
    proof (cases "prefix old s")
      case True
      then have "prefix k (''***'' @ replace_all old ''***'' (drop (length old) s))"
        using 1(4) False by (simp add: replace_all.simps [of old _ s])
      then have "k = []" using 1(3) by (cases k) auto
      then show ?thesis by simp
    next
      case no: False
      then have k: "prefix k (hd s # replace_all old ''***'' (tl s))"
        using 1(4) False by (simp add: replace_all.simps [of old _ s])
      show ?thesis
      proof (cases k)
        case (Cons c k')
        then have "prefix k' (tl s)" and "c = hd s" using 1(2) [OF False no, of k'] 1(3) k by auto
        then show ?thesis using Cons False by (cases s) auto
      qed simp
    qed
  qed
qed

lemma replace_step:
  assumes "k \<noteq> []" and "CHR ''*'' \<notin> set k" and "str_in k (''***'' @ t)"
  shows "str_in k t"
proof -
  obtain a b where ab: "''***'' @ t = a @ k @ b" using assms(3) in_parts by blast
  have "3 \<le> length a"
  proof (rule ccontr)
    assume "\<not> 3 \<le> length a"
    then have "length a = 0 \<or> length a = 1 \<or> length a = 2" by arith
    then have "(''***'' @ t) ! length a = CHR ''*''" by (elim disjE) simp_all
    moreover have "(a @ k @ b) ! length a = hd k" using assms(1) by (simp add: nth_append hd_conv_nth)
    ultimately have "hd k = CHR ''*''" using ab by simp
    then show False using assms(1,2) by (metis hd_in_set)
  qed
  then obtain a' where "a = take 3 a @ a'" by (metis append_take_drop_id)
  then have "t = drop 3 (a @ k @ b)" using ab [symmetric] by simp
  then have "t = drop 3 a @ k @ b" using \<open>3 \<le> length a\<close> by simp
  then show ?thesis using in_parts by blast
qed

lemma str_in_Cons: "str_in k (c # t) \<longleftrightarrow> prefix k (c # t) \<or> str_in k t"
  by (simp add: str_in_def list_ex_iff)

lemma replace_no_new:
  assumes "k \<noteq> []" and "CHR ''*'' \<notin> set k" and "str_in k (replace_all old ''***'' s)"
  shows "str_in k s"
  using assms
proof (induction old "''***''" s rule: replace_all.induct)
  case (1 old s)
  consider "old = [] \<or> s = []" | "\<not> (old = [] \<or> s = [])" "prefix old s" | "\<not> (old = [] \<or> s = [])" "\<not> prefix old s" by blast
  then show ?case
  proof cases
    case 1
    then show ?thesis using \<open>str_in k (replace_all old ''***'' s)\<close> by (simp add: replace_all.simps [of old _ s])
  next
    case 2
    then have "str_in k (''***'' @ replace_all old ''***'' (drop (length old) s))"
      using 1(5) by (simp add: replace_all.simps [of old _ s])
    then have "str_in k (drop (length old) s)" using 1(1) [OF 2] 1(3,4) replace_step by blast
    then show ?thesis using in_parts by (metis append_assoc append_take_drop_id)
  next
    case 3
    then have "str_in k (hd s # replace_all old ''***'' (tl s))" using 1(5) by (simp add: replace_all.simps [of old _ s])
    moreover have "s = hd s # tl s" using 3(1) by simp
    moreover have "prefix k s" if "prefix k (hd s # replace_all old ''***'' (tl s))"
      using that 3 replace_prefix [OF 1(4), of old s] by (simp add: replace_all.simps [of old _ s])
    ultimately show ?thesis using 1(2) [OF 3 1(3,4)] str_in_Cons by metis
  qed
qed

lemma replace_removes:
  assumes "k \<noteq> []" and "CHR ''*'' \<notin> set k"
  shows "\<not> str_in k (replace_all k ''***'' s)"
  using assms
proof (induction k "''***''" s rule: replace_all.induct)
  case (1 k s)
  consider "s = []" | "s \<noteq> []" "prefix k s" | "s \<noteq> []" "\<not> prefix k s" by blast
  then show ?case
  proof cases
    case 1
    then show ?thesis using \<open>k \<noteq> []\<close> by (simp add: replace_all.simps str_in_def)
  next
    case 2
    then have "replace_all k ''***'' s = ''***'' @ replace_all k ''***'' (drop (length k) s)"
      using 1(3) by (simp add: replace_all.simps [of k _ s])
    then show ?thesis using 1(1) 2 1(3,4) replace_step by metis
  next
    case 3
    then have r: "replace_all k ''***'' s = hd s # replace_all k ''***'' (tl s)"
      using 1(3) by (simp add: replace_all.simps [of k _ s])
    have "\<not> prefix k (replace_all k ''***'' s)" using replace_prefix [OF 1(4)] 3(2) by blast
    then show ?thesis using r 1(2) 3 1(3,4) str_in_Cons by metis
  qed
qed

lemma start_url: "url_scheme EXTRACT_URL = ''https''" "url_netloc EXTRACT_URL = ''api.sam.gov''"
  by code_simp+

lemma fetch_safe:
  assumes "default_fetch http urljoin quote setting started cap deadline w = (r, sent, w')"
  shows "list_all (safe_request ''api.sam.gov'') sent \<and> length sent \<le> 4 \<and> (\<forall>d. r = Inr d \<longrightarrow> length d \<le> cap)"
proof (cases "str_strip (text_or setting '''') = []")
  case True
  then show ?thesis using assms by (auto simp: default_fetch_def Let_def)
next
  case False
  let ?key = "str_strip (text_or setting '''')"
  obtain r' where f: "follow http urljoin cap deadline started ''api.sam.gov'' (MAX_REDIRECTS + 1) EXTRACT_URL (Some ?key) [] w = (r', sent, w')"
    and r: "\<forall>d. r = Inr d \<longrightarrow> r' = Inr d"
    using assms False start_url(2) by (auto simp: default_fetch_def Let_def split: prod.splits sum.splits)
  show ?thesis using follow_safe [OF f] r start_url(2) by (simp add: MAX_REDIRECTS_def)
qed

lemma fetch_masks:
  assumes "default_fetch http urljoin quote setting started cap deadline w = (Inl msg, sent, w')"
    and "str_strip (text_or setting '''') = key" and "key \<noteq> []" and "CHR ''*'' \<notin> set key"
  shows "\<exists>detail. msg = ''SAM extract fetch failed: '' @ detail \<and> \<not> str_in key detail"
proof -
  obtain raw where "msg = ''SAM extract fetch failed: '' @ replace_all (quote key) ''***'' (replace_all key ''***'' raw)"
    using assms(1,2,3) by (auto simp: default_fetch_def Let_def split: prod.splits sum.splits)
  moreover have "\<not> str_in key (replace_all (quote key) ''***'' (replace_all key ''***'' raw))"
    using replace_removes [OF assms(3,4)] replace_no_new [OF assms(3,4)] by blast
  ultimately show ?thesis by blast
qed

text \<open>C40. The API key stays at home: whatever the servers answer and wherever they redirect, the download makes at most four
  requests, all over HTTPS, sends the key to the extract's own host only and gives up on a body above the limit; and
  what an error says of the failure never contains the key.\<close>

theorem sam_key_stays_home:
  assumes "default_fetch http urljoin quote setting started cap deadline w = (r, sent, w')"
    and "str_strip (text_or setting '''') = key" and "key \<noteq> []" and "CHR ''*'' \<notin> set key"
  shows "list_all (\<lambda>(url, keyed). url_scheme url = ''https'' \<and> (url_netloc url \<noteq> ''api.sam.gov'' \<longrightarrow> \<not> keyed)) sent
    \<and> length sent \<le> 4 \<and> (case r of
        Inr data \<Rightarrow> length data \<le> cap
      | Inl msg \<Rightarrow> \<exists>detail. msg = ''SAM extract fetch failed: '' @ detail \<and> \<not> str_in key detail)"
proof -
  have "list_all (\<lambda>(url, keyed). url_scheme url = ''https'' \<and> (url_netloc url \<noteq> ''api.sam.gov'' \<longrightarrow> \<not> keyed)) sent"
    using fetch_safe [OF assms(1)] by (auto simp: list_all_iff safe_request_def)
  moreover have "case r of Inr data \<Rightarrow> length data \<le> cap
      | Inl msg \<Rightarrow> \<exists>detail. msg = ''SAM extract fetch failed: '' @ detail \<and> \<not> str_in key detail"
    using fetch_safe [OF assms(1)] fetch_masks [OF _ assms(2,3,4)] assms(1) by (cases r) auto
  ultimately show ?thesis using fetch_safe [OF assms(1)] by blast
qed

section \<open>The rows\<close>

definition fits_columns :: "sam_record \<Rightarrow> bool" where
  "fits_columns r = (length (sam_number r) \<le> 64 \<and> length (classification r) \<le> 64 \<and> length (first_name r) \<le> 128
     \<and> length (last_name r) \<le> 128 \<and> length (sam_core r) \<le> 255 \<and> length (city r) \<le> 150 \<and> length (state r) \<le> 150
     \<and> length (sam_country r) \<le> 8 \<and> length (uei r) \<le> 32 \<and> length (cage r) \<le> 16 \<and> length (exclusion_program r) \<le> 64
     \<and> length (excluding_agency r) \<le> 64 \<and> length (exclusion_type r) \<le> 128)"

lemma clip_length: "length (clip n s) \<le> n"
  by (simp add: clip_def)

lemma clip_nonempty: "0 < n \<Longrightarrow> (clip n s = []) = (s = [])"
  by (auto simp: clip_def)

lemma clip_record_ok: "fits_columns (clip_record r) \<and> (sam_core (clip_record r) = []) = (sam_core r = [])
    \<and> (sam_number (clip_record r) = []) = (sam_number r = [])"
  by (simp add: clip_record_def fits_columns_def clip_length clip_nonempty)

lemma sam_row_ok:
  assumes "sam_row raw = Some (r, n)"
  shows "fits_columns r \<and> sam_core r \<noteq> [] \<and> sam_number r \<noteq> []"
proof -
  obtain key where "r = clip_record (sam_fields raw key)" "key \<noteq> []" "sam_cell raw ''SAM Number'' \<noteq> []"
    using assms by (auto simp: sam_row_def Let_def split: if_splits)

  then show ?thesis using clip_record_ok [of "sam_fields raw key"] by (simp add: sam_fields_def Let_def)
qed

lemma parse_usable:
  assumes "parse_extract unzip valid digest cap data = Some p"
  shows "pe_records p \<noteq> [] \<and> list_all (\<lambda>r. fits_columns r \<and> sam_core r \<noteq> [] \<and> sam_number r \<noteq> []) (pe_records p)
    \<and> (MIN_SKIPPED_TO_REJECT < pe_skipped p \<longrightarrow>
      rat_of_nat (pe_skipped p) \<le> fl (rat_of_nat (length (pe_records p) + pe_skipped p) * MAX_SKIPPED_FRACTION))"
proof -
  obtain content table where rows: "extract_rows digest content table = Some p" and ok: "usable p"
    using assms by (auto simp: parse_extract_def split: bind_splits if_splits)
  obtain names cells where "table = (names, cells)" by (metis surj_pair)
  then have "pe_records p = map fst (List.map_filter sam_row cells)"
    using rows by (auto simp: extract_rows_def Let_def split: if_splits)
  then have "list_all (\<lambda>r. fits_columns r \<and> sam_core r \<noteq> [] \<and> sam_number r \<noteq> []) (pe_records p)"
    using sam_row_ok by (fastforce simp: list_all_iff map_filter_def)
  then show ?thesis using ok by (auto simp: usable_def Let_def)
qed

text \<open>Only a usable extract is parsed: it has rows, every row has a number and a core name and fits the columns of
  the table, and at most a twentieth of the rows, or five, were skipped.\<close>

theorem sam_extract_usable:
  assumes "parse_extract unzip valid digest cap data = Some p"
  shows "pe_records p \<noteq> [] \<and> list_all (\<lambda>r. fits_columns r \<and> sam_core r \<noteq> [] \<and> sam_number r \<noteq> []) (pe_records p)
    \<and> (MIN_SKIPPED_TO_REJECT < pe_skipped p \<longrightarrow>
      rat_of_nat (pe_skipped p) \<le> fl (rat_of_nat (length (pe_records p) + pe_skipped p) * MAX_SKIPPED_FRACTION))"
  by (rule parse_usable [OF assms])

section \<open>The stored snapshots\<close>

definition rows_of :: "sam_db \<Rightarrow> string \<Rightarrow> sam_stored list" where
  "rows_of db sid = filter (\<lambda>r. sx_snapshot r = sid) (sd_rows db)"

definition sam_ok :: "sam_db \<Rightarrow> bool" where
  "sam_ok db = (distinct (map snap_id (sd_snapshots db)) \<and> sx_snapshot ` set (sd_rows db) \<subseteq> snap_id ` set (sd_snapshots db))"

lemma map2_append: "length xs = length ys \<Longrightarrow> map2 f (xs @ xs') (ys @ ys') = map2 f xs ys @ map2 f xs' ys'"
  by simp

lemma insert_rows_all:
  "insert_rows new_key sid rs db = db\<lparr>sd_rows := sd_rows db @ map2 (\<lambda>i r. stored_row (new_key i) sid r) [sd_next db..<sd_next db + length rs] rs,
     sd_next := sd_next db + length rs\<rparr>"
proof (induction new_key sid rs db rule: insert_rows.induct)
  case (1 new_key sid rs db)
  show ?case
  proof (cases "rs = []")
    case True
    then show ?thesis by (simp add: insert_rows.simps)
  next
    case False
    let ?part = "take INSERT_CHUNK rs" and ?rest = "drop INSERT_CHUNK rs" and ?row = "\<lambda>i r. stored_row (new_key i) sid r"
    let ?mid = "sd_next db + length ?part"
    have len: "?mid + length ?rest = sd_next db + length rs" by simp
    have "[sd_next db..<sd_next db + length rs] = [sd_next db..<?mid] @ [?mid..<?mid + length ?rest]"
      unfolding len [symmetric] by (rule upt_add_eq_append) simp
    then have rows: "map2 ?row [sd_next db..<sd_next db + length rs] rs
        = map2 ?row [sd_next db..<?mid] ?part @ map2 ?row [?mid..<?mid + length ?rest] ?rest"
      using map2_append [of "[sd_next db..<?mid]" ?part ?row "[?mid..<?mid + length ?rest]" ?rest]
      by (simp only: append_take_drop_id) simp

    show ?thesis
      using 1 [OF False refl refl] False by (subst insert_rows.simps) (simp only: Let_def if_False, simp add: rows)
  qed
qed

lemma stored_record: "sam_record.truncate (stored_row i sid r) = r"
  by (cases r) (simp add: stored_row_def sam_record.extend_def sam_record.truncate_def)

lemma stored_snapshot: "sx_snapshot (stored_row i sid r) = sid"
  by (simp add: stored_row_def sam_record.extend_def)

lemma prune_all: "fold prune_one olds db = db\<lparr>sd_rows := filter (\<lambda>r. sx_snapshot r \<notin> snap_id ` set olds) (sd_rows db),
    sd_snapshots := filter (\<lambda>s. snap_id s \<notin> snap_id ` set olds) (sd_snapshots db)\<rparr>"
proof (induction olds arbitrary: db)
  case (Cons old olds)
  have "(\<lambda>x. snap_id x \<noteq> snap_id old \<and> snap_id x \<notin> snap_id ` set olds) = (\<lambda>s. snap_id s \<notin> snap_id ` set (old # olds))" by auto
  moreover have "(\<lambda>x. sx_snapshot x \<noteq> snap_id old \<and> sx_snapshot x \<notin> snap_id ` set olds) = (\<lambda>r. sx_snapshot r \<notin> snap_id ` set (old # olds))" by auto
  moreover have "fold prune_one (old # olds) db = fold prune_one olds (prune_one old db)" by simp
  ultimately show ?case unfolding Cons.IH by (simp add: prune_one_def [of old db] conj_commute)
qed simp

abbreviation snap_order :: "sam_snapshot \<Rightarrow> int \<times> int \<times> string" where
  "snap_order s \<equiv> (snap_retrieved_at s, snap_created s, snap_id s)"

lemma sort_snoc:
  assumes "\<And>y. y \<in> set xs \<Longrightarrow> f y \<le> f x"
  shows "sort_key f (xs @ [x]) = sort_key f xs @ [x]"
proof (rule properties_for_sort_key)
  show "filter (\<lambda>y. f k = f y) (sort_key f xs @ [x]) = filter (\<lambda>y. f k = f y) (xs @ [x])" for k
    using sort_key_stable [of f _ xs] by (simp add: eq_commute [of "f k"])
qed (use assms in \<open>auto simp: sorted_append\<close>)


lemma newest_ids: "sam_ok db \<Longrightarrow> distinct (map snap_id (newest_first db))"
  by (auto simp: sam_ok_def newest_first_def distinct_map intro: inj_on_subset)

lemma newest_member: "s \<in> set (newest_first db) \<Longrightarrow> s \<in> set (sd_snapshots db)"
  by (simp add: newest_first_def)

lemma filter_other: "distinct (map g (xs @ ys)) \<Longrightarrow> filter (\<lambda>x. g x \<notin> g ` set ys) (xs @ ys) = xs"
  by (auto simp: filter_empty_conv intro: filter_True)

text \<open>The three parts of storing an extract: a newest snapshot, its rows, and the pruning of the oldest.\<close>

definition with_snapshot :: "sam_snapshot \<Rightarrow> sam_stored list \<Rightarrow> nat \<Rightarrow> sam_db \<Rightarrow> sam_db" where
  "with_snapshot s rows n db = db\<lparr>sd_snapshots := sd_snapshots db @ [s], sd_rows := sd_rows db @ rows, sd_next := n\<rparr>"

lemma with_snapshot_newest:
  assumes "snap_source s = SAM_SOURCE" and "list_all (\<lambda>t. snap_retrieved_at t < snap_retrieved_at s) (newest_first db)"
  shows "newest_first (with_snapshot s rows n db) = s # newest_first db"
proof -
  have "sort_key snap_order (filter (\<lambda>t. snap_source t = SAM_SOURCE) (sd_snapshots db) @ [s])
      = sort_key snap_order (filter (\<lambda>t. snap_source t = SAM_SOURCE) (sd_snapshots db)) @ [s]"
    by (rule sort_snoc) (use assms(2) in \<open>auto simp: newest_first_def list_all_iff less_eq_prod_def\<close>)
  then show ?thesis using assms(1) by (simp add: newest_first_def with_snapshot_def)
qed

lemma with_snapshot_ok:
  assumes "sam_ok db" and "snap_id s \<notin> snap_id ` set (sd_snapshots db)" and "sx_snapshot ` set rows \<subseteq> {snap_id s}"
  shows "sam_ok (with_snapshot s rows n db)"
  using assms by (auto simp: sam_ok_def with_snapshot_def)

lemma pruned:
  assumes "sam_ok db"
  shows "newest_first (prune keep db) = take (nat (max 1 keep)) (newest_first db) \<and> sam_ok (prune keep db)
    \<and> list_all (\<lambda>t. rows_of (prune keep db) (snap_id t) = rows_of db (snap_id t)) (newest_first (prune keep db))"
proof -
  let ?k = "nat (max 1 keep)" and ?nf = "newest_first db"
  let ?gone = "snap_id ` set (drop ?k ?nf)"
  have p: "prune keep db = db\<lparr>sd_rows := filter (\<lambda>r. sx_snapshot r \<notin> ?gone) (sd_rows db),
      sd_snapshots := filter (\<lambda>s. snap_id s \<notin> ?gone) (sd_snapshots db)\<rparr>"
    by (simp add: prune_def prune_all)
  have "newest_first (prune keep db) = filter (\<lambda>s. snap_id s \<notin> ?gone) ?nf"
    unfolding p newest_first_def by (simp add: rev_filter [symmetric] filter_sort conj_commute)
  also have "\<dots> = take ?k ?nf"
    using filter_other [of snap_id "take ?k ?nf" "drop ?k ?nf"] newest_ids [OF assms] by simp
  finally have nf: "newest_first (prune keep db) = take ?k ?nf" .
  have "sam_ok (prune keep db)"
    using assms unfolding p sam_ok_def by (auto simp: distinct_map intro: inj_on_subset)
  moreover have "rows_of (prune keep db) (snap_id t) = rows_of db (snap_id t)" if "t \<in> set (take ?k ?nf)" for t
  proof -
    have "distinct (map snap_id (take ?k ?nf @ drop ?k ?nf))" using newest_ids [OF assms] by simp
    then have "snap_id t \<notin> ?gone" using that unfolding map_append distinct_append by auto
    then show ?thesis unfolding p rows_of_def by (simp, intro filter_cong [OF refl]) metis
  qed
  ultimately show ?thesis using nf by (auto simp: list_all_iff)
qed

lemma stored:
  assumes "sam_ok db" and "new_key (sd_next db) \<notin> snap_id ` set (sd_snapshots db)"
    and "list_all (\<lambda>t. snap_retrieved_at t < time) (newest_first db)"
    and "sam_store new_key time keep p True prune_ok db = (result, db')"
  shows "sam_ok db' \<and> (\<exists>s. result = Sam_Ingested (snap_id s) (length (pe_records p)) (pe_skipped p) \<and> snap_sha s = pe_sha p \<and>
    newest_first db' = (if prune_ok then take (nat (max 1 keep)) else id) (s # newest_first db) \<and>
    map sam_record.truncate (rows_of db' (snap_id s)) = pe_records p \<and>
    list_all (\<lambda>t. rows_of db' (snap_id t) = rows_of db (snap_id t)) (tl (newest_first db')))"
proof -
  let ?sid = "new_key (sd_next db)" and ?n = "Suc (sd_next db)" and ?rs = "pe_records p"
  define s where "s = \<lparr>snap_id = ?sid, snap_source = SAM_SOURCE, snap_retrieved_at = time, snap_sha = pe_sha p,
    snap_count = int (length ?rs), snap_created = time\<rparr>"
  let ?rows = "map2 (\<lambda>i r. stored_row (new_key i) ?sid r) [?n..<?n + length ?rs] ?rs"
  define db2 where "db2 = with_snapshot s ?rows (?n + length ?rs) db"
  have out: "result = Sam_Ingested ?sid (length ?rs) (pe_skipped p)" "db' = (if prune_ok then prune keep db2 else db2)"
    using assms(4)
    by (cases prune_ok; simp add: sam_store_def Let_def insert_rows_all db2_def with_snapshot_def s_def del: upt_Suc)+
  have sid: "snap_id s = ?sid" by (simp add: s_def)
  have only: "sx_snapshot r = ?sid" if "r \<in> set ?rows" for r using that stored_snapshot by (auto simp del: upt_Suc)
  have ok2: "sam_ok db2" unfolding db2_def by (rule with_snapshot_ok) (use assms(1,2) only sid in auto)
  have nf2: "newest_first db2 = s # newest_first db"
    unfolding db2_def by (rule with_snapshot_newest) (use assms(3) in \<open>simp_all add: s_def\<close>)
  have "filter (\<lambda>r. sx_snapshot r = ?sid) (sd_rows db) = []"
    using assms(1,2) unfolding sam_ok_def filter_empty_conv image_subset_iff by metis
  then have "rows_of db2 ?sid = ?rows" using only by (simp add: rows_of_def db2_def with_snapshot_def del: upt_Suc)
  moreover have "map sam_record.truncate ?rows = ?rs"
    by (simp add: o_def case_prod_unfold stored_record del: upt_Suc)
  ultimately have new2: "map sam_record.truncate (rows_of db2 ?sid) = ?rs" by simp
  have old2: "rows_of db2 (snap_id t) = rows_of db (snap_id t)" if "t \<in> set (newest_first db)" for t
  proof -
    have "snap_id t \<noteq> ?sid" using newest_member [OF that] assms(2) by (metis image_eqI)
    then show ?thesis using only by (auto simp: rows_of_def db2_def with_snapshot_def filter_empty_conv simp del: upt_Suc)
  qed
  show ?thesis
  proof (cases prune_ok)
    case False
    then show ?thesis using out ok2 nf2 new2 old2 sid by (intro conjI exI [of _ s]) (auto simp: list_all_iff s_def)
  next
    case True
    then have db': "db' = prune keep db2" using out by simp
    have nf': "newest_first db' = s # take (nat (max 1 keep) - 1) (newest_first db)"
      using pruned [OF ok2, of keep] nf2 db' by (simp add: take_Cons')
    have rows': "rows_of db' (snap_id t) = rows_of db2 (snap_id t)" if "t \<in> set (newest_first db')" for t
      using pruned [OF ok2, of keep] that db' by (auto simp: list_all_iff)
    have "rows_of db' ?sid = rows_of db2 ?sid" using rows' [of s] nf' sid by simp
    moreover have "rows_of db' (snap_id t) = rows_of db (snap_id t)" if "t \<in> set (tl (newest_first db'))" for t
      using rows' [of t] old2 [of t] that nf' by (auto dest: in_set_takeD)
    ultimately show ?thesis using True out db' pruned [OF ok2, of keep] nf2 new2 sid
      by (intro conjI exI [of _ s]) (auto simp: list_all_iff s_def)
  qed
qed

lemma ingested:
  assumes "sam_ok db" and "new_key (sd_next db) \<notin> snap_id ` set (sd_snapshots db)"
    and "list_all (\<lambda>t. snap_retrieved_at t < time) (newest_first db)"
    and "sam_ingest parse new_key time keep fetched store_ok prune_ok db = (result, db')"
  shows "sam_ok db' \<and> (case result of
      Sam_Ingested i n skipped \<Rightarrow> \<exists>s p data. fetched = Inr data \<and> parse data = Some p \<and> snap_id s = i \<and> n = length (pe_records p) \<and>
        newest_first db' = (if prune_ok then take (nat (max 1 keep)) else id) (s # newest_first db) \<and>
        map sam_record.truncate (rows_of db' i) = pe_records p \<and>
        list_all (\<lambda>t. rows_of db' (snap_id t) = rows_of db (snap_id t)) (tl (newest_first db')) \<and>
        (case latest_snapshot db of None \<Rightarrow> True | Some l \<Rightarrow> snap_sha l \<noteq> pe_sha p \<and> fl (rat_of_int (snap_count l) * MIN_ROW_FRACTION) \<le> rat_of_nat n)
    | _ \<Rightarrow> db' = db)"
proof -
  have stays: ?thesis if "db' = db" and "\<And>i n k. result \<noteq> Sam_Ingested i n k"
    using that(1) that(2) assms(1) by (cases result) (simp_all, metis)
  show ?thesis
  proof (cases fetched)
    case (Inl msg)
    then have "db' = db \<and> result = Sam_Failed msg" using assms(4) by (simp add: sam_ingest_def)
    then show ?thesis using assms(1) by simp
  next
    case (Inr data)
    show ?thesis
    proof (cases "parse data")
      case None
      then have "db' = db \<and> result = Sam_Failed ''unusable extract''" using assms(4) Inr by (simp add: sam_ingest_def)
      then show ?thesis using assms(1) by simp
    next
      case (Some p)
      let ?enough = "case latest_snapshot db of None \<Rightarrow> True
        | Some l \<Rightarrow> snap_sha l \<noteq> pe_sha p \<and> fl (rat_of_int (snap_count l) * MIN_ROW_FRACTION) \<le> rat_of_nat (length (pe_records p))"
      show ?thesis
      proof (cases "?enough \<and> store_ok")
        case False
        then have "db' = db \<and> (\<forall>i n k. result \<noteq> Sam_Ingested i n k)"
          using assms(4) Inr Some by (auto simp: sam_ingest_def sam_store_def Let_def split: option.splits if_splits)
        then show ?thesis using stays by blast
      next
        case True
        then have "sam_store new_key time keep p True prune_ok db = (result, db')"
          using assms(4) Inr Some by (auto simp: sam_ingest_def Let_def split: option.splits)
        from stored [OF assms(1,2,3) this] obtain s where "sam_ok db'"
          "result = Sam_Ingested (snap_id s) (length (pe_records p)) (pe_skipped p)"
          "newest_first db' = (if prune_ok then take (nat (max 1 keep)) else id) (s # newest_first db)"
          "map sam_record.truncate (rows_of db' (snap_id s)) = pe_records p"
          "list_all (\<lambda>t. rows_of db' (snap_id t) = rows_of db (snap_id t)) (tl (newest_first db'))" by blast
        then show ?thesis using True Inr Some by auto
      qed
    qed
  qed
qed

text \<open>C39. A bad download never replaces the stored list: an ingest that fails, finds the extract unchanged, sees the
  number of rows collapse or cannot store leaves the database alone; one that succeeds makes the parsed extract the newest
  snapshot, row by row, no smaller than half of the one before, keeps the newest ones beside it and leaves their rows
  untouched.\<close>

theorem sam_ingest_keeps_last_good:
  assumes "sam_ok db" and "new_key (sd_next db) \<notin> snap_id ` set (sd_snapshots db)"
    and "list_all (\<lambda>t. snap_retrieved_at t < time) (newest_first db)"
    and "sam_ingest parse new_key time keep fetched store_ok prune_ok db = (result, db')"
  shows "sam_ok db' \<and> (case result of
      Sam_Ingested i n skipped \<Rightarrow> \<exists>s p data. fetched = Inr data \<and> parse data = Some p \<and> snap_id s = i \<and> n = length (pe_records p) \<and>
        newest_first db' = (if prune_ok then take (nat (max 1 keep)) else id) (s # newest_first db) \<and>
        map sam_record.truncate (rows_of db' i) = pe_records p \<and>
        list_all (\<lambda>t. rows_of db' (snap_id t) = rows_of db (snap_id t)) (tl (newest_first db')) \<and>
        (case latest_snapshot db of None \<Rightarrow> True | Some l \<Rightarrow> snap_sha l \<noteq> pe_sha p \<and> fl (rat_of_int (snap_count l) * MIN_ROW_FRACTION) \<le> rat_of_nat n)
    | _ \<Rightarrow> db' = db)"
  by (rule ingested [OF assms])

section \<open>A small extract\<close>

definition sam_header :: "string list" where
  "sam_header = REQUIRED_COLUMNS"

definition sam_sample :: "string list" where
  "sam_sample = [''Firm'', ''Acme Trading, LLC'', [], [], ''Austin'', ''TX'', ''USA'', ''U1'', ''Reciprocal'', ''GSA'',
     ''Ineligible'', ''2024-02-29'', ''Indefinite'', [], ''S1'', []]"

definition sam_text :: string where
  "sam_text = concat (map quote_row [sam_header, sam_sample])"

definition sample_zip :: "string \<Rightarrow> member_file list option" where
  "sample_zip data = Some [\<lparr>mb_name = ''EXCLUSIONS.CSV'', mb_size = length data, mb_data = Some data\<rparr>]"

definition sample_extract :: parsed_extract where
  "sample_extract = \<lparr>pe_records = map fst (List.map_filter sam_row [dict_row sam_header sam_sample]), pe_skipped = 0,
     pe_truncated = 0, pe_sha = ''d1''\<rparr>"

lemma sam_text_read: "csv_file_reader sam_text = Some [sam_header, sam_sample]"
  unfolding sam_text_def
  by (rule csv_reads_quoted_rows(2)) (simp add: sam_header_def sam_sample_def REQUIRED_COLUMNS_def FIELD_LIMIT_def)

lemma sample_sam_row: "map_option (\<lambda>(r, n). (sam_number r, sam_core r, active_date r, termination_indefinite r, n))
    (sam_row (dict_row sam_header sam_sample)) = Some (''S1'', ''acme trading'', Some 738945, True, 0)"
  by code_simp

lemma sample_parsed: "parse_extract sample_zip (\<lambda>_. True) (\<lambda>_. ''d1'') (length sam_text) sam_text = Some sample_extract"
proof -
  obtain r where r: "sam_row (dict_row sam_header sam_sample) = Some (r, 0)" using sample_sam_row by (cases "sam_row (dict_row sam_header sam_sample)") auto
  have name: "ends_with ''.csv'' (str_lower ''EXCLUSIONS.CSV'')" by code_simp
  have bom: "strip_bom sam_text = sam_text"
    by (simp add: strip_bom_def sam_text_def quote_row_def sam_header_def REQUIRED_COLUMNS_def str_join_def quote_field_def)
  have columns: "\<not> list_ex (\<lambda>c. c \<notin> set sam_header) REQUIRED_COLUMNS" by (simp add: sam_header_def list_ex_iff)
  show ?thesis
    using r name bom columns
    by (simp add: parse_extract_def sample_zip_def sam_text_read extract_rows_def dict_rows_def sam_sample_def [symmetric]
        sample_extract_def usable_def MIN_SKIPPED_TO_REJECT_def List.map_filter_simps) (simp add: sam_sample_def)
qed

lemma sam_extract_usable_witness: "pe_records sample_extract \<noteq> []"
  using sam_extract_usable [OF sample_parsed] by blast

lemma sam_key_stays_home_witness:
  "(case fst (default_fetch (\<lambda>url key w. (Broken (''GET with SECRET'' @ w), w)) (\<lambda>base url. url) id (Some ''SECRET'') 0 10 10 ''!'') of
      Inr data \<Rightarrow> False | Inl msg \<Rightarrow> \<exists>detail. msg = ''SAM extract fetch failed: '' @ detail \<and> \<not> str_in ''SECRET'' detail)"
proof -
  let ?run = "default_fetch (\<lambda>url key w. (Broken (''GET with SECRET'' @ w), w)) (\<lambda>base url. url) id (Some ''SECRET'') 0 10 10 ''!''"
  obtain r sent w' where run: "?run = (r, sent, w')" by (rule prod_cases3 [of ?run])
  have key: "str_strip (text_or (Some ''SECRET'') '''') = ''SECRET''" by code_simp
  have "isl (fst ?run)" by code_simp
  then show ?thesis using sam_key_stays_home [OF run key] run by (cases r) auto
qed

definition empty_sam :: sam_db where
  "empty_sam = \<lparr>sd_snapshots = [], sd_rows = [], sd_next = 0\<rparr>"

lemma sam_ingest_keeps_last_good_witness:
  "\<exists>i n skipped. fst (sam_ingest (\<lambda>_. Some sample_extract) nat_digits 5 7 (Inr sam_text) True True empty_sam) = Sam_Ingested i n skipped
     \<and> n = length (pe_records sample_extract)"
proof -
  obtain result db' where run: "sam_ingest (\<lambda>_. Some sample_extract) nat_digits 5 7 (Inr sam_text) True True empty_sam = (result, db')"
    by (metis surj_pair)
  then obtain i n k where r: "result = Sam_Ingested i n k"
    by (auto simp: sam_ingest_def latest_snapshot_def newest_first_def empty_sam_def sam_store_def Let_def)
  have ok: "sam_ok empty_sam" and fresh: "nat_digits (sd_next empty_sam) \<notin> snap_id ` set (sd_snapshots empty_sam)"
    and old: "list_all (\<lambda>t. snap_retrieved_at t < 5) (newest_first empty_sam)"
    by (simp_all add: sam_ok_def empty_sam_def newest_first_def)
  have "n = length (pe_records sample_extract)"
    using sam_ingest_keeps_last_good [OF ok fresh old run] unfolding r sam_result.case option.inject by (elim conjE exE) simp
  then show ?thesis using run r by simp
qed

end
