(* ===== verification/Spec2Isabelle.thy ===== *)
theory Spec2Isabelle
  imports Verdict Blocking Scoring_Samples Replay Monitoring Explanation Report_View Officers_Laws Access_Laws Ownership_Laws Pii_Laws Adapters_Laws
    Person_Laws Sanctions_Laws Sam_Laws
begin

text \<open>
  EntityIQ (backend under \<open>src/backend/app\<close>): a verification of its decision-making core.

  The program has two products on one set of tables. Individual screening compares a person with the official sanctions
  lists and decides CLEAR, REVIEW or MATCH. Business verification collects evidence about a company from many sources, turns it
  into signals, scores and a tier, and hands a report to operators and to integrations. Both drive a run through an ordered
  list of stages; the second calls the first for a company's officers and owners.

  Foundations. \<open>Prelude\<close> holds the Python values: a \<open>str\<close> as its UTF-8 bytes with ASCII case and white space, a \<open>dict\<close> as an
  association list in insertion order, JSON columns. \<open>Binary64\<close> is Python's \<open>float\<close>: rationals rounded to binary64 after each
  operation, \<open>round\<close> and decimal literals. \<open>Patterns\<close> matches the shape of regular expression the code uses, \<open>Csv\<close> is
  \<open>csv.reader\<close> and \<open>csv.DictReader\<close> with what they do on quoted text, \<open>Ip_Address\<close> what is used of \<open>ipaddress\<close>.

  Lists (\<open>lists/\<close>). \<open>Person_Lists\<close> and \<open>Foreign_Lists\<close> are the parsers of the OFAC, UN, EU and UK lists
  (\<open>ofac.py\<close>, \<open>persons.py\<close>), \<open>Person_Laws\<close> shows that an SDN file is read back, that every listed name and alias reaches the
  search and that all parsers give records of one shape. \<open>Monitoring\<close> is the ingest of a list, the difference of two
  snapshots and the rescreening it causes (\<open>ingest.py\<close>, \<open>snapshot.py\<close>, \<open>delta.py\<close>, \<open>screening/monitor.py\<close>).
  \<open>Sam\<close> and \<open>Sam_Laws\<close> are the SAM.gov exclusions (\<open>sam.py\<close>): a download that keeps its key to itself and an ingest that never
  gives up the last good snapshot. \<open>Countries\<close> is \<open>countries.py\<close>.

  Screening (\<open>screening/\<close>). \<open>Names\<close> and \<open>Blocking\<close> find the records that share a phonetic key with a person (\<open>names.py\<close>,
  \<open>blocking.py\<close>: recall, soundness and completeness below the cap); \<open>Matching\<close> compares a person with a record in named terms with
  the weights of a versioned rule (\<open>scoring.py\<close>, refined from a specification by term names); \<open>Dispose\<close> bands the
  scores and rolls them up (\<open>dispose.py\<close>). \<open>Verdict\<close> states what a decision guarantees, with the float arithmetic shown
  equal to that of exact decimals. \<open>Crypto\<close> is the envelope encryption of subjects with crypto-shredding (\<open>crypto.py\<close>,
  \<open>retention.py\<close>). \<open>Screening_Db\<close> holds the tables, \<open>Screening_Stages\<close> the stages (\<open>stages.py\<close>, \<open>pipeline.py\<close>) and
  \<open>Orchestrator\<close> the loop over them (\<open>pipeline/orchestrator.py\<close>) as a function and as a step relation with its invariants;
  \<open>Screening_Run\<close> and \<open>Screening_Live\<close> show what a whole run guarantees and that every run ends and is decided.
  \<open>Explain\<close> and \<open>Explanation\<close> are the trail of claims and the explanation built from it (\<open>explain.py\<close>), \<open>Replay\<close> recomputes
  a stored decision (\<open>replay.py\<close>).

  Business verification. \<open>Intake\<close> takes submissions (\<open>schemas/submission.py\<close>, \<open>api/submissions.py\<close>). \<open>Adapters\<close> is the contract with
  external sources, its cache, token buckets and retries (\<open>adapters/base.py\<close>, \<open>cache.py\<close>, \<open>ratelimit.py\<close>, \<open>retry.py\<close>);
  \<open>Sanctions\<close> and \<open>Tax_Id\<close> are two adapters with their stages (\<open>sanctions.py\<close>, \<open>tax_id.py\<close>). \<open>Kyb_Evidence\<close> holds the rows of
  evidence, \<open>Entity_Signals\<close> and \<open>Layer_Signals\<close> the catalog of signals (\<open>scoring/signals.py\<close>), \<open>Scoring_Engine\<close> scores and tiers
  (\<open>engine.py\<close>, \<open>triage.py\<close>), with their properties in \<open>Scoring_Laws\<close>. \<open>Officers\<close> screens the people of a company
  (\<open>officer_screening/\<close>). \<open>Report\<close> builds the report (\<open>scoring/explain.py\<close>, \<open>report.py\<close>) and \<open>Report_View\<close> redacts it
  (\<open>auth/pii.py\<close>). \<open>Casework\<close> is what operators do with a run (\<open>api/reviews.py\<close>, \<open>workflow.py\<close>, \<open>reanalysis.py\<close>), \<open>Pii_Retention\<close>
  the job that anonymizes submissions (\<open>db/retention.py\<close>), \<open>Ownership\<close> the proof that a submitter controls a domain
  (\<open>pipeline/ownership.py\<close>, \<open>api/ownership.py\<close>), \<open>Access\<close> sign-in, sessions, API keys and roles (\<open>auth/\<close>, \<open>api/api_clients.py\<close>).
  The theories named \<open>..._Laws\<close> hold the properties of these, \<open>Samples\<close> and \<open>Scoring_Samples\<close> the concrete inputs of the
  witnesses.

  State and operations. A table is the list of its rows in insertion order inside a record of tables; a handler, a stage or a
  job is a function from the tables to the tables and an answer, every early return and exception a value of an option, a sum
  or a result type. Identifiers come from a stream of generated keys, times from a clock that is an argument. Mutable objects of
  the code (the cache, the buckets, the parsed list an adapter keeps) are records that the operations return updated.

  Interfaces are locales, interpreted on the model: the rounding of \<open>float\<close>, the run's row and the invariants the orchestrator
  keeps through its stages, the lines a CSV reader is given, and the session store behind sign-in.

  Bounds and loops. Loops over data are structural recursion; a loop that shrinks a text or a list has a measure; the
  wait for a token, the one loop that could run for ever, is a partial function whose return is proved. No fuel is used. The
  limits of the code (the cap on candidates, the field limit of \<open>csv\<close>, redirects, sizes, widths of columns, the number of
  attempts) are the code's constants.

  Parameters, because their code is not here: transliteration and phonetic codes, AES-GCM, PBKDF2 and random bytes, the
  Redis server, HTTP, DNS and mail, the XML and ZIP containers, URL joining and percent-encoding, digests, the
  registry and tax-ID providers, clocks, sleeping and generated identifiers. What a proof needs of one is a named hypothesis of
  its theorem.

  Not modelled. The adapters that read the web, DNS, certificates, geocoding, registries and network data
  (\<open>adapters/web.py\<close>, \<open>domain.py\<close>, \<open>ipinfo.py\<close>, \<open>geocode.py\<close>, \<open>opencorporates.py\<close>, \<open>linkedin.py\<close>, \<open>public_records.py\<close>): mostly
  the reading of foreign answers. The stages \<open>normalize.py\<close> (but for its domains of free mail), \<open>resolve.py\<close> and
  \<open>consistency.py\<close>. The read-only endpoints of reports, the audit log and screening (\<open>api/reports.py\<close>, \<open>api/audit.py\<close>,
  \<open>screening/api.py\<close>, \<open>metrics.py\<close>, \<open>eval.py\<close>, \<open>officer_screening/api.py\<close>), response schemas, seeds and demonstration data, the worker and the
  application wiring, database sessions and migrations. Wording (descriptions, messages, log lines) is
  left out throughout; names are compared as ASCII, lengths count bytes.
\<close>

end
